theory Spec2Isabelle
  imports Complex_Main
begin

section \<open>Numbers of the host language\<close>

text \<open>
  Every number of the program is an IEEE double. The model keeps the special values
  (the two infinities and NaN) and takes the finite values as exact reals: rounding,
  overflow to infinity, the sign of zero and the narrowing to 32 bits of a
  \<^verbatim>\<open>Float32Array\<close> store are not modelled. A zero divisor is taken as
  positive zero.
\<close>

datatype jsnum = Fin real | PInf | NInf | NaN

fun jneg :: "jsnum \<Rightarrow> jsnum" where
  "jneg (Fin a) = Fin (- a)"
| "jneg PInf = NInf"
| "jneg NInf = PInf"
| "jneg NaN = NaN"

fun jadd :: "jsnum \<Rightarrow> jsnum \<Rightarrow> jsnum" where
  "jadd (Fin a) (Fin b) = Fin (a + b)"
| "jadd NaN _ = NaN"
| "jadd _ NaN = NaN"
| "jadd PInf NInf = NaN"
| "jadd NInf PInf = NaN"
| "jadd PInf _ = PInf"
| "jadd NInf _ = NInf"
| "jadd _ PInf = PInf"
| "jadd _ NInf = NInf"

definition jsub :: "jsnum \<Rightarrow> jsnum \<Rightarrow> jsnum" where
  "jsub a b = jadd a (jneg b)"

fun jmul :: "jsnum \<Rightarrow> jsnum \<Rightarrow> jsnum" where
  "jmul (Fin a) (Fin b) = Fin (a * b)"
| "jmul NaN _ = NaN"
| "jmul _ NaN = NaN"
| "jmul (Fin a) PInf = (if a = 0 then NaN else if 0 < a then PInf else NInf)"
| "jmul (Fin a) NInf = (if a = 0 then NaN else if 0 < a then NInf else PInf)"
| "jmul PInf (Fin b) = (if b = 0 then NaN else if 0 < b then PInf else NInf)"
| "jmul NInf (Fin b) = (if b = 0 then NaN else if 0 < b then NInf else PInf)"
| "jmul PInf PInf = PInf"
| "jmul PInf NInf = NInf"
| "jmul NInf PInf = NInf"
| "jmul NInf NInf = PInf"

fun jdiv :: "jsnum \<Rightarrow> jsnum \<Rightarrow> jsnum" where
  "jdiv (Fin a) (Fin b) =
     (if b \<noteq> 0 then Fin (a / b)
      else if a = 0 then NaN else if 0 < a then PInf else NInf)"
| "jdiv NaN _ = NaN"
| "jdiv _ NaN = NaN"
| "jdiv (Fin a) _ = Fin 0"
| "jdiv PInf (Fin b) = (if 0 \<le> b then PInf else NInf)"
| "jdiv NInf (Fin b) = (if 0 \<le> b then NInf else PInf)"
| "jdiv _ _ = NaN"

fun jlt :: "jsnum \<Rightarrow> jsnum \<Rightarrow> bool" where
  "jlt (Fin a) (Fin b) = (a < b)"
| "jlt NaN _ = False"
| "jlt _ NaN = False"
| "jlt _ NInf = False"
| "jlt NInf _ = True"
| "jlt PInf _ = False"
| "jlt (Fin a) PInf = True"

definition jle :: "jsnum \<Rightarrow> jsnum \<Rightarrow> bool" where
  "jle a b = (jlt a b \<or> (a = b \<and> a \<noteq> NaN))"

definition jgt :: "jsnum \<Rightarrow> jsnum \<Rightarrow> bool" where
  "jgt a b = jlt b a"

definition jge :: "jsnum \<Rightarrow> jsnum \<Rightarrow> bool" where
  "jge a b = jle b a"

fun jabs :: "jsnum \<Rightarrow> jsnum" where
  "jabs (Fin a) = Fin \<bar>a\<bar>"
| "jabs NaN = NaN"
| "jabs _ = PInf"

fun jsqrt :: "jsnum \<Rightarrow> jsnum" where
  "jsqrt (Fin a) = (if 0 \<le> a then Fin (sqrt a) else NaN)"
| "jsqrt PInf = PInf"
| "jsqrt _ = NaN"

fun jfloor :: "jsnum \<Rightarrow> jsnum" where
  "jfloor (Fin a) = Fin (of_int \<lfloor>a\<rfloor>)"
| "jfloor x = x"

fun jcos :: "jsnum \<Rightarrow> jsnum" where
  "jcos (Fin a) = Fin (cos a)"
| "jcos _ = NaN"

fun jsin :: "jsnum \<Rightarrow> jsnum" where
  "jsin (Fin a) = Fin (sin a)"
| "jsin _ = NaN"

text \<open>\<^verbatim>\<open>Math.max\<close> of two arguments: NaN as soon as one argument is NaN.\<close>

definition jmax :: "jsnum \<Rightarrow> jsnum \<Rightarrow> jsnum" where
  "jmax a b = (if a = NaN \<or> b = NaN then NaN else if jlt a b then b else a)"

text \<open>The remainder operator \<^verbatim>\<open>%\<close>: the sign follows the dividend.\<close>

definition rtrunc :: "real \<Rightarrow> real" where
  "rtrunc x = (if 0 \<le> x then of_int \<lfloor>x\<rfloor> else of_int \<lceil>x\<rceil>)"

fun jmod :: "jsnum \<Rightarrow> jsnum \<Rightarrow> jsnum" where
  "jmod (Fin a) (Fin b) = (if b = 0 then NaN else Fin (a - b * rtrunc (a / b)))"
| "jmod NaN _ = NaN"
| "jmod _ NaN = NaN"
| "jmod (Fin a) _ = Fin a"
| "jmod _ _ = NaN"

text \<open>\<^verbatim>\<open>Math.pow\<close>, with the case table of the language standard.\<close>

definition is_int :: "real \<Rightarrow> bool" where
  "is_int y = (of_int \<lfloor>y\<rfloor> = y)"

definition is_odd_int :: "real \<Rightarrow> bool" where
  "is_odd_int y = (is_int y \<and> odd \<lfloor>y\<rfloor>)"

fun jpow :: "jsnum \<Rightarrow> jsnum \<Rightarrow> jsnum" where
  "jpow _ NaN = NaN"
| "jpow x (Fin y) =
     (if y = 0 then Fin 1
      else case x of
        NaN \<Rightarrow> NaN
      | Fin a \<Rightarrow>
          (if 0 < a then Fin (a powr y)
           else if a = 0 then (if 0 < y then Fin 0 else PInf)
           else if is_int y then Fin (a powi \<lfloor>y\<rfloor>) else NaN)
      | PInf \<Rightarrow> (if 0 < y then PInf else Fin 0)
      | NInf \<Rightarrow> (if 0 < y then (if is_odd_int y then NInf else PInf) else Fin 0))"
| "jpow x PInf =
     (case x of
        NaN \<Rightarrow> NaN
      | Fin a \<Rightarrow> (if 1 < \<bar>a\<bar> then PInf else if \<bar>a\<bar> = 1 then NaN else Fin 0)
      | _ \<Rightarrow> PInf)"
| "jpow x NInf =
     (case x of
        NaN \<Rightarrow> NaN
      | Fin a \<Rightarrow> (if 1 < \<bar>a\<bar> then Fin 0 else if \<bar>a\<bar> = 1 then NaN else PInf)
      | _ \<Rightarrow> Fin 0)"

abbreviation jnat :: "nat \<Rightarrow> jsnum" where
  "jnat n \<equiv> Fin (real n)"

section \<open>Parameters\<close>

datatype normal_type = Vertex | Face | Horizontal

record loftParams =
  rings :: nat
  segments :: nat
  radius :: jsnum
  height :: jsnum
  twist :: jsnum
  taper :: jsnum
  normalType :: normal_type
  textureRepeatU :: jsnum
  textureRepeatV :: jsnum
  textureRotation :: jsnum
  smoothingIntensity :: nat
  falloffEnabled :: bool
  falloffTop :: jsnum
  falloffBottom :: jsnum
  falloffPower :: jsnum

section \<open>Displacement falloff\<close>

definition calculateDisplacementFalloff :: "jsnum \<Rightarrow> loftParams \<Rightarrow> jsnum" where
  "calculateDisplacementFalloff normalizedHeight params =
     (if \<not> falloffEnabled params then Fin 1
      else if jlt normalizedHeight (falloffBottom params) then
        (let t = jdiv normalizedHeight (falloffBottom params)
         in jpow t (falloffPower params))
      else if jgt normalizedHeight (jsub (Fin 1) (falloffTop params)) then
        (let t = jdiv (jsub (Fin 1) normalizedHeight) (falloffTop params)
         in jpow t (falloffPower params))
      else Fin 1)"

section \<open>Vectors and geometry buffers\<close>

datatype vec3 = Vec3 (vx: jsnum) (vy: jsnum) (vz: jsnum)

type_synonym vec2 = "jsnum \<times> jsnum"

text \<open>
  The vector operations of the graphics library that the program calls.
  \<^verbatim>\<open>normalize\<close> divides by \<^verbatim>\<open>length() || 1\<close>, as a multiplication by the inverse.
\<close>

definition addV :: "vec3 \<Rightarrow> vec3 \<Rightarrow> vec3" where
  "addV a b = Vec3 (jadd (vx a) (vx b)) (jadd (vy a) (vy b)) (jadd (vz a) (vz b))"

definition subVectors :: "vec3 \<Rightarrow> vec3 \<Rightarrow> vec3" where
  "subVectors a b = Vec3 (jsub (vx a) (vx b)) (jsub (vy a) (vy b)) (jsub (vz a) (vz b))"

definition multiplyScalar :: "vec3 \<Rightarrow> jsnum \<Rightarrow> vec3" where
  "multiplyScalar a s = Vec3 (jmul (vx a) s) (jmul (vy a) s) (jmul (vz a) s)"

definition crossVectors :: "vec3 \<Rightarrow> vec3 \<Rightarrow> vec3" where
  "crossVectors a b =
     Vec3 (jsub (jmul (vy a) (vz b)) (jmul (vz a) (vy b)))
          (jsub (jmul (vz a) (vx b)) (jmul (vx a) (vz b)))
          (jsub (jmul (vx a) (vy b)) (jmul (vy a) (vx b)))"

definition lengthV :: "vec3 \<Rightarrow> jsnum" where
  "lengthV a =
     jsqrt (jadd (jadd (jmul (vx a) (vx a)) (jmul (vy a) (vy a))) (jmul (vz a) (vz a)))"

definition normalize :: "vec3 \<Rightarrow> vec3" where
  "normalize a =
     (let l = lengthV a;
          d = (if l = Fin 0 \<or> l = NaN then Fin 1 else l)
      in multiplyScalar a (jdiv (Fin 1) d))"

text \<open>
  A buffer geometry of the lathe: the attributes \<^verbatim>\<open>position\<close>, \<^verbatim>\<open>normal\<close> and
  \<^verbatim>\<open>uv\<close> and the index, all of which \<^verbatim>\<open>createLoftGeometry\<close> and
  \<^verbatim>\<open>createWeldedCapGeometries\<close> set. A read past the end of a typed array gives
  \<^verbatim>\<open>undefined\<close>, which every use below turns into NaN; a write past the end is
  dropped, as list update is.
\<close>

record geometry =
  positionAttr :: "vec3 list"
  normalAttr :: "vec3 list"
  uvAttr :: "vec2 list"
  indexAttr :: "nat list"

definition getV :: "vec3 list \<Rightarrow> nat \<Rightarrow> vec3" where
  "getV ps i = (if i < length ps then ps ! i else Vec3 NaN NaN NaN)"

definition getVi :: "vec3 list \<Rightarrow> int \<Rightarrow> vec3" where
  "getVi ps i = (if 0 \<le> i \<and> nat i < length ps then ps ! nat i else Vec3 NaN NaN NaN)"

definition getUV :: "vec2 list \<Rightarrow> nat \<Rightarrow> vec2" where
  "getUV uvs i = (if i < length uvs then uvs ! i else (NaN, NaN))"

definition getN :: "jsnum list \<Rightarrow> nat \<Rightarrow> jsnum" where
  "getN xs i = (if i < length xs then xs ! i else NaN)"

text \<open>A counted loop \<^verbatim>\<open>for (let i = 0; i < n; i++)\<close> over a state.\<close>

definition forUpto :: "nat \<Rightarrow> (nat \<Rightarrow> 's \<Rightarrow> 's) \<Rightarrow> 's \<Rightarrow> 's" where
  "forUpto n body s = foldl (\<lambda>s i. body i s) s [0..<n]"

section \<open>Profile evaluator\<close>

datatype error = TypeError | NoVertices

record anchor =
  position :: vec3
  handleIn :: vec3
  handleOut :: vec3
  isSmooth :: bool

text \<open>The cubic Bezier curve of the graphics library, one coordinate at a time.\<close>

definition CubicBezierP0 :: "jsnum \<Rightarrow> jsnum \<Rightarrow> jsnum" where
  "CubicBezierP0 t p = (let k = jsub (Fin 1) t in jmul (jmul (jmul k k) k) p)"

definition CubicBezierP1 :: "jsnum \<Rightarrow> jsnum \<Rightarrow> jsnum" where
  "CubicBezierP1 t p = (let k = jsub (Fin 1) t in jmul (jmul (jmul (jmul (Fin 3) k) k) t) p)"

definition CubicBezierP2 :: "jsnum \<Rightarrow> jsnum \<Rightarrow> jsnum" where
  "CubicBezierP2 t p = jmul (jmul (jmul (jmul (Fin 3) (jsub (Fin 1) t)) t) t) p"

definition CubicBezierP3 :: "jsnum \<Rightarrow> jsnum \<Rightarrow> jsnum" where
  "CubicBezierP3 t p = jmul (jmul (jmul t t) t) p"

definition CubicBezier :: "jsnum \<Rightarrow> jsnum \<Rightarrow> jsnum \<Rightarrow> jsnum \<Rightarrow> jsnum \<Rightarrow> jsnum" where
  "CubicBezier t p0 p1 p2 p3 =
     jadd (jadd (jadd (CubicBezierP0 t p0) (CubicBezierP1 t p1)) (CubicBezierP2 t p2))
          (CubicBezierP3 t p3)"

datatype curve = CubicBezierCurve3 vec3 vec3 vec3 vec3

fun getPoint :: "curve \<Rightarrow> jsnum \<Rightarrow> vec3" where
  "getPoint (CubicBezierCurve3 v0 v1 v2 v3) t =
     Vec3 (CubicBezier t (vx v0) (vx v1) (vx v2) (vx v3))
          (CubicBezier t (vy v0) (vy v1) (vy v2) (vy v3))
          (CubicBezier t (vz v0) (vz v1) (vz v2) (vz v3))"

text \<open>
  The bisection loop of \<^verbatim>\<open>getRadiusAtHeight\<close>; the first argument counts the
  iterations that are left of \<^verbatim>\<open>maxIterations\<close>.
\<close>

fun bisection :: "nat \<Rightarrow> curve \<Rightarrow> jsnum \<Rightarrow> jsnum \<Rightarrow> jsnum \<Rightarrow> jsnum \<Rightarrow> jsnum" where
  "bisection 0 c h tMin tMax t = jmax (Fin 0.1) (vx (getPoint c t))"
| "bisection (Suc n) c h tMin tMax t =
     (let point = getPoint c t;
          err = jsub (vy point) h
      in if jlt (jabs err) (Fin 0.0001) then jmax (Fin 0.1) (vx point)
         else if jgt err (Fin 0)
           then bisection n c h tMin t (jdiv (jadd tMin t) (Fin 2))
           else bisection n c h t tMax (jdiv (jadd t tMax) (Fin 2)))"

text \<open>The search for the segment whose anchor heights bracket the height.\<close>

fun segmentSearch :: "anchor list \<Rightarrow> loftParams \<Rightarrow> jsnum \<Rightarrow> jsnum" where
  "segmentSearch (a # b # rest) params h =
     (if jge h (vy (position a)) \<and> jle h (vy (position b)) then
        bisection 20
          (CubicBezierCurve3 (position a) (addV (position a) (handleOut a))
             (addV (position b) (handleIn b)) (position b))
          h (Fin 0) (Fin 1) (Fin 0.5)
      else segmentSearch (b # rest) params h)"
| "segmentSearch _ params h = radius params"

definition getRadiusAtHeight :: "anchor list \<Rightarrow> loftParams \<Rightarrow> jsnum \<Rightarrow> error + jsnum" where
  "getRadiusAtHeight loftBezierAnchors params h =
     (if jle h (Fin 0) then
        (case loftBezierAnchors of
           [] \<Rightarrow> Inl TypeError
         | a # _ \<Rightarrow> Inr (jmax (Fin 0.1) (vx (position a))))
      else if jge h (height params) then
        (case loftBezierAnchors of
           [] \<Rightarrow> Inl TypeError
         | _ # _ \<Rightarrow> Inr (jmax (Fin 0.1) (vx (position (last loftBezierAnchors)))))
      else Inr (segmentSearch loftBezierAnchors params h))"

section \<open>Lathe mesh builder\<close>

definition minRadius :: jsnum where
  "minRadius = Fin 0.1"

definition heightStep :: "loftParams \<Rightarrow> jsnum" where
  "heightStep params = jdiv (height params) (Fin (real (rings params) - 1))"

definition twistStep :: "loftParams \<Rightarrow> jsnum" where
  "twistStep params =
     jdiv (jdiv (jmul (twist params) (Fin pi)) (Fin 180)) (Fin (real (rings params) - 1))"

definition ringHeight :: "loftParams \<Rightarrow> nat \<Rightarrow> jsnum" where
  "ringHeight params ring = jmul (jnat ring) (heightStep params)"

definition ringTaper :: "loftParams \<Rightarrow> nat \<Rightarrow> jsnum" where
  "ringTaper params ring =
     jsub (Fin 1)
       (jmul (jsub (Fin 1) (taper params)) (jdiv (jnat ring) (Fin (real (rings params) - 1))))"

definition ringRadiusAt :: "anchor list \<Rightarrow> loftParams \<Rightarrow> nat \<Rightarrow> error + jsnum" where
  "ringRadiusAt anchors params ring =
     (case getRadiusAtHeight anchors params (ringHeight params ring) of
        Inl e \<Rightarrow> Inl e
      | Inr baseRadius \<Rightarrow> Inr (jmax minRadius (jmul baseRadius (ringTaper params ring))))"

text \<open>The first loop: the radius of every ring, stopping at the first exception.\<close>

fun ringRadiiLoop :: "anchor list \<Rightarrow> loftParams \<Rightarrow> nat list \<Rightarrow> error + jsnum list" where
  "ringRadiiLoop anchors params [] = Inr []"
| "ringRadiiLoop anchors params (ring # rest) =
     (case ringRadiusAt anchors params ring of
        Inl e \<Rightarrow> Inl e
      | Inr r \<Rightarrow>
          (case ringRadiiLoop anchors params rest of
             Inl e \<Rightarrow> Inl e
           | Inr rs \<Rightarrow> Inr (r # rs)))"

definition radiusSlope :: "jsnum list \<Rightarrow> loftParams \<Rightarrow> nat \<Rightarrow> jsnum" where
  "radiusSlope ringRadii params ring =
     (if 0 < ring \<and> ring < rings params - 1 then
        jdiv (jsub (getN ringRadii (ring + 1)) (getN ringRadii (ring - 1)))
             (jmul (Fin 2) (heightStep params))
      else if ring = 0 \<and> 1 < rings params then
        jdiv (jsub (getN ringRadii 1) (getN ringRadii 0)) (heightStep params)
      else if ring = rings params - 1 \<and> 1 < rings params then
        jdiv (jsub (getN ringRadii ring) (getN ringRadii (ring - 1))) (heightStep params)
      else Fin 0)"

definition ringTheta :: "loftParams \<Rightarrow> nat \<Rightarrow> nat \<Rightarrow> jsnum" where
  "ringTheta params ring seg =
     jadd (jmul (jmul (jdiv (jnat seg) (jnat (segments params))) (Fin pi)) (Fin 2))
          (jmul (jnat ring) (twistStep params))"

definition loftVertex :: "jsnum list \<Rightarrow> loftParams \<Rightarrow> nat \<Rightarrow> nat \<Rightarrow> vec3" where
  "loftVertex ringRadii params ring seg =
     (let theta = ringTheta params ring seg;
          ringRadius = getN ringRadii ring
      in Vec3 (jmul ringRadius (jcos theta)) (ringHeight params ring)
              (jmul ringRadius (jsin theta)))"

definition loftNormal :: "jsnum list \<Rightarrow> loftParams \<Rightarrow> nat \<Rightarrow> nat \<Rightarrow> vec3" where
  "loftNormal ringRadii params ring seg =
     (let theta = ringTheta params ring seg;
          cosTheta = jcos theta;
          sinTheta = jsin theta;
          slope = radiusSlope ringRadii params ring;
          tangentY = Vec3 (jmul (jneg slope) cosTheta) (Fin 1) (jmul (jneg slope) sinTheta)
      in normalize (crossVectors (Vec3 (jneg sinTheta) (Fin 0) cosTheta) tangentY))"

definition loftUV :: "loftParams \<Rightarrow> nat \<Rightarrow> nat \<Rightarrow> vec2" where
  "loftUV params ring seg =
     (let u0 = jdiv (jnat seg) (jnat (segments params));
          v = jdiv (jnat ring) (Fin (real (rings params) - 1));
          rotationRadians = jmul (jdiv (jmul (textureRotation params) (Fin pi)) (Fin 180)) v;
          u1 = jmod (jadd u0 (jdiv rotationRadians (jmul (Fin pi) (Fin 2)))) (Fin 1);
          u = (if jlt u1 (Fin 0) then jadd u1 (Fin 1) else u1)
      in (u, v))"

definition loftIndices :: "loftParams \<Rightarrow> nat list" where
  "loftIndices params =
     concat (map (\<lambda>ring. concat (map (\<lambda>seg.
        (let a = ring * (segments params + 1) + seg;
             b = ring * (segments params + 1) + seg + 1;
             c = (ring + 1) * (segments params + 1) + seg + 1;
             d = (ring + 1) * (segments params + 1) + seg
         in [a, b, c, a, c, d])) [0..<segments params])) [0..<rings params - 1])"

text \<open>
  The second loop pushes, ring by ring and segment by segment (\<open>segments + 1\<close> of
  them), one entry to each of the three arrays.
\<close>

definition gridOf :: "loftParams \<Rightarrow> (nat \<Rightarrow> nat \<Rightarrow> 'a) \<Rightarrow> 'a list" where
  "gridOf params f =
     concat (map (\<lambda>ring. map (\<lambda>seg. f ring seg) [0..<segments params + 1]) [0..<rings params])"

definition createLoftGeometry :: "anchor list \<Rightarrow> loftParams \<Rightarrow> error + geometry" where
  "createLoftGeometry anchors params =
     (case ringRadiiLoop anchors params [0..<rings params] of
        Inl e \<Rightarrow> Inl e
      | Inr ringRadii \<Rightarrow>
          Inr \<lparr> positionAttr = gridOf params (loftVertex ringRadii params),
                normalAttr = gridOf params (loftNormal ringRadii params),
                uvAttr = gridOf params (loftUV params),
                indexAttr = loftIndices params \<rparr>)"

section \<open>Cap welder\<close>

definition getDisplacedRingVertices :: "geometry \<Rightarrow> int \<Rightarrow> nat \<Rightarrow> vec3 list" where
  "getDisplacedRingVertices g ringIndex segs =
     map (\<lambda>seg. getVi (positionAttr g) (ringIndex * (int segs + 1) + int seg)) [0..<segs + 1]"

definition ringCenter :: "vec3 list \<Rightarrow> nat \<Rightarrow> vec3" where
  "ringCenter ringVertices segs =
     (let s = forUpto segs (\<lambda>i c. addV c (getV ringVertices i)) (Vec3 (Fin 0) (Fin 0) (Fin 0))
      in Vec3 (jdiv (vx s) (jnat segs)) (jdiv (vy s) (jnat segs)) (jdiv (vz s) (jnat segs)))"

definition capUV :: "nat \<Rightarrow> nat \<Rightarrow> vec2" where
  "capUV segs seg =
     (let a = jmul (jmul (jdiv (jnat seg) (jnat segs)) (Fin pi)) (Fin 2)
      in (jadd (Fin 0.5) (jmul (Fin 0.5) (jcos a)), jadd (Fin 0.5) (jmul (Fin 0.5) (jsin a))))"

definition capGeometry :: "vec3 list \<Rightarrow> nat \<Rightarrow> bool \<Rightarrow> geometry" where
  "capGeometry ringVertices segs isTop =
     (let n = Vec3 (Fin 0) (if isTop then Fin 1 else Fin (- 1)) (Fin 0)
      in \<lparr> positionAttr =
             ringCenter ringVertices segs # map (\<lambda>seg. getV ringVertices seg) [0..<segs + 1],
           normalAttr = n # map (\<lambda>seg. n) [0..<segs + 1],
           uvAttr = (Fin 0.5, Fin 0.5) # map (capUV segs) [0..<segs + 1],
           indexAttr =
             concat (map (\<lambda>seg. if isTop then [0, seg + 1, seg + 2] else [0, seg + 2, seg + 1])
               [0..<segs]) \<rparr>)"

definition createWeldedCapGeometries :: "geometry \<Rightarrow> loftParams \<Rightarrow> geometry \<times> geometry" where
  "createWeldedCapGeometries cylinderGeometry params =
     (let bottomRingVertices = getDisplacedRingVertices cylinderGeometry 0 (segments params);
          topRingVertices =
            getDisplacedRingVertices cylinderGeometry (int (rings params) - 1) (segments params)
      in (capGeometry bottomRingVertices (segments params) False,
          capGeometry topRingVertices (segments params) True))"

text \<open>
  Geometry objects live in a heap: an address is an index, a new object is put at the
  end, and the objects already there keep their addresses.
\<close>

type_synonym 'g heap = "'g list"

definition alloc :: "'g heap \<Rightarrow> 'g \<Rightarrow> 'g heap \<times> nat" where
  "alloc h g = (h @ [g], length h)"

definition createWeldedCapGeometries_heap ::
    "geometry heap \<Rightarrow> nat \<Rightarrow> loftParams \<Rightarrow> geometry heap \<times> nat \<times> nat" where
  "createWeldedCapGeometries_heap h cylinder params =
     (let caps = createWeldedCapGeometries (h ! cylinder) params;
          (h1, bottomCap) = alloc h (fst caps);
          (h2, topCap) = alloc h1 (snd caps)
      in (h2, bottomCap, topCap))"

section \<open>Mesh repair\<close>

text \<open>\<^verbatim>\<open>Math.atan2\<close>, with the case table of the language standard.\<close>

fun jatan2 :: "jsnum \<Rightarrow> jsnum \<Rightarrow> jsnum" where
  "jatan2 NaN _ = NaN"
| "jatan2 _ NaN = NaN"
| "jatan2 (Fin y) (Fin x) =
     (if 0 < x then Fin (arctan (y / x))
      else if x < 0 then (if 0 \<le> y then Fin (arctan (y / x) + pi) else Fin (arctan (y / x) - pi))
      else if 0 < y then Fin (pi / 2) else if y < 0 then Fin (- pi / 2) else Fin 0)"
| "jatan2 (Fin y) PInf = Fin 0"
| "jatan2 (Fin y) NInf = (if 0 \<le> y then Fin pi else Fin (- pi))"
| "jatan2 PInf (Fin x) = Fin (pi / 2)"
| "jatan2 NInf (Fin x) = Fin (- pi / 2)"
| "jatan2 PInf PInf = Fin (pi / 4)"
| "jatan2 PInf NInf = Fin (3 * pi / 4)"
| "jatan2 NInf PInf = Fin (- pi / 4)"
| "jatan2 NInf NInf = Fin (- 3 * pi / 4)"

definition ensureNormalsPointOutward :: "geometry \<Rightarrow> geometry" where
  "ensureNormalsPointOutward g =
     g\<lparr> normalAttr :=
       forUpto (length (positionAttr g)) (\<lambda>i ns.
         (let x = vx (getV (positionAttr g) i);
              z = vz (getV (positionAttr g) i);
              nx = vx (getV ns i);
              ny = vy (getV ns i);
              nz = vz (getV ns i);
              radialLength = jsqrt (jadd (jmul x x) (jmul z z))
          in if jgt radialLength (Fin 0.001) then
               (let radialX = jdiv x radialLength;
                    radialZ = jdiv z radialLength;
                    dotProduct = jadd (jmul nx radialX) (jmul nz radialZ)
                in if jlt dotProduct (Fin 0) then ns[i := Vec3 (jneg nx) (jneg ny) (jneg nz)]
                   else ns)
             else ns))
         (normalAttr g) \<rparr>"

definition smoothNormalAt :: "vec3 list \<Rightarrow> nat \<Rightarrow> nat \<Rightarrow> nat \<Rightarrow> nat \<Rightarrow> vec3" where
  "smoothNormalAt ps segs nrings ring seg =
     (let vertsPerRing = segs + 1;
          idx = ring * vertsPerRing + seg;
          x = vx (getV ps idx);
          z = vz (getV ps idx);
          slope =
            (if 0 < ring \<and> ring < nrings - 1 then
               (let prev = getV ps ((ring - 1) * vertsPerRing + seg);
                    nxt = getV ps ((ring + 1) * vertsPerRing + seg);
                    radiusPrev = jsqrt (jadd (jmul (vx prev) (vx prev)) (jmul (vz prev) (vz prev)));
                    radiusNext = jsqrt (jadd (jmul (vx nxt) (vx nxt)) (jmul (vz nxt) (vz nxt)))
                in jdiv (jsub radiusNext radiusPrev) (jsub (vy nxt) (vy prev)))
             else Fin 0);
          theta = jatan2 z x;
          cosTheta = jcos theta;
          sinTheta = jsin theta;
          tangentY = Vec3 (jmul (jneg slope) cosTheta) (Fin 1) (jmul (jneg slope) sinTheta);
          tangentTheta = Vec3 (jneg sinTheta) (Fin 0) cosTheta
      in normalize (crossVectors tangentTheta tangentY))"

definition recalculateSmoothNormals :: "geometry \<Rightarrow> nat \<Rightarrow> nat \<Rightarrow> geometry" where
  "recalculateSmoothNormals g segs nrings =
     g\<lparr> normalAttr :=
       forUpto nrings (\<lambda>ring. forUpto (segs + 1) (\<lambda>seg ns.
           ns[ring * (segs + 1) + seg := smoothNormalAt (positionAttr g) segs nrings ring seg]))
         (normalAttr g) \<rparr>"

text \<open>
  One vertex of a smoothing pass, from the positions as they were before the pass.
  The accumulator holds the three sums and the total weight.
\<close>

definition accumulate :: "vec3 \<times> jsnum \<Rightarrow> vec3 \<Rightarrow> jsnum \<Rightarrow> vec3 \<times> jsnum" where
  "accumulate acc p weight =
     (Vec3 (jadd (vx (fst acc)) (jmul (vx p) weight))
           (jadd (vy (fst acc)) (jmul (vy p) weight))
           (jadd (vz (fst acc)) (jmul (vz p) weight)),
      jadd (snd acc) weight)"

definition smoothVertex :: "vec3 list \<Rightarrow> nat \<Rightarrow> nat \<Rightarrow> nat \<Rightarrow> nat \<Rightarrow> vec3" where
  "smoothVertex ps segs nrings ring seg =
     (let vertsPerRing = segs + 1;
          idx = ring * vertsPerRing + seg;
          p = getV ps idx
      in if ring = 0 \<or> ring = nrings - 1 then p
         else
           (let acc0 = accumulate (Vec3 (Fin 0) (Fin 0) (Fin 0), Fin 0) p (Fin 0.4);
                acc1 = foldl (\<lambda>acc ringOffset.
                         if ringOffset = 0 then acc
                         else
                           (let neighborRing = int ring + ringOffset
                            in if 0 \<le> neighborRing \<and> neighborRing < int nrings then
                                 accumulate acc
                                   (getVi ps (neighborRing * int vertsPerRing + int seg))
                                   (jdiv (Fin 0.2) (jabs (Fin (real_of_int ringOffset))))
                               else acc))
                       acc0 [- 2, - 1, 0, 1, 2];
                acc2 = foldl (\<lambda>acc segOffset.
                         if segOffset = 0 then acc
                         else
                           (let neighborSeg0 = int seg + segOffset;
                                neighborSeg1 =
                                  (if neighborSeg0 < 0 then int segs - 1 else neighborSeg0);
                                neighborSeg =
                                  (if int segs < neighborSeg1 then 1 else neighborSeg1)
                            in accumulate acc
                                 (getVi ps (int ring * int vertsPerRing + neighborSeg))
                                 (Fin 0.1)))
                       acc1 [- 1, 0, 1]
            in Vec3 (jdiv (vx (fst acc2)) (snd acc2))
                    (jdiv (vy (fst acc2)) (snd acc2))
                    (jdiv (vz (fst acc2)) (snd acc2))))"

definition smoothPass :: "nat \<Rightarrow> nat \<Rightarrow> vec3 list \<Rightarrow> vec3 list" where
  "smoothPass segs nrings ps =
     forUpto nrings (\<lambda>ring. forUpto (segs + 1) (\<lambda>seg sm.
         sm[ring * (segs + 1) + seg := smoothVertex ps segs nrings ring seg]))
       (replicate (length ps) (Vec3 (Fin 0) (Fin 0) (Fin 0)))"

text \<open>The loop that copies, ring by ring, the first vertex over the last one.\<close>

definition matchSeam :: "nat \<Rightarrow> nat \<Rightarrow> vec3 list \<Rightarrow> vec3 list" where
  "matchSeam segs nrings ps =
     forUpto nrings (\<lambda>ring ps. ps[ring * (segs + 1) + segs := getV ps (ring * (segs + 1))]) ps"

definition smoothDisplacedGeometry :: "geometry \<Rightarrow> nat \<Rightarrow> nat \<Rightarrow> nat \<Rightarrow> geometry" where
  "smoothDisplacedGeometry g segs nrings passes =
     g\<lparr> positionAttr := matchSeam segs nrings ((smoothPass segs nrings ^^ passes) (positionAttr g)) \<rparr>"

section \<open>Displacement engine\<close>

text \<open>
  The decoded image, as the canvas gives it back: \<open>4 * width * height\<close> bytes, four
  per pixel, row by row. \<open>imageData img k\<close> is the byte at index \<open>k\<close>. A texture holds
  an image once it is decoded.
\<close>

record image =
  imageWidth :: nat
  imageHeight :: nat
  imageData :: "nat \<Rightarrow> nat"

datatype texture = Texture (textureImage: "image option")

definition dataAt :: "image \<Rightarrow> jsnum \<Rightarrow> jsnum" where
  "dataAt img k =
     (case k of
        Fin r \<Rightarrow>
          (if 0 \<le> r \<and> is_int r \<and> nat \<lfloor>r\<rfloor> < 4 * imageWidth img * imageHeight img
           then jnat (imageData img (nat \<lfloor>r\<rfloor>)) else NaN)
      | _ \<Rightarrow> NaN)"

definition sampleRed :: "image \<Rightarrow> loftParams \<Rightarrow> jsnum \<Rightarrow> jsnum \<Rightarrow> jsnum" where
  "sampleRed img params u v =
     (let uSample = jmod (jmul u (textureRepeatU params)) (Fin 1);
          vSample = jmod (jmul v (textureRepeatV params)) (Fin 1);
          x = jfloor (jmul uSample (Fin (real (imageWidth img) - 1)));
          y = jfloor (jmul (jsub (Fin 1) vSample) (Fin (real (imageHeight img) - 1)));
          pixelIndex = jmul (jadd (jmul y (jnat (imageWidth img))) x) (Fin 4)
      in jdiv (dataAt img pixelIndex) (Fin 255))"

text \<open>The first pass: the displacement of the first vertex of every ring.\<close>

definition seamDisplacement ::
    "image \<Rightarrow> loftParams \<Rightarrow> vec2 list \<Rightarrow> jsnum \<Rightarrow> jsnum \<Rightarrow> nat \<Rightarrow> jsnum" where
  "seamDisplacement img params uvs scale bias ring =
     (let i = ring * (segments params + 1);
          u = Fin 0;
          v = snd (getUV uvs i);
          displacement = jadd (jmul (sampleRed img params u v) scale) bias;
          falloffMultiplier = calculateDisplacementFalloff v params
      in jmul displacement falloffMultiplier)"

definition seamDisplacements ::
    "image \<Rightarrow> loftParams \<Rightarrow> vec2 list \<Rightarrow> jsnum \<Rightarrow> jsnum \<Rightarrow> nat \<Rightarrow> jsnum list" where
  "seamDisplacements img params uvs scale bias numRings =
     map (seamDisplacement img params uvs scale bias) [0..<numRings]"

text \<open>
  The displacement of vertex \<open>i\<close> before the falloff multiplier of the main loop is
  applied, and after it.
\<close>

definition rawDisplacement ::
    "image \<Rightarrow> loftParams \<Rightarrow> vec2 list \<Rightarrow> jsnum \<Rightarrow> jsnum \<Rightarrow> jsnum list \<Rightarrow> nat \<Rightarrow> jsnum" where
  "rawDisplacement img params uvs scale bias seam i =
     (let vertsPerRing = segments params + 1;
          ringIndex = i div vertsPerRing;
          vertexInRing = i mod vertsPerRing
      in if vertexInRing = 0 then getN seam ringIndex
         else if vertexInRing = segments params then getN seam ringIndex
         else jadd (jmul (sampleRed img params (fst (getUV uvs i)) (snd (getUV uvs i))) scale)
                bias)"

definition vertexDisplacement ::
    "image \<Rightarrow> loftParams \<Rightarrow> vec2 list \<Rightarrow> jsnum \<Rightarrow> jsnum \<Rightarrow> jsnum list \<Rightarrow> nat \<Rightarrow> jsnum" where
  "vertexDisplacement img params uvs scale bias seam i =
     jmul (rawDisplacement img params uvs scale bias seam i)
          (calculateDisplacementFalloff (snd (getUV uvs i)) params)"

text \<open>The offset of a vertex along the chosen normal.\<close>

definition offsetVertex :: "loftParams \<Rightarrow> bool \<Rightarrow> vec3 \<Rightarrow> vec3 \<Rightarrow> jsnum \<Rightarrow> vec3" where
  "offsetVertex params isCapRing current n displacement =
     (if normalType params = Horizontal then
        (let horizontalLength = jsqrt (jadd (jmul (vx n) (vx n)) (jmul (vz n) (vz n)))
         in if jgt horizontalLength (Fin 0.001) then
              (let horizontalNormalX = jdiv (vx n) horizontalLength;
                   horizontalNormalZ = jdiv (vz n) horizontalLength
               in Vec3 (jadd (vx current) (jmul horizontalNormalX displacement))
                       (vy current)
                       (jadd (vz current) (jmul horizontalNormalZ displacement)))
            else current)
      else
        Vec3 (jadd (vx current) (jmul (vx n) displacement))
             (if isCapRing then vy current else jadd (vy current) (jmul (vy n) displacement))
             (jadd (vz current) (jmul (vz n) displacement)))"

text \<open>The clamp of the distance from the axis, as the end of the loop body has it.\<close>

definition clampRadius :: "vec3 \<Rightarrow> vec3" where
  "clampRadius new =
     (let newRadius = jsqrt (jadd (jmul (vx new) (vx new)) (jmul (vz new) (vz new)))
      in if jlt newRadius minRadius then
           (let scaleFactor = jdiv minRadius newRadius
            in Vec3 (jmul (vx new) scaleFactor) (vy new) (jmul (vz new) scaleFactor))
         else new)"

section \<open>Face normals\<close>

definition faceNormalOf :: "vec3 \<Rightarrow> vec3 \<Rightarrow> vec3 \<Rightarrow> vec3" where
  "faceNormalOf vA vB vC =
     (let cb = subVectors vC vB;
          ab = subVectors vA vB;
          faceNormal = normalize (crossVectors cb ab);
          centerX = jdiv (jadd (jadd (vx vA) (vx vB)) (vx vC)) (Fin 3);
          centerZ = jdiv (jadd (jadd (vz vA) (vz vB)) (vz vC)) (Fin 3);
          radialLength = jsqrt (jadd (jmul centerX centerX) (jmul centerZ centerZ))
      in if jgt radialLength (Fin 0.001) then
           (let radialX = jdiv centerX radialLength;
                radialZ = jdiv centerZ radialLength;
                dotProduct = jadd (jmul (vx faceNormal) radialX) (jmul (vz faceNormal) radialZ)
            in if jlt dotProduct (Fin 0) then multiplyScalar faceNormal (Fin (- 1))
               else faceNormal)
         else faceNormal)"

text \<open>
  The loop over the triangles of the index. An index that names no vertex, or an
  incomplete last triangle, makes the lookup in the map fail: the exception is a result.
\<close>

fun faceLoop :: "vec3 list \<Rightarrow> nat list \<Rightarrow> vec3 list \<Rightarrow> error + vec3 list" where
  "faceLoop ps [] acc = Inr acc"
| "faceLoop ps (a # b # c # rest) acc =
     (if a < length acc \<and> b < length acc \<and> c < length acc then
        (let faceNormal = faceNormalOf (getV ps a) (getV ps b) (getV ps c);
             acc1 = acc[a := addV (acc ! a) faceNormal];
             acc2 = acc1[b := addV (acc1 ! b) faceNormal];
             acc3 = acc2[c := addV (acc2 ! c) faceNormal]
         in faceLoop ps rest acc3)
      else Inl TypeError)"
| "faceLoop ps _ acc = Inl TypeError"

definition calculateFaceNormalsForVertices :: "geometry \<Rightarrow> error + vec3 list" where
  "calculateFaceNormalsForVertices g =
     (case faceLoop (positionAttr g) (indexAttr g)
             (replicate (length (positionAttr g)) (Vec3 (Fin 0) (Fin 0) (Fin 0))) of
        Inl e \<Rightarrow> Inl e
      | Inr acc \<Rightarrow> Inr (map normalize acc))"

section \<open>The displacement of a geometry\<close>

definition displaceVertex ::
    "image \<Rightarrow> loftParams \<Rightarrow> geometry \<Rightarrow> vec3 list \<Rightarrow> jsnum \<Rightarrow> jsnum \<Rightarrow> jsnum list \<Rightarrow>
     nat \<Rightarrow> nat \<Rightarrow> vec3 \<Rightarrow> vec3" where
  "displaceVertex img params g normals scale bias seam numRings i current =
     (let ringIndex = i div (segments params + 1);
          displacement = vertexDisplacement img params (uvAttr g) scale bias seam i;
          isCapRing = (ringIndex = 0 \<or> int ringIndex = int numRings - 1)
      in clampRadius (offsetVertex params isCapRing current (getV normals i) displacement))"

definition displaceLoop ::
    "image \<Rightarrow> loftParams \<Rightarrow> geometry \<Rightarrow> vec3 list \<Rightarrow> jsnum \<Rightarrow> jsnum \<Rightarrow> jsnum list \<Rightarrow>
     nat \<Rightarrow> vec3 list \<Rightarrow> vec3 list" where
  "displaceLoop img params g normals scale bias seam numRings ps =
     forUpto (length ps) (\<lambda>i ps.
         ps[i := displaceVertex img params g normals scale bias seam numRings i (getV ps i)])
       ps"

text \<open>
  The positions after the main loop and the final pass over the seam; \<open>normals\<close> are
  the normals the offsets follow (of the vertices or of the faces).
\<close>

definition displacePositions ::
    "image \<Rightarrow> loftParams \<Rightarrow> geometry \<Rightarrow> vec3 list \<Rightarrow> jsnum \<Rightarrow> jsnum \<Rightarrow> vec3 list" where
  "displacePositions img params g normals scale bias =
     (let vertsPerRing = segments params + 1;
          numRings = length (positionAttr g) div vertsPerRing;
          seam = seamDisplacements img params (uvAttr g) scale bias numRings;
          ps1 = displaceLoop img params g normals scale bias seam numRings (positionAttr g)
      in matchSeam (segments params) numRings ps1)"

text \<open>
  The normals of the offsets: the vertex normals, or the face normals when the caller
  asks for them; an exception of the face loop is a result.
\<close>

definition chooseNormals :: "geometry \<Rightarrow> bool \<Rightarrow> error + vec3 list" where
  "chooseNormals g useVertexNormals =
     (if useVertexNormals then Inr (normalAttr g) else calculateFaceNormalsForVertices g)"

text \<open>
  The whole function. Its body is a \<^verbatim>\<open>try\<close> block whose handler only logs, so an
  exception leaves the geometry as it is at that moment; so does a texture whose image is
  not decoded, and an image without pixels, which the canvas refuses.
\<close>

definition applyDisplacementToGeometry ::
    "loftParams \<Rightarrow> geometry \<Rightarrow> texture option \<Rightarrow> jsnum \<Rightarrow> jsnum \<Rightarrow> bool \<Rightarrow> geometry" where
  "applyDisplacementToGeometry params g tex scale bias useVertexNormals =
     (case tex of
        None \<Rightarrow> g
      | Some t \<Rightarrow>
          (let g1 = ensureNormalsPointOutward g
           in case chooseNormals g1 useVertexNormals of
                Inl e \<Rightarrow> g1
              | Inr normals \<Rightarrow>
                  (case textureImage t of
                     None \<Rightarrow> g1
                   | Some img \<Rightarrow>
                       if imageWidth img = 0 \<or> imageHeight img = 0 then g1
                       else
                         (let numRings = length (positionAttr g1) div (segments params + 1);
                              ps2 = displacePositions img params g1 normals scale bias;
                              g2 = recalculateSmoothNormals (g1\<lparr> positionAttr := ps2 \<rparr>)
                                     (segments params) numRings
                          in if jgt (jabs scale) (Fin 0.01) \<and> 0 < smoothingIntensity params then
                               ensureNormalsPointOutward
                                 (recalculateSmoothNormals
                                    (smoothDisplacedGeometry g2 (segments params) numRings
                                       (smoothingIntensity params))
                                    (segments params) numRings)
                             else g2))))"

section \<open>Export transformer\<close>

text \<open>
  A buffer geometry as the export utilities take it: the normal attribute and the index
  may be absent. An object is a mesh, which refers to its geometry by address, or a group
  of objects. Cloning an object copies the tree and shares the geometries, so the clone
  of a value is the value; \<^verbatim>\<open>geometry.clone()\<close> puts a copy of the buffers at a new
  address. The transform of an object (position, rotation, scale) is not modelled.
\<close>

record bufferGeometry =
  bgPosition :: "vec3 list"
  bgNormal :: "vec3 list option"
  bgIndex :: "nat list option"

datatype object3d = Mesh nat | Group "object3d list"

text \<open>
  \<^verbatim>\<open>computeVertexNormals\<close> belongs to the graphics library; it is a parameter here.
\<close>

definition prepareGeometryForSTL ::
    "(bufferGeometry \<Rightarrow> vec3 list) \<Rightarrow> bufferGeometry \<Rightarrow> bufferGeometry \<times> error option" where
  "prepareGeometryForSTL computeVertexNormals g =
     (let g1 = (case bgIndex g of
                  None \<Rightarrow> g\<lparr> bgIndex := Some [0..<length (bgPosition g)] \<rparr>
                | Some ix \<Rightarrow> g);
          g2 = (case bgNormal g1 of
                  None \<Rightarrow> g1\<lparr> bgNormal := Some (computeVertexNormals g1) \<rparr>
                | Some ns \<Rightarrow> g1)
      in if length (bgPosition g2) = 0 then (g2, Some NoVertices) else (g2, None))"

definition processGeometryForExport ::
    "(bufferGeometry \<Rightarrow> vec3 list) \<Rightarrow> bufferGeometry \<Rightarrow> jsnum \<Rightarrow> bool \<Rightarrow>
     bufferGeometry \<times> error option" where
  "processGeometryForExport computeVertexNormals g scale swapYZ =
     (let positions = forUpto (length (bgPosition g)) (\<lambda>i ps.
            (let x = jmul (vx (getV ps i)) scale;
                 y = jmul (vy (getV ps i)) scale;
                 z = jmul (vz (getV ps i)) scale
             in if swapYZ then ps[i := Vec3 x z y] else ps[i := Vec3 x y z]))
            (bgPosition g);
          normals =
            (if swapYZ then
               (case bgNormal g of
                  None \<Rightarrow> None
                | Some ns \<Rightarrow> Some (forUpto (length ns) (\<lambda>i ns.
                    ns[i := Vec3 (vx (getV ns i)) (vz (getV ns i)) (vy (getV ns i))]) ns))
             else bgNormal g)
      in prepareGeometryForSTL computeVertexNormals
           (g\<lparr> bgPosition := positions, bgNormal := normals \<rparr>))"

text \<open>
  \<^verbatim>\<open>createExportClone\<close>: every mesh of the clone gets a copy of its geometry, which is
  then processed in place. An exception of the processing ends the traversal; the heap
  is returned as it is at that moment.
\<close>

fun exportCloneObject ::
    "(bufferGeometry \<Rightarrow> vec3 list) \<Rightarrow> jsnum \<Rightarrow> bool \<Rightarrow> bufferGeometry heap \<Rightarrow> object3d \<Rightarrow>
     bufferGeometry heap \<times> (error + object3d)"
  and exportCloneChildren ::
    "(bufferGeometry \<Rightarrow> vec3 list) \<Rightarrow> jsnum \<Rightarrow> bool \<Rightarrow> bufferGeometry heap \<Rightarrow> object3d list \<Rightarrow>
     bufferGeometry heap \<times> (error + object3d list)" where
  "exportCloneObject cvn scale swapYZ h (Mesh a) =
     (let (h1, a') = alloc h (h ! a);
          (g', err) = processGeometryForExport cvn (h1 ! a') scale swapYZ;
          h2 = h1[a' := g']
      in case err of
           Some e \<Rightarrow> (h2, Inl e)
         | None \<Rightarrow> (h2, Inr (Mesh a')))"
| "exportCloneObject cvn scale swapYZ h (Group children) =
     (case exportCloneChildren cvn scale swapYZ h children of
        (h1, Inl e) \<Rightarrow> (h1, Inl e)
      | (h1, Inr children') \<Rightarrow> (h1, Inr (Group children')))"
| "exportCloneChildren cvn scale swapYZ h [] = (h, Inr [])"
| "exportCloneChildren cvn scale swapYZ h (c # cs) =
     (case exportCloneObject cvn scale swapYZ h c of
        (h1, Inl e) \<Rightarrow> (h1, Inl e)
      | (h1, Inr c') \<Rightarrow>
          (case exportCloneChildren cvn scale swapYZ h1 cs of
             (h2, Inl e) \<Rightarrow> (h2, Inl e)
           | (h2, Inr cs') \<Rightarrow> (h2, Inr (c' # cs'))))"

definition createExportClone ::
    "(bufferGeometry \<Rightarrow> vec3 list) \<Rightarrow> bufferGeometry heap \<Rightarrow> object3d \<Rightarrow> jsnum \<Rightarrow> bool \<Rightarrow>
     bufferGeometry heap \<times> (error + object3d)" where
  "createExportClone cvn h mesh scale swapYZ = exportCloneObject cvn scale swapYZ h mesh"

text \<open>The geometry addresses of an object, in the order of the traversal.\<close>

fun meshesOf :: "object3d \<Rightarrow> nat list" where
  "meshesOf (Mesh a) = [a]"
| "meshesOf (Group children) = concat (map meshesOf children)"

section \<open>Notions of the specification and example inputs\<close>

text \<open>
  The seam of a grid is closed when, in every ring, the last vertex holds the position
  of the first one.
\<close>

definition seamClosed :: "nat \<Rightarrow> nat \<Rightarrow> vec3 list \<Rightarrow> bool" where
  "seamClosed segs nrings ps =
     list_all (\<lambda>ring. getV ps (ring * (segs + 1) + segs) = getV ps (ring * (segs + 1))) [0..<nrings]"

text \<open>A small grid, a parameter set and a decoded image, to run the functions on.\<close>

definition exampleParams :: loftParams where
  "exampleParams =
     \<lparr> rings = 3, segments = 3, radius = Fin 2, height = Fin 5, twist = Fin 0, taper = Fin 1,
       normalType = Vertex, textureRepeatU = Fin 1, textureRepeatV = Fin 1,
       textureRotation = Fin 0, smoothingIntensity = 2, falloffEnabled = True,
       falloffTop = Fin 0.2, falloffBottom = Fin 0.2, falloffPower = Fin 2 \<rparr>"

definition whiteImage :: image where
  "whiteImage = \<lparr> imageWidth = 1, imageHeight = 1, imageData = (\<lambda>k. 255) \<rparr>"

definition exampleGrid :: geometry where
  "exampleGrid =
     \<lparr> positionAttr = gridOf exampleParams (\<lambda>ring seg. Vec3 (Fin 2) (jnat ring) (Fin 0)),
       normalAttr = gridOf exampleParams (\<lambda>ring seg. Vec3 (Fin 1) (Fin 0) (Fin 0)),
       uvAttr = gridOf exampleParams (loftUV exampleParams),
       indexAttr = loftIndices exampleParams \<rparr>"

text \<open>The distance of a position from the axis of revolution.\<close>

definition radialDistance :: "vec3 \<Rightarrow> jsnum" where
  "radialDistance v = jsqrt (jadd (jmul (vx v) (vx v)) (jmul (vz v) (vz v)))"

text \<open>
  A grid of three rings of radius 0.5 with four segments, so that the angles are quarter
  turns, its normals pointing away from the axis; and its parameters.
\<close>

definition thinParams :: loftParams where
  "thinParams =
     \<lparr> rings = 3, segments = 4, radius = Fin (1 / 2), height = Fin 5, twist = Fin 0,
       taper = Fin 1, normalType = Vertex, textureRepeatU = Fin 1, textureRepeatV = Fin 1,
       textureRotation = Fin 0, smoothingIntensity = 5, falloffEnabled = False,
       falloffTop = Fin 0.2, falloffBottom = Fin 0.2, falloffPower = Fin 2 \<rparr>"

definition quarterCos :: "nat \<Rightarrow> real" where
  "quarterCos seg = [1, 0, - 1, 0, 1] ! seg"

definition quarterSin :: "nat \<Rightarrow> real" where
  "quarterSin seg = [0, 1, 0, - 1, 0] ! seg"

definition thinGrid :: geometry where
  "thinGrid =
     \<lparr> positionAttr = gridOf thinParams (\<lambda>ring seg.
         Vec3 (Fin (quarterCos seg / 2)) (Fin (real ring * (5 / 2))) (Fin (quarterSin seg / 2))),
       normalAttr = gridOf thinParams (\<lambda>ring seg.
         Vec3 (Fin (quarterCos seg)) (Fin 0) (Fin (quarterSin seg))),
       uvAttr = gridOf thinParams (\<lambda>ring seg. (Fin (real seg / 4), Fin (real ring / 2))),
       indexAttr = loftIndices thinParams \<rparr>"

text \<open>
  The normal that \<^verbatim>\<open>ensureNormalsPointOutward\<close> leaves at a vertex, from the position
  and the normal it finds there.
\<close>

definition outwardNormal :: "vec3 \<Rightarrow> vec3 \<Rightarrow> vec3" where
  "outwardNormal p n =
     (let radialLength = jsqrt (jadd (jmul (vx p) (vx p)) (jmul (vz p) (vz p)))
      in if jgt radialLength (Fin 0.001)
            \<and> jlt (jadd (jmul (vx n) (jdiv (vx p) radialLength))
                         (jmul (vz n) (jdiv (vz p) radialLength))) (Fin 0)
         then Vec3 (jneg (vx n)) (jneg (vy n)) (jneg (vz n)) else n)"

text \<open>
  The falloff multiplier in the words of the specification: a bottom zone
  \<open>[0, falloffBottom]\<close>, a top zone \<open>[1 - falloffTop, 1]\<close>, the value 1 elsewhere and
  everywhere when the falloff is disabled.
\<close>

definition falloff_reference :: "jsnum \<Rightarrow> loftParams \<Rightarrow> jsnum" where
  "falloff_reference v params =
     (if \<not> falloffEnabled params then Fin 1
      else if jle (Fin 0) v \<and> jle v (falloffBottom params) then
        jpow (jdiv v (falloffBottom params)) (falloffPower params)
      else if jle (jsub (Fin 1) (falloffTop params)) v \<and> jle v (Fin 1) then
        jpow (jdiv (jsub (Fin 1) v) (falloffTop params)) (falloffPower params)
      else Fin 1)"

text \<open>An anchor at a radius and a height, with no handles.\<close>

definition plainAnchor :: "real \<Rightarrow> real \<Rightarrow> anchor" where
  "plainAnchor r y =
     \<lparr> position = Vec3 (Fin r) (Fin y) (Fin 0),
       handleIn = Vec3 (Fin 0) (Fin 0) (Fin 0),
       handleOut = Vec3 (Fin 0) (Fin 0) (Fin 0),
       isSmooth = False \<rparr>"

text \<open>
  The profile of a cylinder of radius 2 and height 5, a profile whose anchors are not in
  the order of their heights, and the parameters of the cylinder scenario.
\<close>

definition cylinderAnchors :: "anchor list" where
  "cylinderAnchors = [plainAnchor 2 0, plainAnchor 2 5]"

definition unsortedAnchors :: "anchor list" where
  "unsortedAnchors = [plainAnchor 3 5, plainAnchor 1 0]"

definition cylinderParams :: loftParams where
  "cylinderParams =
     \<lparr> rings = 10, segments = 16, radius = Fin 2, height = Fin 5, twist = Fin 0, taper = Fin 1,
       normalType = Horizontal, textureRepeatU = Fin 1, textureRepeatV = Fin 1,
       textureRotation = Fin 0, smoothingIntensity = 5, falloffEnabled = True,
       falloffTop = Fin 0.2, falloffBottom = Fin 0.2, falloffPower = Fin 2 \<rparr>"

text \<open>The radius that the profile evaluator returns, where it returns.\<close>

definition radiusAtHeight :: "anchor list \<Rightarrow> loftParams \<Rightarrow> jsnum \<Rightarrow> jsnum" where
  "radiusAtHeight anchors params h =
     (case getRadiusAtHeight anchors params h of Inl e \<Rightarrow> NaN | Inr r \<Rightarrow> r)"

text \<open>
  The export transform of one position and of one normal, in the words of the
  specification: every coordinate times the scale, then y and z swapped if asked; a normal
  is only swapped.
\<close>

definition exportPosition :: "jsnum \<Rightarrow> bool \<Rightarrow> vec3 \<Rightarrow> vec3" where
  "exportPosition scale swapYZ v =
     (if swapYZ then Vec3 (jmul (vx v) scale) (jmul (vz v) scale) (jmul (vy v) scale)
      else Vec3 (jmul (vx v) scale) (jmul (vy v) scale) (jmul (vz v) scale))"

definition exportNormal :: "bool \<Rightarrow> vec3 \<Rightarrow> vec3" where
  "exportNormal swapYZ n = (if swapYZ then Vec3 (vx n) (vz n) (vy n) else n)"

definition exported :: "jsnum \<Rightarrow> bool \<Rightarrow> bufferGeometry \<Rightarrow> bufferGeometry \<Rightarrow> bool" where
  "exported scale swapYZ g g' =
     (bgPosition g' = map (exportPosition scale swapYZ) (bgPosition g)
      \<and> (case bgNormal g of
            None \<Rightarrow> True
          | Some ns \<Rightarrow> bgNormal g' = Some (map (exportNormal swapYZ) ns)))"

text \<open>A geometry of one vertex at (1, 2, 3).\<close>

definition oneVertex :: bufferGeometry where
  "oneVertex =
     \<lparr> bgPosition = [Vec3 (Fin 1) (Fin 2) (Fin 3)],
       bgNormal = Some [Vec3 (Fin 0) (Fin 1) (Fin 0)],
       bgIndex = Some [0] \<rparr>"

text \<open>
  A heap is kept by a later one when every object of the first is, unchanged, at the same
  address of the second. The clones are exported when every address of the second list is
  new and holds the export transform of the geometry at the address of the first list.
\<close>

definition heapKept :: "'g heap \<Rightarrow> 'g heap \<Rightarrow> bool" where
  "heapKept h h' = (length h \<le> length h' \<and> (\<forall>a<length h. h' ! a = h ! a))"

definition clonesExported ::
    "jsnum \<Rightarrow> bool \<Rightarrow> bufferGeometry heap \<Rightarrow> bufferGeometry heap \<Rightarrow> nat list \<Rightarrow> nat list \<Rightarrow> bool" where
  "clonesExported scale swapYZ h h' as as' =
     list_all2 (\<lambda>a a'. length h \<le> a' \<and> a' < length h' \<and> exported scale swapYZ (h ! a) (h' ! a'))
       as as'"

text \<open>The red channel of the pixel in column \<open>x\<close> and row \<open>y\<close> of the image.\<close>

definition redChannel :: "image \<Rightarrow> nat \<Rightarrow> nat \<Rightarrow> nat" where
  "redChannel img x y = imageData img (4 * (y * imageWidth img + x))"

text \<open>
  An image of five pixels in a row whose second pixel is white and the others black,
  and parameters with a texture rotation of 90 degrees and no falloff.
\<close>

definition stripeImage :: image where
  "stripeImage = \<lparr> imageWidth = 5, imageHeight = 1, imageData = (\<lambda>k. if k = 4 then 255 else 0) \<rparr>"

definition rotatedParams :: loftParams where
  "rotatedParams = exampleParams\<lparr> textureRotation := Fin 90, falloffEnabled := False \<rparr>"

text \<open>
  The example parameters with 11 rings, so that ring 1 is at the normalized height 0.1,
  inside the bottom falloff zone.
\<close>

definition elevenParams :: loftParams where
  "elevenParams = exampleParams\<lparr> rings := 11 \<rparr>"


section \<open>Counted loops that write one entry per round\<close>

lemma forUpto_0: "forUpto 0 body s = s"
  by (simp add: forUpto_def)

lemma forUpto_Suc: "forUpto (Suc n) body s = body n (forUpto n body s)"
  by (simp add: forUpto_def)

lemma getV_nth: "i < length ps \<Longrightarrow> getV ps i = ps ! i"
  by (simp add: getV_def)

lemma forUpto_update_length:
  "length (forUpto n (\<lambda>i xs. xs[k i := F i xs]) xs) = length xs"
  by (induction n) (simp_all add: forUpto_0 forUpto_Suc)

lemma forUpto_pointwise_nth:
  "j < length xs \<Longrightarrow>
   forUpto n (\<lambda>i xs. xs[i := F i (getV xs i)]) xs ! j = (if j < n then F j (xs ! j) else xs ! j)"
proof (induction n)
  case 0
  then show ?case by (simp add: forUpto_0)
next
  case (Suc n)
  let ?r = "forUpto n (\<lambda>i xs. xs[i := F i (getV xs i)]) xs"
  have len: "length ?r = length xs" by (rule forUpto_update_length)
  show ?case
  proof (cases "j = n")
    case True
    with Suc len show ?thesis by (simp add: forUpto_Suc getV_nth)
  next
    case False
    with Suc len show ?thesis by (auto simp add: forUpto_Suc)
  qed
qed

lemma forUpto_row_nth:
  "j < length sm \<Longrightarrow>
   forUpto n (\<lambda>seg sm. sm[base + seg := f seg]) sm ! j =
     (if base \<le> j \<and> j < base + n then f (j - base) else sm ! j)"
proof (induction n)
  case 0
  then show ?case by (auto simp add: forUpto_0)
next
  case (Suc n)
  let ?r = "forUpto n (\<lambda>seg sm. sm[base + seg := f seg]) sm"
  have len: "length ?r = length sm" by (rule forUpto_update_length)
  show ?case
  proof (cases "j = base + n")
    case True
    with Suc len show ?thesis by (simp add: forUpto_Suc)
  next
    case False
    with Suc len show ?thesis by (auto simp add: forUpto_Suc)
  qed
qed

lemma forUpto_grid_length:
  "length (forUpto m (\<lambda>ring. forUpto w (\<lambda>seg sm. sm[ring * w + seg := f ring seg])) sm) = length sm"
  by (induction m) (simp_all add: forUpto_0 forUpto_Suc forUpto_update_length)

lemma grid_index_step:
  fixes j w m :: nat
  assumes "0 < w"
  shows "(m * w \<le> j \<and> j < m * w + w) = (j div w = m)"
proof
  assume a: "m * w \<le> j \<and> j < m * w + w"
  then have "j div w = m"
    by (metis assms add.commute div_nat_eqI mult.commute mult_Suc_right)
  then show "j div w = m" .
next
  assume "j div w = m"
  then show "m * w \<le> j \<and> j < m * w + w" using assms
    by (metis add.commute div_mult_mod_eq dividend_less_times_div le_add1 mult.commute mod_less_divisor nat_add_left_cancel_less)
qed

lemma forUpto_grid_nth:
  assumes "j < length sm" "0 < w"
  shows "forUpto m (\<lambda>ring. forUpto w (\<lambda>seg sm. sm[ring * w + seg := f ring seg])) sm ! j =
     (if j < m * w then f (j div w) (j mod w) else sm ! j)"
  using assms
proof (induction m)
  case 0
  then show ?case by (simp add: forUpto_0)
next
  case (Suc m)
  let ?r = "forUpto m (\<lambda>ring. forUpto w (\<lambda>seg sm. sm[ring * w + seg := f ring seg])) sm"
  have len: "length ?r = length sm" by (rule forUpto_grid_length)
  have step: "forUpto (Suc m) (\<lambda>ring. forUpto w (\<lambda>seg sm. sm[ring * w + seg := f ring seg])) sm ! j
     = (if m * w \<le> j \<and> j < m * w + w then f m (j - m * w) else ?r ! j)"
    using Suc.prems len by (simp add: forUpto_Suc forUpto_row_nth)
  show ?case
  proof (cases "j div w = m")
    case True
    then have in_row: "m * w \<le> j \<and> j < m * w + w" using grid_index_step[OF \<open>0 < w\<close>] by blast
    have "j - m * w = j mod w" using True
      by (metis add_diff_cancel_left' div_mult_mod_eq mult.commute)
    with in_row step True show ?thesis by simp
  next
    case False
    then have out: "\<not> (m * w \<le> j \<and> j < m * w + w)" using grid_index_step[OF \<open>0 < w\<close>] by blast
    have "(j < Suc m * w) = (j < m * w)" using out by auto
    with out step Suc show ?thesis by simp
  qed
qed

section \<open>The seam pass\<close>

lemma seamClosed_iff:
  "seamClosed segs n ps = (\<forall>ring<n. getV ps (ring * (segs + 1) + segs) = getV ps (ring * (segs + 1)))"
  by (auto simp add: seamClosed_def list_all_iff)

lemma matchSeam_length: "length (matchSeam segs n ps) = length ps"
  unfolding matchSeam_def by (rule forUpto_update_length)

lemma seam_index_step:
  fixes j w n :: nat
  assumes "segs < w"
  shows "(j < Suc n * w \<and> j mod w = segs) = ((j < n * w \<and> j mod w = segs) \<or> j = n * w + segs)"
proof -
  have w: "0 < w" using assms by simp
  show ?thesis
  proof (cases "j div w = n")
    case True
    then have row: "n * w \<le> j \<and> j < n * w + w" using grid_index_step[OF w] by blast
    have jm: "j = n * w + j mod w" using True
      by (metis div_mult_mod_eq mult.commute)
    from row jm show ?thesis by auto
  next
    case False
    then have out: "\<not> (n * w \<le> j \<and> j < n * w + w)" using grid_index_step[OF w] by blast
    have "j \<noteq> n * w + segs" using out assms by auto
    moreover have "(j < Suc n * w) = (j < n * w)" using out by auto
    ultimately show ?thesis by simp
  qed
qed

lemma matchSeam_nth:
  assumes "n * (segs + 1) \<le> length ps" "j < length ps"
  shows "matchSeam segs n ps ! j =
     (if j < n * (segs + 1) \<and> j mod (segs + 1) = segs then ps ! (j - segs) else ps ! j)"
  using assms
proof (induction n arbitrary: j)
  case 0
  then show ?case by (simp add: matchSeam_def forUpto_0)
next
  case (Suc n)
  let ?r = "matchSeam segs n ps"
  have len: "length ?r = length ps" by (rule matchSeam_length)
  have bound: "n * (segs + 1) \<le> length ps" using Suc.prems by simp
  have first_in: "n * (segs + 1) < length ps" using Suc.prems by simp
  have last_in: "n * (segs + 1) + segs < length ps" using Suc.prems by simp
  have IH: "\<And>k. k < length ps \<Longrightarrow> ?r ! k =
     (if k < n * (segs + 1) \<and> k mod (segs + 1) = segs then ps ! (k - segs) else ps ! k)"
    using Suc.IH bound by simp
  have first: "getV ?r (n * (segs + 1)) = ps ! (n * (segs + 1))"
    using IH[OF first_in] first_in len by (simp add: getV_nth)
  have unfold: "matchSeam segs (Suc n) ps = ?r[n * (segs + 1) + segs := getV ?r (n * (segs + 1))]"
    by (simp add: matchSeam_def forUpto_Suc)
  have idx: "(j < Suc n * (segs + 1) \<and> j mod (segs + 1) = segs)
      = ((j < n * (segs + 1) \<and> j mod (segs + 1) = segs) \<or> j = n * (segs + 1) + segs)"
    by (rule seam_index_step) simp
  show ?case
  proof (cases "j = n * (segs + 1) + segs")
    case True
    then have "matchSeam segs (Suc n) ps ! j = ps ! (n * (segs + 1))"
      using unfold first last_in len by simp
    moreover have "j - segs = n * (segs + 1)" using True by simp
    ultimately show ?thesis using idx True by simp
  next
    case False
    then have "matchSeam segs (Suc n) ps ! j = ?r ! j" using unfold by simp
    then show ?thesis using IH[OF Suc.prems(2)] idx False by simp
  qed
qed

lemma seam_mod: "(ring * (segs + 1) + segs) mod (segs + 1) = segs" for ring segs :: nat
  by (simp only: mod_mult_self3) simp

lemma first_mod: "(ring * (segs + 1)) mod (segs + 1) = 0" for ring segs :: nat
  by (simp only: mod_mult_self2_is_0)

lemma matchSeam_closed:
  assumes "n * (segs + 1) \<le> length ps"
  shows "seamClosed segs n (matchSeam segs n ps)"
proof -
  {
    fix ring assume r: "ring < n"
    have "Suc ring * (segs + 1) \<le> n * (segs + 1)" using r by (intro mult_le_mono1) simp
    then have last_in: "ring * (segs + 1) + segs < length ps" using assms by simp
    then have first_in: "ring * (segs + 1) < length ps" by simp
    have lastn: "ring * (segs + 1) + segs < n * (segs + 1)" using \<open>Suc ring * (segs + 1) \<le> n * (segs + 1)\<close> by simp
    have a: "matchSeam segs n ps ! (ring * (segs + 1) + segs) = ps ! (ring * (segs + 1))"
      using matchSeam_nth[OF assms last_in] lastn seam_mod[of ring segs] by simp
    have b: "matchSeam segs n ps ! (ring * (segs + 1)) = ps ! (ring * (segs + 1))"
    proof (cases "segs = 0")
      case True
      then show ?thesis using a by simp
    next
      case False
      then have "(ring * (segs + 1)) mod (segs + 1) \<noteq> segs" using first_mod[of ring segs] by simp
      then show ?thesis using matchSeam_nth[OF assms first_in] by simp
    qed
    have "getV (matchSeam segs n ps) (ring * (segs + 1) + segs) = getV (matchSeam segs n ps) (ring * (segs + 1))"
      using a b last_in first_in by (simp add: getV_def matchSeam_length)
  }
  then show ?thesis by (simp add: seamClosed_iff)
qed

section \<open>A smoothing pass\<close>

lemma getVi_int: "getVi ps (int k) = getV ps k"
  by (simp add: getVi_def getV_def)

lemma smoothPass_length: "length (smoothPass segs n ps) = length ps"
  unfolding smoothPass_def by (simp only: forUpto_grid_length length_replicate)

lemma smoothPass_nth:
  assumes "j < length ps"
  shows "smoothPass segs n ps ! j =
     (if j < n * (segs + 1) then smoothVertex ps segs n (j div (segs + 1)) (j mod (segs + 1))
      else Vec3 (Fin 0) (Fin 0) (Fin 0))"
  unfolding smoothPass_def using assms
  by (subst forUpto_grid_nth) simp_all

lemma seam_neighbor:
  assumes "seamClosed segs n ps" "0 \<le> r" "r < int n"
  shows "getVi ps (r * int (segs + 1) + int segs) = getVi ps (r * int (segs + 1))"
proof -
  obtain k where k: "r = int k" using assms(2) by (metis nonneg_int_cases)
  then have "k < n" using assms(3) by simp
  then have "getV ps (k * (segs + 1) + segs) = getV ps (k * (segs + 1))"
    using assms(1) by (simp add: seamClosed_iff)
  moreover have "r * int (segs + 1) + int segs = int (k * (segs + 1) + segs)" using k by (simp add: algebra_simps)
  moreover have "r * int (segs + 1) = int (k * (segs + 1))" using k by (simp add: algebra_simps)
  ultimately show ?thesis by (simp only: getVi_int)
qed

lemma smoothVertex_seam:
  assumes "seamClosed segs n ps" "ring < n"
  shows "smoothVertex ps segs n ring segs = smoothVertex ps segs n ring 0"
proof -
  have own: "getV ps (ring * (segs + 1) + segs) = getV ps (ring * (segs + 1))"
    using assms by (simp add: seamClosed_iff)
  have nb: "\<And>d. 0 \<le> int ring + d \<Longrightarrow> int ring + d < int n \<Longrightarrow>
      getVi ps ((int ring + d) * int (segs + 1) + int segs) = getVi ps ((int ring + d) * int (segs + 1))"
    using seam_neighbor[OF assms(1)] by blast
  show ?thesis
    unfolding smoothVertex_def Let_def
    using own nb[of "-2"] nb[of "-1"] nb[of 1] nb[of 2]
    by (simp del: of_nat_add of_nat_mult of_nat_Suc)
qed

lemma smoothVertex_cap:
  assumes "ring = 0 \<or> ring = n - 1"
  shows "smoothVertex ps segs n ring seg = getV ps (ring * (segs + 1) + seg)"
  using assms by (auto simp add: smoothVertex_def Let_def)

section \<open>Positions through the displacement\<close>

lemma ensureNormalsPointOutward_position: "positionAttr (ensureNormalsPointOutward g) = positionAttr g"
  by (simp add: ensureNormalsPointOutward_def)

lemma ensureNormalsPointOutward_uv: "uvAttr (ensureNormalsPointOutward g) = uvAttr g"
  by (simp add: ensureNormalsPointOutward_def)

lemma recalculateSmoothNormals_position: "positionAttr (recalculateSmoothNormals g segs n) = positionAttr g"
  by (simp add: recalculateSmoothNormals_def)

lemma smoothDisplacedGeometry_position:
  "positionAttr (smoothDisplacedGeometry g segs n k) = matchSeam segs n ((smoothPass segs n ^^ k) (positionAttr g))"
  by (simp add: smoothDisplacedGeometry_def)

lemma displaceLoop_length: "length (displaceLoop img params g normals scale bias seam nr ps) = length ps"
  unfolding displaceLoop_def by (rule forUpto_update_length)

lemma displaceLoop_nth:
  "j < length ps \<Longrightarrow>
   displaceLoop img params g normals scale bias seam nr ps ! j =
     displaceVertex img params g normals scale bias seam nr j (ps ! j)"
  unfolding displaceLoop_def by (subst forUpto_pointwise_nth) simp_all

lemma displacePositions_length:
  "length (displacePositions img params g normals scale bias) = length (positionAttr g)"
  by (simp add: displacePositions_def Let_def matchSeam_length displaceLoop_length)

lemma rings_fit: "(n div w) * w \<le> n" for n w :: nat
  by simp

lemma displacePositions_closed:
  "seamClosed (segments params) (length (positionAttr g) div (segments params + 1))
     (displacePositions img params g normals scale bias)"
  unfolding displacePositions_def Let_def
  by (rule matchSeam_closed) (simp only: displaceLoop_length rings_fit)

lemma smoothPass_closed:
  assumes "seamClosed segs n ps" "n * (segs + 1) \<le> length ps"
  shows "seamClosed segs n (smoothPass segs n ps)"
proof -
  {
    fix ring assume r: "ring < n"
    have "Suc ring * (segs + 1) \<le> n * (segs + 1)" using r by (intro mult_le_mono1) simp
    then have lastn: "ring * (segs + 1) + segs < n * (segs + 1)" by simp
    then have last_in: "ring * (segs + 1) + segs < length ps" using assms(2) by simp
    then have first_in: "ring * (segs + 1) < length ps" by simp
    have firstn: "ring * (segs + 1) < n * (segs + 1)" using lastn by simp
    have d1: "(ring * (segs + 1) + segs) div (segs + 1) = ring"
      by (simp only: div_mult_self3) simp
    have d0: "(ring * (segs + 1)) div (segs + 1) = ring" by (rule div_mult_self_is_m) simp
    have a: "smoothPass segs n ps ! (ring * (segs + 1) + segs) = smoothVertex ps segs n ring segs"
      using smoothPass_nth[OF last_in, of segs n] lastn d1 seam_mod[of ring segs] by simp
    have b: "smoothPass segs n ps ! (ring * (segs + 1)) = smoothVertex ps segs n ring 0"
      using smoothPass_nth[OF first_in, of segs n] firstn d0 first_mod[of ring segs] by simp
    have "getV (smoothPass segs n ps) (ring * (segs + 1) + segs) = getV (smoothPass segs n ps) (ring * (segs + 1))"
      using a b last_in first_in smoothVertex_seam[OF assms(1) r]
      by (simp add: getV_def smoothPass_length)
  }
  then show ?thesis by (simp add: seamClosed_iff)
qed

lemma smoothPass_funpow_length: "length ((smoothPass segs n ^^ k) ps) = length ps"
  by (induction k) (simp_all add: smoothPass_length)

lemma smoothPass_funpow_closed:
  assumes "seamClosed segs n ps" "n * (segs + 1) \<le> length ps"
  shows "seamClosed segs n ((smoothPass segs n ^^ k) ps)"
proof (induction k)
  case 0
  show ?case using assms(1) by simp
next
  case (Suc k)
  have "n * (segs + 1) \<le> length ((smoothPass segs n ^^ k) ps)"
    using assms(2) by (simp add: smoothPass_funpow_length)
  with Suc show ?case by (simp add: smoothPass_closed)
qed

lemma apply_positions:
  "positionAttr (applyDisplacementToGeometry params g tex scale bias uvn) =
     (case tex of
        None \<Rightarrow> positionAttr g
      | Some t \<Rightarrow>
         (case chooseNormals (ensureNormalsPointOutward g) uvn of
            Inl e \<Rightarrow> positionAttr g
          | Inr normals \<Rightarrow>
             (case textureImage t of
                None \<Rightarrow> positionAttr g
              | Some img \<Rightarrow>
                  if imageWidth img = 0 \<or> imageHeight img = 0 then positionAttr g
                  else if jgt (jabs scale) (Fin 0.01) \<and> 0 < smoothingIntensity params then
                    matchSeam (segments params) (length (positionAttr g) div (segments params + 1))
                      ((smoothPass (segments params) (length (positionAttr g) div (segments params + 1))
                          ^^ smoothingIntensity params)
                        (displacePositions img params (ensureNormalsPointOutward g) normals scale bias))
                  else displacePositions img params (ensureNormalsPointOutward g) normals scale bias)))"
  by (auto simp add: applyDisplacementToGeometry_def Let_def ensureNormalsPointOutward_position
      recalculateSmoothNormals_position smoothDisplacedGeometry_position
      split: option.splits sum.splits)

section \<open>Seam closure\<close>

lemma gridOf_length: "length (gridOf params f) = rings params * (segments params + 1)"
  by (simp add: gridOf_def length_concat comp_def sum_list_triv)

lemma raw_seam:
  assumes "ring < nr"
  shows "rawDisplacement img params uvs scale bias seam (ring * (segments params + 1) + segments params) = getN seam ring"
    and "rawDisplacement img params uvs scale bias seam (ring * (segments params + 1)) = getN seam ring"
proof -
  have d1: "(ring * (segments params + 1) + segments params) div (segments params + 1) = ring"
    by (simp only: div_mult_self3) simp
  have d0: "(ring * (segments params + 1)) div (segments params + 1) = ring"
    by (rule div_mult_self_is_m) simp
  show "rawDisplacement img params uvs scale bias seam (ring * (segments params + 1) + segments params) = getN seam ring"
    unfolding rawDisplacement_def Let_def
    by (simp only: d1 seam_mod if_True refl split: if_split) simp
  show "rawDisplacement img params uvs scale bias seam (ring * (segments params + 1)) = getN seam ring"
    unfolding rawDisplacement_def Let_def
    by (simp only: d0 first_mod if_True refl)
qed

text \<open>
  Claim C1. When the displacement runs (the texture holds a decoded image and the normals
  are found), the seam of every ring is closed in the displaced grid, stays closed after
  every single smoothing pass on it, and is closed in the geometry that
  \<^verbatim>\<open>applyDisplacementToGeometry\<close> leaves. The displacement of the last vertex of a ring
  is the entry of the seam table that the first vertex uses; it is not sampled again.
\<close>

theorem seam_closure:
  assumes "0 < imageWidth img" "0 < imageHeight img"
    and "chooseNormals (ensureNormalsPointOutward g) useVertexNormals = Inr normals"
    and "nr = length (positionAttr g) div (segments params + 1)"
    and "ps2 = displacePositions img params (ensureNormalsPointOutward g) normals scale bias"
  shows "seamClosed (segments params) nr ps2
       \<and> (\<forall>k. seamClosed (segments params) nr ((smoothPass (segments params) nr ^^ k) ps2))
       \<and> seamClosed (segments params) nr
           (positionAttr (applyDisplacementToGeometry params g (Some (Texture (Some img)))
              scale bias useVertexNormals))
       \<and> (\<forall>ring<nr. \<forall>seam.
             rawDisplacement img params (uvAttr g) scale bias seam
                 (ring * (segments params + 1) + segments params) = getN seam ring
           \<and> rawDisplacement img params (uvAttr g) scale bias seam
                 (ring * (segments params + 1)) = getN seam ring)"
proof -
  let ?g1 = "ensureNormalsPointOutward g"
  have nr1: "nr = length (positionAttr ?g1) div (segments params + 1)"
    using assms(4) by (simp add: ensureNormalsPointOutward_position)
  have closed: "seamClosed (segments params) nr ps2"
    unfolding assms(5) nr1 by (rule displacePositions_closed)
  have len: "length ps2 = length (positionAttr g)"
    unfolding assms(5) by (simp add: displacePositions_length ensureNormalsPointOutward_position)
  have fit: "nr * (segments params + 1) \<le> length ps2"
    unfolding len assms(4) by (rule rings_fit)
  have passes: "\<And>k. seamClosed (segments params) nr ((smoothPass (segments params) nr ^^ k) ps2)"
    by (rule smoothPass_funpow_closed[OF closed fit])
  have fitk: "\<And>k. nr * (segments params + 1) \<le> length ((smoothPass (segments params) nr ^^ k) ps2)"
    using fit by (simp add: smoothPass_funpow_length)
  have final: "seamClosed (segments params) nr
      (positionAttr (applyDisplacementToGeometry params g (Some (Texture (Some img)))
         scale bias useVertexNormals))"
    using assms(1,2,3) closed matchSeam_closed[OF fitk] unfolding assms(4)
    by (simp add: apply_positions assms(5)[symmetric])
  show ?thesis using closed passes final raw_seam[of _ nr] by (intro conjI allI impI) assumption+
qed

theorem seam_closure_witness:
  "seamClosed 3 3
     (positionAttr (applyDisplacementToGeometry exampleParams exampleGrid
        (Some (Texture (Some whiteImage))) (Fin 1) (Fin 0) True))"
proof -
  have s: "segments exampleParams = 3" by (simp add: exampleParams_def)
  have n: "length (positionAttr exampleGrid) div (segments exampleParams + 1) = 3"
    by (simp add: exampleGrid_def gridOf_length) (simp add: exampleParams_def)
  have i: "0 < imageWidth whiteImage" "0 < imageHeight whiteImage"
    by (simp_all add: whiteImage_def)
  have c: "chooseNormals (ensureNormalsPointOutward exampleGrid) True
      = Inr (normalAttr (ensureNormalsPointOutward exampleGrid))"
    by (simp add: chooseNormals_def)
  show ?thesis
    using seam_closure[OF i c n[symmetric] refl, of "Fin 1" "Fin 0"] by (simp only: s)
qed

section \<open>Flat caps\<close>

lemma vy_clampRadius: "vy (clampRadius v) = vy v"
  by (simp add: clampRadius_def Let_def)

lemma vy_offsetVertex_cap: "vy (offsetVertex params True current n d) = vy current"
  by (simp add: offsetVertex_def Let_def)

lemma vy_offsetVertex_horizontal:
  "normalType params = Horizontal \<Longrightarrow> vy (offsetVertex params b current n d) = vy current"
  by (simp add: offsetVertex_def Let_def)

lemma vy_displaceVertex_cap:
  assumes "i div (segments params + 1) = 0 \<or> int (i div (segments params + 1)) = int nr - 1"
  shows "vy (displaceVertex img params g normals scale bias seam nr i current) = vy current"
  using assms unfolding displaceVertex_def Let_def
  by (auto simp add: vy_clampRadius vy_offsetVertex_cap)

lemma smoothPass_cap_nth:
  assumes "j < n * (segs + 1)" "j < length ps"
    and "j div (segs + 1) = 0 \<or> j div (segs + 1) = n - 1"
  shows "smoothPass segs n ps ! j = ps ! j"
proof -
  have "(j div (segs + 1)) * (segs + 1) + j mod (segs + 1) = j" by (rule div_mult_mod_eq)
  then have "smoothVertex ps segs n (j div (segs + 1)) (j mod (segs + 1)) = getV ps j"
    using smoothVertex_cap[OF assms(3), of ps segs "j mod (segs + 1)"] by simp
  then show ?thesis using smoothPass_nth[OF assms(2), of segs n] assms(1,2)
    by (simp add: getV_nth)
qed

lemma smoothPass_funpow_cap_nth:
  assumes "j < n * (segs + 1)" "j < length ps"
    and "j div (segs + 1) = 0 \<or> j div (segs + 1) = n - 1"
  shows "(smoothPass segs n ^^ k) ps ! j = ps ! j"
proof (induction k)
  case 0
  show ?case by simp
next
  case (Suc k)
  have "j < length ((smoothPass segs n ^^ k) ps)" using assms(2) by (simp add: smoothPass_funpow_length)
  then show ?case using Suc smoothPass_cap_nth[OF assms(1) _ assms(3)] by simp
qed

text \<open>Within a ring: the indices of a ring, and the first index of the ring of a last index.\<close>

lemma ring_first_index:
  fixes j segs :: nat
  assumes "j mod (segs + 1) = segs"
  shows "j - segs = (j div (segs + 1)) * (segs + 1)"
proof -
  have "(j div (segs + 1)) * (segs + 1) + j mod (segs + 1) = j" by (rule div_mult_mod_eq)
  then show ?thesis using assms by linarith
qed

lemma ring_first_div:
  fixes j segs :: nat
  assumes "j mod (segs + 1) = segs"
  shows "(j - segs) div (segs + 1) = j div (segs + 1)"
  unfolding ring_first_index[OF assms] by (rule div_mult_self_is_m) simp

lemma displacePositions_cap_height:
  assumes "nr = length (positionAttr g) div (segments params + 1)"
    and "j < nr * (segments params + 1)"
    and "j div (segments params + 1) = 0 \<or> j div (segments params + 1) = nr - 1"
    and "vy (positionAttr g ! ((j div (segments params + 1)) * (segments params + 1) + segments params))
       = vy (positionAttr g ! ((j div (segments params + 1)) * (segments params + 1)))"
  shows "vy (displacePositions img params g normals scale bias ! j) = vy (positionAttr g ! j)"
proof -
  let ?w = "segments params + 1"
  let ?ps = "positionAttr g"
  let ?seam = "seamDisplacements img params (uvAttr g) scale bias nr"
  let ?ps1 = "displaceLoop img params g normals scale bias ?seam nr ?ps"
  have fit: "nr * ?w \<le> length ?ps" unfolding assms(1) by (rule rings_fit)
  have jl: "j < length ?ps" using assms(2) fit by simp
  have nr_pos: "0 < nr" using assms(2) by (cases nr) simp_all
  have capint: "\<And>k. k div ?w = 0 \<or> k div ?w = nr - 1 \<Longrightarrow> k div ?w = 0 \<or> int (k div ?w) = int nr - 1"
    using nr_pos by auto
  have ps1_y: "\<And>k. k < length ?ps \<Longrightarrow> k div ?w = 0 \<or> k div ?w = nr - 1 \<Longrightarrow> vy (?ps1 ! k) = vy (?ps ! k)"
    using capint by (simp add: displaceLoop_nth vy_displaceVertex_cap del: of_nat_add)
  have dp: "displacePositions img params g normals scale bias = matchSeam (segments params) nr ?ps1"
    by (simp add: displacePositions_def Let_def assms(1))
  have fit1: "nr * ?w \<le> length ?ps1" using fit by (simp add: displaceLoop_length)
  have jl1: "j < length ?ps1" using jl by (simp add: displaceLoop_length)
  show ?thesis
  proof (cases "j mod ?w = segments params")
    case True
    have first: "j - segments params = (j div ?w) * ?w" by (rule ring_first_index[OF True])
    have fl: "j - segments params < length ?ps" using jl by simp
    have fdiv: "(j - segments params) div ?w = j div ?w" by (rule ring_first_div[OF True])
    have jeq: "(j div ?w) * ?w + segments params = j" using True
      by (metis div_mult_mod_eq mult.commute)
    have "matchSeam (segments params) nr ?ps1 ! j = ?ps1 ! (j - segments params)"
      using matchSeam_nth[OF fit1 jl1] True assms(2) by simp
    also have "vy (?ps1 ! (j - segments params)) = vy (?ps ! (j - segments params))"
      using ps1_y[OF fl] fdiv assms(3) by simp
    also have "\<dots> = vy (?ps ! j)" using assms(4) first jeq by simp
    finally show ?thesis using dp by simp
  next
    case False
    have "matchSeam (segments params) nr ?ps1 ! j = ?ps1 ! j"
      using matchSeam_nth[OF fit1 jl1] False by simp
    then show ?thesis using dp ps1_y[OF jl assms(3)] by simp
  qed
qed

lemma grid_concat_length:
  "length (concat (map (\<lambda>r. map (f r) [0..<w]) [0..<n])) = n * w"
  by (induction n) simp_all

lemma grid_concat_nth:
  assumes "ring < n" "seg < w"
  shows "concat (map (\<lambda>r. map (f r) [0..<w]) [0..<n]) ! (ring * w + seg) = f ring seg"
  using assms
proof (induction n)
  case 0
  then show ?case by simp
next
  case (Suc n)
  show ?case
  proof (cases "ring < n")
    case True
    then have "Suc ring * w \<le> n * w" by (intro mult_le_mono1) simp
    then have "ring * w + seg < n * w" using Suc.prems(2) by simp
    then show ?thesis using Suc True by (simp add: nth_append grid_concat_length)
  next
    case False
    then have "ring = n" using Suc.prems(1) by simp
    then show ?thesis using Suc.prems(2) by (simp add: nth_append grid_concat_length)
  qed
qed

lemma gridOf_nth:
  assumes "ring < rings params" "seg \<le> segments params"
  shows "gridOf params f ! (ring * (segments params + 1) + seg) = f ring seg"
  unfolding gridOf_def using assms by (intro grid_concat_nth) simp_all

lemma smoothed_cap_nth:
  assumes "nr * (segs + 1) \<le> length ps2" "j < nr * (segs + 1)"
    and "j div (segs + 1) = 0 \<or> j div (segs + 1) = nr - 1"
  shows "matchSeam segs nr ((smoothPass segs nr ^^ k) ps2) ! j =
     (if j mod (segs + 1) = segs then ps2 ! (j - segs) else ps2 ! j)"
proof -
  let ?x = "(smoothPass segs nr ^^ k) ps2"
  have lx: "length ?x = length ps2" by (rule smoothPass_funpow_length)
  have jl: "j < length ps2" using assms(1,2) by simp
  have m: "matchSeam segs nr ?x ! j =
     (if j < nr * (segs + 1) \<and> j mod (segs + 1) = segs then ?x ! (j - segs) else ?x ! j)"
    by (rule matchSeam_nth) (use assms(1) jl lx in simp_all)
  have keep: "?x ! j = ps2 ! j"
    by (rule smoothPass_funpow_cap_nth[OF assms(2) jl assms(3)])
  show ?thesis
  proof (cases "j mod (segs + 1) = segs")
    case True
    have fdiv: "(j - segs) div (segs + 1) = j div (segs + 1)" by (rule ring_first_div[OF True])
    have "?x ! (j - segs) = ps2 ! (j - segs)"
      by (rule smoothPass_funpow_cap_nth) (use assms jl fdiv in simp_all)
    then show ?thesis using m True assms(2) by simp
  next
    case False
    then show ?thesis using m keep by simp
  qed
qed

text \<open>
  Claim C8. A vertex of the first or of the last ring keeps its height through
  \<^verbatim>\<open>applyDisplacementToGeometry\<close>, whatever the normal mode, the texture and the
  smoothing are. The grid is one whose first and last vertex of that ring are at the same
  height, as every grid of the builder is.
\<close>

theorem cap_rings_keep_height:
  assumes "nr = length (positionAttr g) div (segments params + 1)"
    and "i < nr * (segments params + 1)"
    and "i div (segments params + 1) = 0 \<or> i div (segments params + 1) = nr - 1"
    and "vy (positionAttr g ! ((i div (segments params + 1)) * (segments params + 1) + segments params))
       = vy (positionAttr g ! ((i div (segments params + 1)) * (segments params + 1)))"
  shows "vy (positionAttr (applyDisplacementToGeometry params g tex scale bias useVertexNormals) ! i)
       = vy (positionAttr g ! i)"
proof -
  let ?w = "segments params + 1"
  let ?g1 = "ensureNormalsPointOutward g"
  have p1: "positionAttr ?g1 = positionAttr g" by (rule ensureNormalsPointOutward_position)
  have disp: "\<And>img normals j. j < nr * ?w \<Longrightarrow> j div ?w = i div ?w \<Longrightarrow>
      vy (displacePositions img params ?g1 normals scale bias ! j) = vy (positionAttr g ! j)"
  proof -
    fix img normals j
    assume j: "j < nr * ?w" and r: "j div ?w = i div ?w"
    have "vy (displacePositions img params ?g1 normals scale bias ! j) = vy (positionAttr ?g1 ! j)"
      by (rule displacePositions_cap_height[where nr = nr]) (use assms j r p1 in simp_all)
    then show "vy (displacePositions img params ?g1 normals scale bias ! j) = vy (positionAttr g ! j)"
      using p1 by simp
  qed
  have smooth: "\<And>img normals k.
      vy (matchSeam (segments params) nr ((smoothPass (segments params) nr ^^ k)
            (displacePositions img params ?g1 normals scale bias)) ! i) = vy (positionAttr g ! i)"
  proof -
    fix img normals k
    let ?ps2 = "displacePositions img params ?g1 normals scale bias"
    have l2: "length ?ps2 = length (positionAttr g)" by (simp add: displacePositions_length p1)
    have fit: "nr * ?w \<le> length ?ps2" unfolding l2 assms(1) by (rule rings_fit)
    have m: "matchSeam (segments params) nr ((smoothPass (segments params) nr ^^ k) ?ps2) ! i =
       (if i mod ?w = segments params then ?ps2 ! (i - segments params) else ?ps2 ! i)"
      by (rule smoothed_cap_nth[OF fit assms(2) assms(3)])
    show "vy (matchSeam (segments params) nr ((smoothPass (segments params) nr ^^ k) ?ps2) ! i)
        = vy (positionAttr g ! i)"
    proof (cases "i mod ?w = segments params")
      case True
      have first: "i - segments params = (i div ?w) * ?w" by (rule ring_first_index[OF True])
      have fdiv: "(i - segments params) div ?w = i div ?w" by (rule ring_first_div[OF True])
      have ieq: "(i div ?w) * ?w + segments params = i" using True
        by (metis div_mult_mod_eq)
      have "vy (?ps2 ! (i - segments params)) = vy (positionAttr g ! (i - segments params))"
        by (rule disp) (use assms(2) fdiv in simp_all)
      also have "\<dots> = vy (positionAttr g ! i)" using assms(4) first ieq by simp
      finally show ?thesis using m True by simp
    next
      case False
      then show ?thesis using m disp[OF assms(2) refl] by simp
    qed
  qed
  show ?thesis
    unfolding apply_positions assms(1)[symmetric]
    using disp[OF assms(2) refl] smooth
    by (simp split: option.splits sum.splits)
qed

theorem cap_rings_keep_height_witness:
  "vy (positionAttr (applyDisplacementToGeometry exampleParams exampleGrid
        (Some (Texture (Some whiteImage))) (Fin 1) (Fin 0) True) ! 11)
   = vy (positionAttr exampleGrid ! 11) \<and> vy (positionAttr exampleGrid ! 11) = Fin 2"
proof -
  have s: "segments exampleParams = 3" by (simp add: exampleParams_def)
  have r: "rings exampleParams = 3" by (simp add: exampleParams_def)
  have n: "3 = length (positionAttr exampleGrid) div (segments exampleParams + 1)"
    by (simp add: exampleGrid_def gridOf_length) (simp add: exampleParams_def)
  have v: "\<And>ring seg. ring < 3 \<Longrightarrow> seg \<le> 3 \<Longrightarrow>
      positionAttr exampleGrid ! (ring * 4 + seg) = Vec3 (Fin 2) (jnat ring) (Fin 0)"
    using gridOf_nth[of _ exampleParams] by (simp add: exampleGrid_def s r)
  have v11: "positionAttr exampleGrid ! 11 = Vec3 (Fin 2) (Fin 2) (Fin 0)" using v[of 2 3] by simp
  have v8: "positionAttr exampleGrid ! 8 = Vec3 (Fin 2) (Fin 2) (Fin 0)" using v[of 2 0] by simp
  have h: "vy (positionAttr exampleGrid ! ((11 div (segments exampleParams + 1)) * (segments exampleParams + 1) + segments exampleParams))
       = vy (positionAttr exampleGrid ! ((11 div (segments exampleParams + 1)) * (segments exampleParams + 1)))"
    by (simp add: s v11 v8)
  show ?thesis
    using cap_rings_keep_height[OF n _ _ h, of "Some (Texture (Some whiteImage))" "Fin 1" "Fin 0" True]
    by (simp add: s v11)
qed

section \<open>The clamp of the radius\<close>

lemma radial_nonneg: "0 \<le> a * a + b * b" for a b :: real
  by simp

lemma radial_pos:
  fixes a b :: real
  assumes "a \<noteq> 0 \<or> b \<noteq> 0"
  shows "0 < sqrt (a * a + b * b)"
proof -
  have "0 < a * a + b * b" using assms
    by (metis add_pos_nonneg add_nonneg_pos mult.commute not_real_square_gt_zero zero_le_square)
  then show ?thesis by simp
qed

lemma radial_scaled:
  fixes a b s :: real
  assumes "0 \<le> s"
  shows "sqrt ((a * s) * (a * s) + (b * s) * (b * s)) = sqrt (a * a + b * b) * s"
proof -
  have "(a * s) * (a * s) + (b * s) * (b * s) = (a * a + b * b) * (s * s)"
    by (simp add: algebra_simps)
  then show ?thesis using assms by (simp add: real_sqrt_mult)
qed

lemma radialDistance_Fin:
  "radialDistance (Vec3 (Fin p) y (Fin q)) = Fin (sqrt (p * p + q * q))"
  by (simp add: radialDistance_def)

lemma clampRadius_rescale:
  fixes a b :: real
  assumes "a \<noteq> 0 \<or> b \<noteq> 0" "sqrt (a * a + b * b) < 1 / 10"
  shows "clampRadius (Vec3 (Fin a) y (Fin b)) =
     Vec3 (Fin (a * ((1 / 10) / sqrt (a * a + b * b)))) y
          (Fin (b * ((1 / 10) / sqrt (a * a + b * b))))"
  using assms radial_pos[OF assms(1)]
  by (simp add: clampRadius_def minRadius_def Let_def)

lemma clampRadius_keep:
  fixes a b :: real
  assumes "1 / 10 \<le> sqrt (a * a + b * b)"
  shows "clampRadius (Vec3 (Fin a) y (Fin b)) = Vec3 (Fin a) y (Fin b)"
  using assms by (simp add: clampRadius_def minRadius_def Let_def)

lemma clampRadius_axis: "clampRadius (Vec3 (Fin 0) y (Fin 0)) = Vec3 NaN y NaN"
  by (simp add: clampRadius_def minRadius_def Let_def)

text \<open>
  Claim C10. The clamp divides by the new radius without a test. Where the displaced
  vertex is off the axis and nearer to it than the minimum radius, the result is finite,
  at the minimum radius exactly, at the same height. Where the displaced vertex is on the
  axis, the factor is infinite and the two horizontal coordinates that are written are
  NaN, so the distance of the result from the axis is NaN too.
\<close>

theorem clamp_division_unguarded:
  fixes a b :: real
  shows "((a \<noteq> 0 \<or> b \<noteq> 0) \<and> sqrt (a * a + b * b) < 1 / 10 \<longrightarrow>
           (\<exists>a' b'. clampRadius (Vec3 (Fin a) y (Fin b)) = Vec3 (Fin a') y (Fin b')
              \<and> radialDistance (clampRadius (Vec3 (Fin a) y (Fin b))) = minRadius))
       \<and> clampRadius (Vec3 (Fin 0) y (Fin 0)) = Vec3 NaN y NaN
       \<and> radialDistance (clampRadius (Vec3 (Fin 0) y (Fin 0))) = NaN"
proof -
  {
    assume nz: "a \<noteq> 0 \<or> b \<noteq> 0" and near: "sqrt (a * a + b * b) < 1 / 10"
    let ?r = "sqrt (a * a + b * b)"
    let ?s = "(1 / 10) / ?r"
    have pos: "0 < ?r" by (rule radial_pos[OF nz])
    have s0: "0 \<le> ?s" using pos by simp
    have c: "clampRadius (Vec3 (Fin a) y (Fin b)) = Vec3 (Fin (a * ?s)) y (Fin (b * ?s))"
      by (rule clampRadius_rescale[OF nz near])
    have "sqrt ((a * ?s) * (a * ?s) + (b * ?s) * (b * ?s)) = ?r * ?s"
      by (rule radial_scaled[OF s0])
    also have "\<dots> = 1 / 10" using pos nz by auto
    finally have "radialDistance (Vec3 (Fin (a * ?s)) y (Fin (b * ?s))) = minRadius"
      by (simp only: radialDistance_Fin minRadius_def)
    with c have "\<exists>a' b'. clampRadius (Vec3 (Fin a) y (Fin b)) = Vec3 (Fin a') y (Fin b')
              \<and> radialDistance (clampRadius (Vec3 (Fin a) y (Fin b))) = minRadius"
      by simp
  }
  moreover have "radialDistance (clampRadius (Vec3 (Fin 0) y (Fin 0))) = NaN"
    by (simp add: clampRadius_axis radialDistance_def)
  ultimately show ?thesis using clampRadius_axis by blast
qed

lemma sqrt_example: "sqrt ((3 / 100) * (3 / 100) + (4 / 100) * (4 / 100)) = (5 / 100 :: real)"
proof -
  have "(3 / 100) * (3 / 100) + (4 / 100) * (4 / 100) = (5 / 100 :: real)\<^sup>2"
    by (simp add: power2_eq_square)
  then show ?thesis by (simp only: real_sqrt_abs)
qed

theorem clamp_division_unguarded_witness:
  "sqrt ((3 / 100) * (3 / 100) + (4 / 100) * (4 / 100)) < (1 / 10 :: real)
   \<and> radialDistance (clampRadius (Vec3 (Fin (3 / 100)) (Fin 1) (Fin (4 / 100)))) = minRadius
   \<and> clampRadius (Vec3 (Fin (3 / 100)) (Fin 1) (Fin (4 / 100)))
       = Vec3 (Fin (6 / 100)) (Fin 1) (Fin (8 / 100))"
proof -
  have near: "sqrt ((3 / 100) * (3 / 100) + (4 / 100) * (4 / 100)) < (1 / 10 :: real)"
    by (simp only: sqrt_example)
  have nz: "(3 / 100 :: real) \<noteq> 0 \<or> (4 / 100 :: real) \<noteq> 0" by simp
  have twice: "clampRadius (Vec3 (Fin (3 / 100)) (Fin 1) (Fin (4 / 100)))
       = Vec3 (Fin (6 / 100)) (Fin 1) (Fin (8 / 100))"
    by (simp only: clampRadius_rescale[OF nz near] sqrt_example) simp
  show ?thesis
    using clamp_division_unguarded[of "3 / 100" "4 / 100" "Fin 1"] near nz twice by blast
qed

lemma update_getV: "ns[i := getV ns i] = ns"
  by (cases "i < length ns") (simp_all add: getV_def list_update_beyond)

lemma ensureNormalsPointOutward_alt:
  "ensureNormalsPointOutward g =
     g\<lparr> normalAttr := forUpto (length (positionAttr g))
           (\<lambda>i ns. ns[i := outwardNormal (getV (positionAttr g) i) (getV ns i)]) (normalAttr g) \<rparr>"
proof -
  have "(\<lambda>i ns.
         (let x = vx (getV (positionAttr g) i);
              z = vz (getV (positionAttr g) i);
              nx = vx (getV ns i);
              ny = vy (getV ns i);
              nz = vz (getV ns i);
              radialLength = jsqrt (jadd (jmul x x) (jmul z z))
          in if jgt radialLength (Fin 0.001) then
               (let radialX = jdiv x radialLength;
                    radialZ = jdiv z radialLength;
                    dotProduct = jadd (jmul nx radialX) (jmul nz radialZ)
                in if jlt dotProduct (Fin 0) then ns[i := Vec3 (jneg nx) (jneg ny) (jneg nz)]
                   else ns)
             else ns))
      = (\<lambda>i ns. ns[i := outwardNormal (getV (positionAttr g) i) (getV ns i)])"
    by (intro ext) (simp add: outwardNormal_def Let_def update_getV)
  then show ?thesis by (simp add: ensureNormalsPointOutward_def)
qed

lemma ensureNormalsPointOutward_normal_length:
  "length (normalAttr (ensureNormalsPointOutward g)) = length (normalAttr g)"
  by (simp add: ensureNormalsPointOutward_alt forUpto_update_length)

lemma ensureNormalsPointOutward_normal_nth:
  assumes "j < length (normalAttr g)" "j < length (positionAttr g)"
  shows "normalAttr (ensureNormalsPointOutward g) ! j
       = outwardNormal (positionAttr g ! j) (normalAttr g ! j)"
  using assms
    forUpto_pointwise_nth[of j "normalAttr g" "length (positionAttr g)"
      "\<lambda>i n. outwardNormal (getV (positionAttr g) i) n"]
  by (simp add: ensureNormalsPointOutward_alt getV_nth)

lemma thin_segments: "segments thinParams = 4" by (simp add: thinParams_def)

lemma thin_rings: "rings thinParams = 3" by (simp add: thinParams_def)

lemma thin_length:
  "length (positionAttr thinGrid) = 15" "length (normalAttr thinGrid) = 15"
  "length (uvAttr thinGrid) = 15"
  by (simp_all add: thinGrid_def gridOf_length thin_segments thin_rings)

lemma thin_vertex6:
  "positionAttr thinGrid ! 6 = Vec3 (Fin 0) (Fin (5 / 2)) (Fin (1 / 2))"
  "normalAttr thinGrid ! 6 = Vec3 (Fin 0) (Fin 0) (Fin 1)"
  "uvAttr thinGrid ! 6 = (Fin (1 / 4), Fin (1 / 2))"
proof -
  have g: "gridOf thinParams f ! 6 = f 1 1" for f :: "nat \<Rightarrow> nat \<Rightarrow> 'a"
    using gridOf_nth[of 1 thinParams 1 f] by (simp add: thin_segments thin_rings)
  show "positionAttr thinGrid ! 6 = Vec3 (Fin 0) (Fin (5 / 2)) (Fin (1 / 2))"
    "normalAttr thinGrid ! 6 = Vec3 (Fin 0) (Fin 0) (Fin 1)"
    "uvAttr thinGrid ! 6 = (Fin (1 / 4), Fin (1 / 2))"
    by (simp_all add: thinGrid_def g quarterCos_def quarterSin_def)
qed

lemma sqrt_quarter: "sqrt (1 / 4) = (1 / 2 :: real)"
  by (simp add: real_sqrt_divide)

lemma thin_normal6:
  "getV (normalAttr (ensureNormalsPointOutward thinGrid)) 6 = Vec3 (Fin 0) (Fin 0) (Fin 1)"
  by (simp add: getV_def ensureNormalsPointOutward_normal_length
      ensureNormalsPointOutward_normal_nth thin_length thin_vertex6 outwardNormal_def
      Let_def jgt_def sqrt_quarter)

lemma white_sample: "sampleRed whiteImage thinParams (Fin (1 / 4)) (Fin (1 / 2)) = Fin 1"
  by (simp add: sampleRed_def whiteImage_def thinParams_def Let_def rtrunc_def jsub_def
      dataAt_def is_int_def)

lemma thin_displacement6:
  "vertexDisplacement whiteImage thinParams (uvAttr thinGrid) (Fin 0) (Fin (- (1 / 2))) seam 6
     = Fin (- (1 / 2))"
proof -
  have f: "calculateDisplacementFalloff v thinParams = Fin 1" for v
    by (simp add: calculateDisplacementFalloff_def thinParams_def)
  show ?thesis
    by (simp add: vertexDisplacement_def rawDisplacement_def Let_def thin_segments getUV_def
        thin_length thin_vertex6 white_sample f)
qed

lemma thin_displaced6:
  "displaceVertex whiteImage thinParams (ensureNormalsPointOutward thinGrid)
      (normalAttr (ensureNormalsPointOutward thinGrid)) (Fin 0) (Fin (- (1 / 2))) seam 3 6
      (Vec3 (Fin 0) (Fin (5 / 2)) (Fin (1 / 2)))
   = Vec3 NaN (Fin (5 / 2)) NaN"
  by (simp add: displaceVertex_def Let_def ensureNormalsPointOutward_uv thin_displacement6
      thin_normal6 thin_segments offsetVertex_def thinParams_def[THEN arg_cong, of normalType]
      clampRadius_axis)

text \<open>
  Claim C3, at an input where the code breaks it. A grid of three rings of radius 0.5, the
  normals pointing away from the axis, is displaced by \<open>- 0.5\<close> (scale 0, bias \<open>- 0.5\<close>,
  no falloff, vertex normals). The vertex 6 (ring 1, segment 1) lands on the axis; the
  clamp divides by its radius 0, and the position that is written has NaN for x and z, so
  its distance from the axis is not at least the minimum radius.
\<close>

theorem min_radius_lost_on_axis:
  "positionAttr (applyDisplacementToGeometry thinParams thinGrid
       (Some (Texture (Some whiteImage))) (Fin 0) (Fin (- (1 / 2))) True) ! 6
     = Vec3 NaN (Fin (5 / 2)) NaN
   \<and> \<not> jge (radialDistance (positionAttr (applyDisplacementToGeometry thinParams thinGrid
       (Some (Texture (Some whiteImage))) (Fin 0) (Fin (- (1 / 2))) True) ! 6)) minRadius"
proof -
  let ?g1 = "ensureNormalsPointOutward thinGrid"
  let ?ns = "normalAttr ?g1"
  let ?seam = "seamDisplacements whiteImage thinParams (uvAttr ?g1) (Fin 0) (Fin (- (1 / 2))) 3"
  let ?ps1 = "displaceLoop whiteImage thinParams ?g1 ?ns (Fin 0) (Fin (- (1 / 2))) ?seam 3
                (positionAttr ?g1)"
  have p1: "positionAttr ?g1 = positionAttr thinGrid" by (rule ensureNormalsPointOutward_position)
  have l1: "length ?ps1 = 15" by (simp add: displaceLoop_length p1 thin_length)
  have a: "positionAttr (applyDisplacementToGeometry thinParams thinGrid
       (Some (Texture (Some whiteImage))) (Fin 0) (Fin (- (1 / 2))) True)
     = displacePositions whiteImage thinParams ?g1 ?ns (Fin 0) (Fin (- (1 / 2)))"
    by (simp add: apply_positions chooseNormals_def whiteImage_def jgt_def)
  have d: "displacePositions whiteImage thinParams ?g1 ?ns (Fin 0) (Fin (- (1 / 2)))
     = matchSeam 4 3 ?ps1"
    by (simp add: displacePositions_def Let_def thin_segments p1 thin_length)
  have m: "matchSeam 4 3 ?ps1 ! 6 = ?ps1 ! 6"
    using matchSeam_nth[of 3 4 ?ps1 6] by (simp add: l1)
  have v: "?ps1 ! 6 = Vec3 NaN (Fin (5 / 2)) NaN"
    by (simp add: displaceLoop_nth p1 thin_length thin_vertex6 thin_displaced6)
  have pos: "positionAttr (applyDisplacementToGeometry thinParams thinGrid
       (Some (Texture (Some whiteImage))) (Fin 0) (Fin (- (1 / 2))) True) ! 6
     = Vec3 NaN (Fin (5 / 2)) NaN"
    by (simp only: a d m v)
  show ?thesis
    by (simp only: pos) (simp add: radialDistance_def jge_def jle_def minRadius_def)
qed

section \<open>The falloff multiplier\<close>

lemma falloff_bottom:
  assumes "falloffEnabled ps" "falloffBottom ps = Fin b" "falloffPower ps = Fin p"
    "0 < b" "0 < p" "0 \<le> x" "x < b"
  shows "calculateDisplacementFalloff (Fin x) ps = Fin ((x / b) powr p)"
  using assms by (simp add: calculateDisplacementFalloff_def)

lemma falloff_top:
  assumes "falloffEnabled ps" "falloffBottom ps = Fin b" "falloffTop ps = Fin t"
    "falloffPower ps = Fin p" "0 < t" "0 < p" "b \<le> x" "1 - t < x" "x \<le> 1"
  shows "calculateDisplacementFalloff (Fin x) ps = Fin (((1 - x) / t) powr p)"
  using assms by (simp add: calculateDisplacementFalloff_def jgt_def jsub_def)

lemma falloff_middle:
  assumes "falloffEnabled ps" "falloffBottom ps = Fin b" "falloffTop ps = Fin t"
    "b \<le> x" "x \<le> 1 - t"
  shows "calculateDisplacementFalloff (Fin x) ps = Fin 1"
  using assms by (simp add: calculateDisplacementFalloff_def jgt_def jsub_def)

lemma falloff_disabled:
  "\<not> falloffEnabled ps \<Longrightarrow> calculateDisplacementFalloff v ps = Fin 1"
  by (simp add: calculateDisplacementFalloff_def)

lemma falloff_matches_reference:
  assumes "falloffBottom ps = Fin b" "falloffTop ps = Fin t" "falloffPower ps = Fin p"
    "0 < b" "0 < t" "b + t \<le> 1" "0 < p" "0 \<le> v" "v \<le> 1"
  shows "calculateDisplacementFalloff (Fin v) ps = falloff_reference (Fin v) ps"
proof (cases "falloffEnabled ps")
  case False
  then show ?thesis by (simp add: falloff_disabled falloff_reference_def)
next
  case en: True
  consider "v < b" | "v = b" | "b < v" "v < 1 - t" | "v = 1 - t" "b < v" | "1 - t < v"
    using assms(6) by linarith
  then show ?thesis
  proof cases
    case 1
    have "calculateDisplacementFalloff (Fin v) ps = Fin ((v / b) powr p)"
      using falloff_bottom[OF en assms(1,3,4,7,8) 1] .
    then show ?thesis using 1 assms en
      by (simp add: falloff_reference_def jle_def)
  next
    case 2
    have "b \<le> 1 - t" using assms(6) by linarith
    then have "calculateDisplacementFalloff (Fin b) ps = Fin 1"
      using falloff_middle[OF en assms(1,2), of b] by simp
    then show ?thesis using 2 assms en
      by (simp add: falloff_reference_def jle_def)
  next
    case 3
    have "calculateDisplacementFalloff (Fin v) ps = Fin 1"
      using falloff_middle[OF en assms(1,2), of v] 3 by simp
    then show ?thesis using 3 assms en
      by (simp add: falloff_reference_def jle_def jsub_def)
  next
    case 4
    have "calculateDisplacementFalloff (Fin (1 - t)) ps = Fin 1"
      using falloff_middle[OF en assms(1,2), of "1 - t"] 4 by simp
    then show ?thesis using 4 assms en
      by (simp add: falloff_reference_def jle_def jsub_def)
  next
    case 5
    then have bv: "b \<le> v" using assms(6) by linarith
    have "calculateDisplacementFalloff (Fin v) ps = Fin (((1 - v) / t) powr p)"
      using falloff_top[OF en assms(1,2,3,5,7) bv 5 assms(9)] .
    then show ?thesis using 5 bv assms en
      by (auto simp add: falloff_reference_def jle_def jsub_def)
  qed
qed

lemma falloff_value_bottom:
  assumes "falloffEnabled ps" "falloffBottom ps = Fin b" "falloffTop ps = Fin t"
    "falloffPower ps = Fin p" "0 < b" "b + t \<le> 1" "0 < p" "0 \<le> x" "x \<le> b"
  shows "calculateDisplacementFalloff (Fin x) ps = Fin ((x / b) powr p)"
proof (cases "x < b")
  case True
  then show ?thesis using assms by (simp add: falloff_bottom[of ps b p x])
next
  case False
  then have xb: "x = b" using assms by simp
  have "b \<le> 1 - t" using assms(6) by linarith
  then have "calculateDisplacementFalloff (Fin b) ps = Fin 1"
    using falloff_middle[OF assms(1,2,3), of b] by simp
  then show ?thesis using xb assms(5) by simp
qed

lemma falloff_value_top:
  assumes "falloffEnabled ps" "falloffBottom ps = Fin b" "falloffTop ps = Fin t"
    "falloffPower ps = Fin p" "0 < t" "b + t \<le> 1" "0 < p" "1 - t \<le> x" "x \<le> 1"
  shows "calculateDisplacementFalloff (Fin x) ps = Fin (((1 - x) / t) powr p)"
proof (cases "1 - t < x")
  case True
  then show ?thesis using assms by (simp add: falloff_top[of ps b t p x])
next
  case False
  then have xt: "x = 1 - t" using assms by simp
  have "b \<le> 1 - t" using assms(6) by linarith
  then have "calculateDisplacementFalloff (Fin (1 - t)) ps = Fin 1"
    using falloff_middle[OF assms(1,2,3), of "1 - t"] by simp
  then show ?thesis using xt assms(5) by simp
qed

text \<open>
  Claim C4, amended. With both zones of positive size, not overlapping, a positive power
  and a normalized height in \<open>[0, 1]\<close>, the multiplier of the code is the piecewise
  reference function; it is 1 at \<open>v = falloffBottom\<close> and 0 at \<open>v = 0\<close>; it does not
  decrease along the bottom zone and does not increase along the top zone; and in the
  scenario with both zones 0.2, power 2, scale 1, bias 0 and sample 1 at \<open>v = 0.9\<close> the
  displacement is 0.25. Disabled, the multiplier is 1 everywhere.
\<close>

theorem falloff_multiplier:
  assumes "falloffEnabled ps" "falloffBottom ps = Fin b" "falloffTop ps = Fin t"
    "falloffPower ps = Fin p" "0 < b" "0 < t" "b + t \<le> 1" "0 < p"
  shows "(\<forall>v. 0 \<le> v \<and> v \<le> 1 \<longrightarrow>
            calculateDisplacementFalloff (Fin v) ps = falloff_reference (Fin v) ps)
       \<and> calculateDisplacementFalloff (Fin b) ps = Fin 1
       \<and> calculateDisplacementFalloff (Fin 0) ps = Fin 0
       \<and> (\<forall>x y. 0 \<le> x \<and> x \<le> y \<and> y \<le> b \<longrightarrow>
            jle (calculateDisplacementFalloff (Fin x) ps) (calculateDisplacementFalloff (Fin y) ps))
       \<and> (\<forall>x y. 1 - t \<le> x \<and> x \<le> y \<and> y \<le> 1 \<longrightarrow>
            jle (calculateDisplacementFalloff (Fin y) ps) (calculateDisplacementFalloff (Fin x) ps))
       \<and> (b = 1 / 5 \<and> t = 1 / 5 \<and> p = 2 \<longrightarrow>
            jmul (jadd (jmul (Fin 1) (Fin 1)) (Fin 0)) (calculateDisplacementFalloff (Fin (9 / 10)) ps)
              = Fin (1 / 4))
       \<and> (\<forall>v. calculateDisplacementFalloff v (ps\<lparr> falloffEnabled := False \<rparr>) = Fin 1)"
proof -
  have ref: "\<forall>v. 0 \<le> v \<and> v \<le> 1 \<longrightarrow>
      calculateDisplacementFalloff (Fin v) ps = falloff_reference (Fin v) ps"
    using falloff_matches_reference[OF assms(2,3,4,5,6,7,8)] by blast
  have atb: "calculateDisplacementFalloff (Fin b) ps = Fin 1"
    using falloff_middle[OF assms(1,2,3), of b] assms(7) by simp
  have at0: "calculateDisplacementFalloff (Fin 0) ps = Fin 0"
    using falloff_bottom[OF assms(1,2,4,5,8), of 0] assms(5) by simp
  have up: "\<forall>x y. 0 \<le> x \<and> x \<le> y \<and> y \<le> b \<longrightarrow>
      jle (calculateDisplacementFalloff (Fin x) ps) (calculateDisplacementFalloff (Fin y) ps)"
  proof (intro allI impI)
    fix x y :: real
    assume h: "0 \<le> x \<and> x \<le> y \<and> y \<le> b"
    have vx: "calculateDisplacementFalloff (Fin x) ps = Fin ((x / b) powr p)"
      by (rule falloff_value_bottom[OF assms(1,2,3,4,5,7,8)]) (use h in simp_all)
    have vy: "calculateDisplacementFalloff (Fin y) ps = Fin ((y / b) powr p)"
      by (rule falloff_value_bottom[OF assms(1,2,3,4,5,7,8)]) (use h in simp_all)
    have "x / b \<le> y / b" using h assms(5) by (simp add: divide_right_mono)
    moreover have "0 \<le> x / b" using h assms(5) by simp
    ultimately have "(x / b) powr p \<le> (y / b) powr p"
      using assms(8) by (intro powr_mono2) simp_all
    then show "jle (calculateDisplacementFalloff (Fin x) ps) (calculateDisplacementFalloff (Fin y) ps)"
      by (auto simp add: vx vy jle_def)
  qed
  have down: "\<forall>x y. 1 - t \<le> x \<and> x \<le> y \<and> y \<le> 1 \<longrightarrow>
      jle (calculateDisplacementFalloff (Fin y) ps) (calculateDisplacementFalloff (Fin x) ps)"
  proof (intro allI impI)
    fix x y :: real
    assume h: "1 - t \<le> x \<and> x \<le> y \<and> y \<le> 1"
    have vx: "calculateDisplacementFalloff (Fin x) ps = Fin (((1 - x) / t) powr p)"
      by (rule falloff_value_top[OF assms(1,2,3,4,6,7,8)]) (use h in simp_all)
    have vy: "calculateDisplacementFalloff (Fin y) ps = Fin (((1 - y) / t) powr p)"
      by (rule falloff_value_top[OF assms(1,2,3,4,6,7,8)]) (use h in simp_all)
    have "(1 - y) / t \<le> (1 - x) / t" using h assms(6) by (simp add: divide_right_mono)
    moreover have "0 \<le> (1 - y) / t" using h assms(6) by simp
    ultimately have "((1 - y) / t) powr p \<le> ((1 - x) / t) powr p"
      using assms(8) by (intro powr_mono2) simp_all
    then show "jle (calculateDisplacementFalloff (Fin y) ps) (calculateDisplacementFalloff (Fin x) ps)"
      by (auto simp add: vx vy jle_def)
  qed
  have scen: "b = 1 / 5 \<and> t = 1 / 5 \<and> p = 2 \<longrightarrow>
      jmul (jadd (jmul (Fin 1) (Fin 1)) (Fin 0)) (calculateDisplacementFalloff (Fin (9 / 10)) ps)
        = Fin (1 / 4)"
  proof
    assume e: "b = 1 / 5 \<and> t = 1 / 5 \<and> p = 2"
    have "calculateDisplacementFalloff (Fin (9 / 10)) ps = Fin (((1 - 9 / 10) / t) powr p)"
      by (rule falloff_value_top[OF assms(1,2,3,4,6,7,8)]) (use e in simp_all)
    also have "\<dots> = Fin (((1 - 9 / 10) / (1 / 5)) powr 2)" using e by simp
    also have "\<dots> = Fin (1 / 4)" by (simp add: power2_eq_square)
    finally show "jmul (jadd (jmul (Fin 1) (Fin 1)) (Fin 0)) (calculateDisplacementFalloff (Fin (9 / 10)) ps)
        = Fin (1 / 4)" by simp
  qed
  have off: "\<forall>v. calculateDisplacementFalloff v (ps\<lparr> falloffEnabled := False \<rparr>) = Fin 1"
    by (simp add: falloff_disabled)
  show ?thesis using ref atb at0 up down scen off by (intro conjI) assumption+
qed

theorem falloff_multiplier_witness:
  "calculateDisplacementFalloff (Fin (1 / 5)) exampleParams = Fin 1
   \<and> calculateDisplacementFalloff (Fin 0) exampleParams = Fin 0
   \<and> jmul (jadd (jmul (Fin 1) (Fin 1)) (Fin 0))
        (calculateDisplacementFalloff (Fin (9 / 10)) exampleParams) = Fin (1 / 4)
   \<and> calculateDisplacementFalloff (Fin (1 / 10)) exampleParams
        = falloff_reference (Fin (1 / 10)) exampleParams"
proof -
  have e: "falloffEnabled exampleParams" "falloffBottom exampleParams = Fin (1 / 5)"
    "falloffTop exampleParams = Fin (1 / 5)" "falloffPower exampleParams = Fin 2"
    by (simp_all add: exampleParams_def)
  have n: "0 < (1 / 5 :: real)" "(1 / 5 :: real) + 1 / 5 \<le> 1" "0 < (2 :: real)"
    by simp_all
  note t = falloff_multiplier[OF e n(1) n(1) n(2) n(3)]
  from t have "calculateDisplacementFalloff (Fin (1 / 5)) exampleParams = Fin 1" by blast
  moreover from t have "calculateDisplacementFalloff (Fin 0) exampleParams = Fin 0" by blast
  moreover from t have "jmul (jadd (jmul (Fin 1) (Fin 1)) (Fin 0))
        (calculateDisplacementFalloff (Fin (9 / 10)) exampleParams) = Fin (1 / 4)" by blast
  moreover have "(0 :: real) \<le> 1 / 10 \<and> (1 / 10 :: real) \<le> 1" by simp
  with t have "calculateDisplacementFalloff (Fin (1 / 10)) exampleParams
        = falloff_reference (Fin (1 / 10)) exampleParams" by blast
  ultimately show ?thesis by blast
qed

text \<open>
  Claim C4 as it is stated fails where the bottom zone has size 0, a value the control
  panel offers: the zone is then empty and the multiplier at \<open>v = 0\<close> is 1, not 0.
\<close>

theorem falloff_zero_zone_counterexample:
  "calculateDisplacementFalloff (Fin 0) (exampleParams\<lparr> falloffBottom := Fin 0 \<rparr>) \<noteq> Fin 0"
  by (simp add: calculateDisplacementFalloff_def exampleParams_def jgt_def jsub_def)

section \<open>Profile evaluator and lathe grid\<close>

lemma jlt_jle_trans: "jlt a b \<Longrightarrow> jle b c \<Longrightarrow> jlt a c"
  by (cases a; cases b; cases c) (auto simp add: jle_def)

lemma jlt_not_jle: "jlt a c \<Longrightarrow> \<not> jle c a"
  by (cases a; cases c) (auto simp add: jle_def)

lemma segmentSearch_fallback:
  assumes "\<forall>i. Suc i < length anchors \<longrightarrow>
      \<not> (jge h (vy (position (anchors ! i))) \<and> jle h (vy (position (anchors ! Suc i))))"
  shows "segmentSearch anchors params h = radius params"
  using assms
proof (induction anchors params h rule: segmentSearch.induct)
  case (1 a b rest params h)
  have nb: "\<not> (jge h (vy (position a)) \<and> jle h (vy (position b)))"
    using "1.prems"[rule_format, of 0] by simp
  have "\<forall>i. Suc i < length (b # rest) \<longrightarrow>
      \<not> (jge h (vy (position ((b # rest) ! i))) \<and> jle h (vy (position ((b # rest) ! Suc i))))"
  proof (intro allI impI)
    fix i assume "Suc i < length (b # rest)"
    then show "\<not> (jge h (vy (position ((b # rest) ! i))) \<and> jle h (vy (position ((b # rest) ! Suc i))))"
      using "1.prems"[rule_format, of "Suc i"] by simp
  qed
  then have "segmentSearch (b # rest) params h = radius params" using nb "1.IH" by blast
  then show ?case by (simp only: segmentSearch.simps if_not_P[OF nb])
qed simp_all

text \<open>
  Claim C5. With at least one anchor and a positive total height: at or below 0 the
  evaluator returns the radius of the first anchor, at or above the total height that of
  the last anchor, both clamped to 0.1 from below; and where no two consecutive anchors
  bracket the height, it returns the base radius of the parameters, as a value.
\<close>

theorem profile_boundary_and_fallback:
  assumes "anchors \<noteq> []" "jlt (Fin 0) (height params)"
  shows "(jle h (Fin 0) \<longrightarrow>
            getRadiusAtHeight anchors params h
              = Inr (jmax (Fin (1 / 10)) (vx (position (hd anchors)))))
       \<and> (jge h (height params) \<longrightarrow>
            getRadiusAtHeight anchors params h
              = Inr (jmax (Fin (1 / 10)) (vx (position (last anchors)))))
       \<and> (\<not> jle h (Fin 0) \<and> \<not> jge h (height params)
            \<and> (\<forall>i. Suc i < length anchors \<longrightarrow>
                  \<not> (jge h (vy (position (anchors ! i)))
                       \<and> jle h (vy (position (anchors ! Suc i))))) \<longrightarrow>
            getRadiusAtHeight anchors params h = Inr (radius params))"
proof -
  obtain a rest where ar: "anchors = a # rest" using assms(1) by (cases anchors) auto
  have low: "jle h (Fin 0) \<longrightarrow>
      getRadiusAtHeight anchors params h = Inr (jmax (Fin (1 / 10)) (vx (position (hd anchors))))"
    by (simp add: getRadiusAtHeight_def ar)
  have high: "jge h (height params) \<longrightarrow>
      getRadiusAtHeight anchors params h = Inr (jmax (Fin (1 / 10)) (vx (position (last anchors))))"
  proof
    assume g: "jge h (height params)"
    then have "jlt (Fin 0) h" using assms(2) jlt_jle_trans by (simp add: jge_def)
    then have "\<not> jle h (Fin 0)" by (rule jlt_not_jle)
    then show "getRadiusAtHeight anchors params h
        = Inr (jmax (Fin (1 / 10)) (vx (position (last anchors))))"
      using g by (simp add: getRadiusAtHeight_def ar)
  qed
  have none: "\<not> jle h (Fin 0) \<and> \<not> jge h (height params)
      \<and> (\<forall>i. Suc i < length anchors \<longrightarrow>
            \<not> (jge h (vy (position (anchors ! i))) \<and> jle h (vy (position (anchors ! Suc i))))) \<longrightarrow>
      getRadiusAtHeight anchors params h = Inr (radius params)"
    using segmentSearch_fallback[of anchors h params] by (simp add: getRadiusAtHeight_def)
  show ?thesis using low high none by (intro conjI) assumption+
qed

theorem profile_boundary_and_fallback_witness:
  "getRadiusAtHeight unsortedAnchors cylinderParams (Fin 0) = Inr (Fin 3)
   \<and> getRadiusAtHeight unsortedAnchors cylinderParams (Fin 5) = Inr (Fin 1)
   \<and> getRadiusAtHeight unsortedAnchors cylinderParams (Fin 2) = Inr (Fin 2)"
proof -
  have ne: "unsortedAnchors \<noteq> []" by (simp add: unsortedAnchors_def)
  have hp: "jlt (Fin 0) (height cylinderParams)" by (simp add: cylinderParams_def)
  have a: "jle (Fin 0) (Fin 0)" by (simp add: jle_def)
  have b: "jge (Fin 5) (height cylinderParams)" by (simp add: cylinderParams_def jge_def jle_def)
  have c: "\<not> jle (Fin 2) (Fin 0) \<and> \<not> jge (Fin 2) (height cylinderParams)
      \<and> (\<forall>i. Suc i < length unsortedAnchors \<longrightarrow>
            \<not> (jge (Fin 2) (vy (position (unsortedAnchors ! i)))
                 \<and> jle (Fin 2) (vy (position (unsortedAnchors ! Suc i)))))"
    by (simp add: cylinderParams_def unsortedAnchors_def plainAnchor_def jge_def jle_def)
  have v: "jmax (Fin (1 / 10)) (vx (position (hd unsortedAnchors))) = Fin 3"
    "jmax (Fin (1 / 10)) (vx (position (last unsortedAnchors))) = Fin 1"
    "radius cylinderParams = Fin 2"
    by (simp_all add: unsortedAnchors_def plainAnchor_def jmax_def cylinderParams_def)
  show ?thesis
    using profile_boundary_and_fallback[OF ne hp, of "Fin 0"]
      profile_boundary_and_fallback[OF ne hp, of "Fin 5"]
      profile_boundary_and_fallback[OF ne hp, of "Fin 2"] a b c
    by (simp only: v) blast
qed

lemma getRadiusAtHeight_total:
  "anchors \<noteq> [] \<Longrightarrow>
   getRadiusAtHeight anchors params h = Inr (radiusAtHeight anchors params h)"
  by (cases anchors) (simp_all add: radiusAtHeight_def getRadiusAtHeight_def)

lemma ringRadiusAt_total:
  "anchors \<noteq> [] \<Longrightarrow>
   ringRadiusAt anchors params ring =
     Inr (jmax minRadius (jmul (radiusAtHeight anchors params (ringHeight params ring))
                               (ringTaper params ring)))"
  by (simp add: ringRadiusAt_def getRadiusAtHeight_total)

lemma ringRadiiLoop_total:
  assumes "\<And>ring. ringRadiusAt anchors params ring = Inr (f ring)"
  shows "ringRadiiLoop anchors params xs = Inr (map f xs)"
  by (induction xs) (simp_all add: assms)

lemma getN_map_upt: "ring < n \<Longrightarrow> getN (map f [0..<n]) ring = f ring"
  by (simp add: getN_def)

lemma createLoftGeometry_vertices:
  assumes "\<And>ring. ringRadiusAt anchors params ring = Inr (f ring)"
  shows "\<exists>g. createLoftGeometry anchors params = Inr g
     \<and> positionAttr g = gridOf params (loftVertex (map f [0..<rings params]) params)"
  by (simp add: createLoftGeometry_def ringRadiiLoop_total[of anchors params f, OF assms])

lemma bezier_const:
  fixes t c :: real
  shows "(1 - t) * (1 - t) * (1 - t) * c + 3 * (1 - t) * (1 - t) * t * c
        + 3 * (1 - t) * t * t * c + t * t * t * c = c"
  by (simp add: algebra_simps)

lemma CubicBezier_const: "CubicBezier (Fin t) (Fin c) (Fin c) (Fin c) (Fin c) = Fin c"
  using bezier_const[of t c]
  by (simp add: CubicBezier_def CubicBezierP0_def CubicBezierP1_def CubicBezierP2_def
      CubicBezierP3_def jsub_def Let_def)

lemma bisection_const:
  assumes "vx v0 = Fin c" "vx v1 = Fin c" "vx v2 = Fin c" "vx v3 = Fin c" "1 / 10 \<le> c"
  shows "bisection n (CubicBezierCurve3 v0 v1 v2 v3) h (Fin a) (Fin b) (Fin t) = Fin c"
proof (induction n arbitrary: a b t)
  case 0
  show ?case using assms by (simp add: CubicBezier_const jmax_def)
next
  case (Suc n)
  have x: "vx (getPoint (CubicBezierCurve3 v0 v1 v2 v3) (Fin t)) = Fin c"
    using assms by (simp add: CubicBezier_const)
  have m: "jmax (Fin (1 / 10)) (Fin c) = Fin c" using assms(5) by (simp add: jmax_def)
  have l: "bisection n (CubicBezierCurve3 v0 v1 v2 v3) h (Fin a) (Fin t) (jdiv (jadd (Fin a) (Fin t)) (Fin 2)) = Fin c"
    using Suc[of a t "(a + t) / 2"] by simp
  have r: "bisection n (CubicBezierCurve3 v0 v1 v2 v3) h (Fin t) (Fin b) (jdiv (jadd (Fin t) (Fin b)) (Fin 2)) = Fin c"
    using Suc[of t b "(t + b) / 2"] by simp
  show ?case
    by (simp only: bisection.simps Let_def x m l r if_cancel)
qed

lemma cylinder_radius:
  "getRadiusAtHeight cylinderAnchors cylinderParams (Fin y) = Inr (Fin 2)"
proof -
  have b: "bisection 20
      (CubicBezierCurve3 (position (plainAnchor 2 0))
         (addV (position (plainAnchor 2 0)) (handleOut (plainAnchor 2 0)))
         (addV (position (plainAnchor 2 5)) (handleIn (plainAnchor 2 5)))
         (position (plainAnchor 2 5)))
      (Fin y) (Fin 0) (Fin 1) (Fin 0.5) = Fin 2"
    by (rule bisection_const) (simp_all add: plainAnchor_def addV_def)
  have s: "\<not> y \<le> 0 \<Longrightarrow> \<not> 5 \<le> y \<Longrightarrow>
      segmentSearch cylinderAnchors cylinderParams (Fin y) = Fin 2"
    unfolding cylinderAnchors_def
    by (simp only: segmentSearch.simps b) (simp add: plainAnchor_def jge_def jle_def)
  show ?thesis
  proof (cases "y \<le> 0")
    case True
    then show ?thesis
      by (simp add: getRadiusAtHeight_def cylinderAnchors_def plainAnchor_def jle_def jmax_def)
  next
    case low: False
    show ?thesis
    proof (cases "5 \<le> y")
      case True
      then show ?thesis using low
        by (simp add: getRadiusAtHeight_def cylinderAnchors_def plainAnchor_def jle_def jge_def
            jmax_def cylinderParams_def)
    next
      case False
      then show ?thesis using low s
        by (simp add: getRadiusAtHeight_def jle_def jge_def cylinderParams_def)
    qed
  qed
qed

lemma cylinder_ring_radius: "ringRadiusAt cylinderAnchors cylinderParams ring = Inr (Fin 2)"
proof -
  have h: "ringHeight cylinderParams ring = Fin (real ring * (5 / 9))"
    by (simp add: ringHeight_def heightStep_def cylinderParams_def)
  have t: "ringTaper cylinderParams ring = Fin 1"
    by (simp add: ringTaper_def cylinderParams_def jsub_def)
  show ?thesis
    by (simp add: ringRadiusAt_def h t cylinder_radius jmax_def minRadius_def)
qed

lemma ringTaper_linear:
  assumes "2 \<le> rings params" "taper params = Fin tp"
  shows "ringTaper params ring = Fin (1 - (1 - tp) * (real ring / (real (rings params) - 1)))"
  using assms by (simp add: ringTaper_def jsub_def)

lemma circle_distance:
  "radialDistance (Vec3 (Fin (c * cos a)) y (Fin (c * sin a))) = Fin \<bar>c\<bar>"
proof -
  have one: "cos a * cos a + sin a * sin a = 1"
    using sin_cos_squared_add2[of a] by (simp add: power2_eq_square)
  have "(c * cos a) * (c * cos a) + (c * sin a) * (c * sin a)
      = (c * c) * (cos a * cos a + sin a * sin a)"
    by (simp only: distrib_left mult.assoc mult.left_commute)
  also have "\<dots> = c * c" by (simp only: one mult_1_right)
  finally have "sqrt ((c * cos a) * (c * cos a) + (c * sin a) * (c * sin a)) = \<bar>c\<bar>"
    by (simp only: real_sqrt_abs2)
  then show ?thesis by (simp only: radialDistance_Fin)
qed

text \<open>
  Claim C6. With at least one anchor the builder returns a geometry. Its vertex of ring
  \<open>ring\<close> and segment \<open>seg\<close> is at index \<open>ring * (segments + 1) + seg\<close>, at the height
  \<open>ring * (height / (rings - 1))\<close>, on the circle whose radius is the profile radius at
  that height times the taper of the ring, not below 0.1, at the angle
  \<open>(seg / segments) * pi * 2\<close> plus \<open>ring\<close> times the twist step. The taper of a ring is
  linear in the ring, 1 at ring 0 and the configured taper at the last ring. For the
  profile of two anchors at heights 0 and 5 with radius 2 and no handles, 10 rings and
  16 segments, every ring radius is 2, and every vertex is at distance 2 from the axis.
\<close>

theorem lathe_grid_synthesis:
  assumes "anchors \<noteq> []"
  shows "(\<exists>g. createLoftGeometry anchors params = Inr g
          \<and> (\<forall>ring<rings params. \<forall>seg\<le>segments params.
               positionAttr g ! (ring * (segments params + 1) + seg) =
                 (let y = jmul (jnat ring) (jdiv (height params) (Fin (real (rings params) - 1)));
                      taperAt = jsub (Fin 1) (jmul (jsub (Fin 1) (taper params))
                                  (jdiv (jnat ring) (Fin (real (rings params) - 1))));
                      r = jmax (Fin (1 / 10)) (jmul (radiusAtHeight anchors params y) taperAt);
                      twistAt = jmul (jnat ring)
                                  (jdiv (jdiv (jmul (twist params) (Fin pi)) (Fin 180))
                                        (Fin (real (rings params) - 1)));
                      theta = jadd (jmul (jmul (jdiv (jnat seg) (jnat (segments params))) (Fin pi))
                                      (Fin 2)) twistAt
                  in Vec3 (jmul r (jcos theta)) y (jmul r (jsin theta)))))
       \<and> (\<forall>tp. 2 \<le> rings params \<and> taper params = Fin tp \<longrightarrow>
             ringTaper params 0 = Fin 1 \<and> ringTaper params (rings params - 1) = Fin tp
             \<and> (\<forall>ring. ringTaper params ring
                   = Fin (1 - (1 - tp) * (real ring / (real (rings params) - 1)))))
       \<and> (\<forall>ring. ringRadiusAt cylinderAnchors cylinderParams ring = Inr (Fin 2))
       \<and> (\<exists>g. createLoftGeometry cylinderAnchors cylinderParams = Inr g
             \<and> (\<forall>ring<10. \<forall>seg\<le>16.
                   radialDistance (positionAttr g ! (ring * 17 + seg)) = Fin 2))"
proof -
  let ?f = "\<lambda>ring. jmax minRadius (jmul (radiusAtHeight anchors params (ringHeight params ring))
                               (ringTaper params ring))"
  obtain g where g: "createLoftGeometry anchors params = Inr g"
      "positionAttr g = gridOf params (loftVertex (map ?f [0..<rings params]) params)"
    using createLoftGeometry_vertices[of anchors params ?f] ringRadiusAt_total[OF assms] by blast
  have v: "\<forall>ring<rings params. \<forall>seg\<le>segments params.
      positionAttr g ! (ring * (segments params + 1) + seg) =
        (let y = jmul (jnat ring) (jdiv (height params) (Fin (real (rings params) - 1)));
             taperAt = jsub (Fin 1) (jmul (jsub (Fin 1) (taper params))
                         (jdiv (jnat ring) (Fin (real (rings params) - 1))));
             r = jmax (Fin (1 / 10)) (jmul (radiusAtHeight anchors params y) taperAt);
             twistAt = jmul (jnat ring)
                         (jdiv (jdiv (jmul (twist params) (Fin pi)) (Fin 180))
                               (Fin (real (rings params) - 1)));
             theta = jadd (jmul (jmul (jdiv (jnat seg) (jnat (segments params))) (Fin pi))
                             (Fin 2)) twistAt
         in Vec3 (jmul r (jcos theta)) y (jmul r (jsin theta)))"
  proof (intro allI impI)
    fix ring seg
    assume r: "ring < rings params" and s: "seg \<le> segments params"
    have "positionAttr g ! (ring * (segments params + 1) + seg)
        = loftVertex (map ?f [0..<rings params]) params ring seg"
      unfolding g(2) by (rule gridOf_nth[OF r s])
    also have "\<dots> = (let y = jmul (jnat ring) (jdiv (height params) (Fin (real (rings params) - 1)));
             taperAt = jsub (Fin 1) (jmul (jsub (Fin 1) (taper params))
                         (jdiv (jnat ring) (Fin (real (rings params) - 1))));
             r = jmax (Fin (1 / 10)) (jmul (radiusAtHeight anchors params y) taperAt);
             twistAt = jmul (jnat ring)
                         (jdiv (jdiv (jmul (twist params) (Fin pi)) (Fin 180))
                               (Fin (real (rings params) - 1)));
             theta = jadd (jmul (jmul (jdiv (jnat seg) (jnat (segments params))) (Fin pi))
                             (Fin 2)) twistAt
         in Vec3 (jmul r (jcos theta)) y (jmul r (jsin theta)))"
      using r
      by (simp add: loftVertex_def Let_def getN_map_upt ringTheta_def twistStep_def
          ringHeight_def heightStep_def ringTaper_def minRadius_def)
    finally show "positionAttr g ! (ring * (segments params + 1) + seg) =
        (let y = jmul (jnat ring) (jdiv (height params) (Fin (real (rings params) - 1)));
             taperAt = jsub (Fin 1) (jmul (jsub (Fin 1) (taper params))
                         (jdiv (jnat ring) (Fin (real (rings params) - 1))));
             r = jmax (Fin (1 / 10)) (jmul (radiusAtHeight anchors params y) taperAt);
             twistAt = jmul (jnat ring)
                         (jdiv (jdiv (jmul (twist params) (Fin pi)) (Fin 180))
                               (Fin (real (rings params) - 1)));
             theta = jadd (jmul (jmul (jdiv (jnat seg) (jnat (segments params))) (Fin pi))
                             (Fin 2)) twistAt
         in Vec3 (jmul r (jcos theta)) y (jmul r (jsin theta)))" .
  qed
  have tap: "\<forall>tp. 2 \<le> rings params \<and> taper params = Fin tp \<longrightarrow>
      ringTaper params 0 = Fin 1 \<and> ringTaper params (rings params - 1) = Fin tp
      \<and> (\<forall>ring. ringTaper params ring
            = Fin (1 - (1 - tp) * (real ring / (real (rings params) - 1))))"
  proof (intro allI impI)
    fix tp
    assume h: "2 \<le> rings params \<and> taper params = Fin tp"
    have lin: "\<And>ring. ringTaper params ring
        = Fin (1 - (1 - tp) * (real ring / (real (rings params) - 1)))"
      using h by (simp add: ringTaper_linear)
    have last: "real (rings params - 1) / (real (rings params) - 1) = 1"
      using h by (simp add: of_nat_diff)
    have "ringTaper params 0 = Fin 1" by (simp add: lin)
    moreover have "ringTaper params (rings params - 1) = Fin tp"
      by (simp only: lin last) simp
    ultimately show "ringTaper params 0 = Fin 1 \<and> ringTaper params (rings params - 1) = Fin tp
      \<and> (\<forall>ring. ringTaper params ring
            = Fin (1 - (1 - tp) * (real ring / (real (rings params) - 1))))"
      using lin by blast
  qed
  obtain c where c: "createLoftGeometry cylinderAnchors cylinderParams = Inr c"
      "positionAttr c = gridOf cylinderParams
         (loftVertex (map (\<lambda>ring. Fin 2) [0..<rings cylinderParams]) cylinderParams)"
    using createLoftGeometry_vertices[of cylinderAnchors cylinderParams "\<lambda>ring. Fin 2"]
      cylinder_ring_radius by blast
  have cr: "rings cylinderParams = 10" and cs: "segments cylinderParams = 16"
    by (simp_all add: cylinderParams_def)
  have cyl: "\<forall>ring<10. \<forall>seg\<le>16. radialDistance (positionAttr c ! (ring * 17 + seg)) = Fin 2"
  proof (intro allI impI)
    fix ring seg :: nat
    assume r: "ring < 10" and s: "seg \<le> 16"
    have th: "ringTheta cylinderParams ring seg = Fin (real seg / 16 * pi * 2)"
      by (simp add: ringTheta_def twistStep_def cylinderParams_def)
    have "positionAttr c ! (ring * (segments cylinderParams + 1) + seg)
        = loftVertex (map (\<lambda>ring. Fin 2) [0..<rings cylinderParams]) cylinderParams ring seg"
      unfolding c(2) by (rule gridOf_nth) (simp_all add: cr cs r s)
    also have "\<dots> = Vec3 (Fin (2 * cos (real seg / 16 * pi * 2))) (ringHeight cylinderParams ring)
         (Fin (2 * sin (real seg / 16 * pi * 2)))"
      using r by (simp add: loftVertex_def Let_def th cr getN_map_upt)
    finally have "positionAttr c ! (ring * 17 + seg)
        = Vec3 (Fin (2 * cos (real seg / 16 * pi * 2))) (ringHeight cylinderParams ring)
            (Fin (2 * sin (real seg / 16 * pi * 2)))"
      by (simp add: cs)
    then show "radialDistance (positionAttr c ! (ring * 17 + seg)) = Fin 2"
      by (simp only: circle_distance) simp
  qed
  have A: "\<exists>g. createLoftGeometry anchors params = Inr g
          \<and> (\<forall>ring<rings params. \<forall>seg\<le>segments params.
               positionAttr g ! (ring * (segments params + 1) + seg) =
                 (let y = jmul (jnat ring) (jdiv (height params) (Fin (real (rings params) - 1)));
                      taperAt = jsub (Fin 1) (jmul (jsub (Fin 1) (taper params))
                                  (jdiv (jnat ring) (Fin (real (rings params) - 1))));
                      r = jmax (Fin (1 / 10)) (jmul (radiusAtHeight anchors params y) taperAt);
                      twistAt = jmul (jnat ring)
                                  (jdiv (jdiv (jmul (twist params) (Fin pi)) (Fin 180))
                                        (Fin (real (rings params) - 1)));
                      theta = jadd (jmul (jmul (jdiv (jnat seg) (jnat (segments params))) (Fin pi))
                                      (Fin 2)) twistAt
                  in Vec3 (jmul r (jcos theta)) y (jmul r (jsin theta))))"
    by (rule exI[of _ g]) (rule conjI[OF g(1) v])
  have B: "\<forall>ring. ringRadiusAt cylinderAnchors cylinderParams ring = Inr (Fin 2)"
    by (simp add: cylinder_ring_radius)
  have D: "\<exists>g. createLoftGeometry cylinderAnchors cylinderParams = Inr g
             \<and> (\<forall>ring<10. \<forall>seg\<le>16.
                   radialDistance (positionAttr g ! (ring * 17 + seg)) = Fin 2)"
    by (rule exI[of _ c]) (rule conjI[OF c(1) cyl])
  show ?thesis by (rule conjI[OF A conjI[OF tap conjI[OF B D]]])
qed

theorem lathe_grid_synthesis_witness:
  "cylinderAnchors \<noteq> []
   \<and> (\<forall>ring. ringRadiusAt cylinderAnchors cylinderParams ring = Inr (Fin 2))
   \<and> (\<exists>g. createLoftGeometry cylinderAnchors cylinderParams = Inr g
         \<and> (\<forall>ring<10. \<forall>seg\<le>16.
               radialDistance (positionAttr g ! (ring * 17 + seg)) = Fin 2))"
proof -
  have ne: "cylinderAnchors \<noteq> []" by (simp add: cylinderAnchors_def)
  show ?thesis using lathe_grid_synthesis[OF ne, of cylinderParams] ne by blast
qed

section \<open>Welded caps\<close>

lemma ring_sum:
  assumes "\<forall>i<n. getV vs i = Vec3 (Fin (X i)) (Fin (Y i)) (Fin (Z i))"
  shows "forUpto n (\<lambda>i c. addV c (getV vs i)) (Vec3 (Fin 0) (Fin 0) (Fin 0)) =
     Vec3 (Fin (\<Sum>i<n. X i)) (Fin (\<Sum>i<n. Y i)) (Fin (\<Sum>i<n. Z i))"
  using assms
proof (induction n)
  case 0
  show ?case by (simp add: forUpto_0)
next
  case (Suc n)
  then show ?case by (simp add: forUpto_Suc addV_def)
qed

lemma ringCenter_mean:
  assumes "0 < segs" "\<forall>i<segs. getV vs i = Vec3 (Fin (X i)) (Fin (Y i)) (Fin (Z i))"
  shows "ringCenter vs segs =
     Vec3 (Fin ((\<Sum>i<segs. X i) / real segs)) (Fin ((\<Sum>i<segs. Y i) / real segs))
          (Fin ((\<Sum>i<segs. Z i) / real segs))"
  using assms(1) by (simp add: ringCenter_def Let_def ring_sum[OF assms(2)])

lemma ring_vertex:
  "seg \<le> segs \<Longrightarrow>
   getV (getDisplacedRingVertices g ringIndex segs) seg =
     getVi (positionAttr g) (ringIndex * (int segs + 1) + int seg)"
  by (simp add: getDisplacedRingVertices_def getV_def del: upt_Suc)

lemma cap_boundary:
  assumes "seg \<le> segs"
  shows "positionAttr (capGeometry (getDisplacedRingVertices g ringIndex segs) segs isTop) ! (seg + 1)
       = getVi (positionAttr g) (ringIndex * (int segs + 1) + int seg)"
proof -
  have "positionAttr (capGeometry (getDisplacedRingVertices g ringIndex segs) segs isTop) ! (seg + 1)
      = getV (getDisplacedRingVertices g ringIndex segs) seg"
    using assms by (simp add: capGeometry_def Let_def del: upt_Suc)
  then show ?thesis using ring_vertex[OF assms] by simp
qed

lemma cap_center:
  "positionAttr (capGeometry vs segs isTop) ! 0 = ringCenter vs segs"
  by (simp add: capGeometry_def Let_def)

lemma cap_centroid:
  assumes "0 < segs"
    and "\<forall>i<segs. getVi (positionAttr g) (ringIndex * (int segs + 1) + int i)
            = Vec3 (Fin (X i)) (Fin (Y i)) (Fin (Z i))"
  shows "positionAttr (capGeometry (getDisplacedRingVertices g ringIndex segs) segs isTop) ! 0
       = Vec3 (Fin ((\<Sum>i<segs. X i) / real segs)) (Fin ((\<Sum>i<segs. Y i) / real segs))
              (Fin ((\<Sum>i<segs. Z i) / real segs))"
proof -
  have "\<forall>i<segs. getV (getDisplacedRingVertices g ringIndex segs) i
      = Vec3 (Fin (X i)) (Fin (Y i)) (Fin (Z i))"
    using assms(2) by (simp add: ring_vertex)
  then show ?thesis using assms(1) by (simp only: cap_center ringCenter_mean)
qed

lemma caps_heap:
  assumes "cylinder < length h"
  shows "createWeldedCapGeometries_heap h cylinder params =
     (h @ [fst (createWeldedCapGeometries (h ! cylinder) params),
           snd (createWeldedCapGeometries (h ! cylinder) params)],
      length h, length h + 1)"
  by (simp add: createWeldedCapGeometries_heap_def alloc_def Let_def)

text \<open>
  Claim C2. The two caps are new geometry objects: their addresses differ from that of
  the body and from each other, and the body is as it was. The vertex \<open>seg + 1\<close> of a cap,
  for every \<open>seg\<close> up to \<open>segments\<close>, is the body's vertex \<open>seg\<close> of ring 0 (bottom) or of
  ring \<open>rings - 1\<close> (top), as a read of the body's position attribute gives it. The vertex 0
  of a cap is, coordinate by coordinate, the sum of the first \<open>segments\<close> vertices of that
  ring divided by \<open>segments\<close>.
\<close>

theorem cap_weld:
  assumes "cylinder < length h"
    and "createWeldedCapGeometries_heap h cylinder params = (h', bottomCap, topCap)"
  shows "bottomCap \<noteq> cylinder \<and> topCap \<noteq> cylinder \<and> bottomCap \<noteq> topCap \<and> h' ! cylinder = h ! cylinder
       \<and> (\<forall>seg\<le>segments params.
             positionAttr (h' ! bottomCap) ! (seg + 1) = getV (positionAttr (h ! cylinder)) seg)
       \<and> (\<forall>seg\<le>segments params.
             positionAttr (h' ! topCap) ! (seg + 1)
               = getVi (positionAttr (h ! cylinder))
                   ((int (rings params) - 1) * (int (segments params) + 1) + int seg))
       \<and> (\<forall>X Y Z. 0 < segments params
             \<and> (\<forall>i<segments params. getV (positionAttr (h ! cylinder)) i
                    = Vec3 (Fin (X i)) (Fin (Y i)) (Fin (Z i))) \<longrightarrow>
             positionAttr (h' ! bottomCap) ! 0
               = Vec3 (Fin ((\<Sum>i<segments params. X i) / real (segments params)))
                      (Fin ((\<Sum>i<segments params. Y i) / real (segments params)))
                      (Fin ((\<Sum>i<segments params. Z i) / real (segments params))))
       \<and> (\<forall>X Y Z. 0 < segments params
             \<and> (\<forall>i<segments params.
                    getVi (positionAttr (h ! cylinder))
                      ((int (rings params) - 1) * (int (segments params) + 1) + int i)
                    = Vec3 (Fin (X i)) (Fin (Y i)) (Fin (Z i))) \<longrightarrow>
             positionAttr (h' ! topCap) ! 0
               = Vec3 (Fin ((\<Sum>i<segments params. X i) / real (segments params)))
                      (Fin ((\<Sum>i<segments params. Y i) / real (segments params)))
                      (Fin ((\<Sum>i<segments params. Z i) / real (segments params))))"
proof -
  let ?body = "h ! cylinder"
  let ?segs = "segments params"
  let ?b = "capGeometry (getDisplacedRingVertices ?body 0 ?segs) ?segs False"
  let ?t = "capGeometry (getDisplacedRingVertices ?body (int (rings params) - 1) ?segs) ?segs True"
  have caps: "createWeldedCapGeometries ?body params = (?b, ?t)"
    by (simp add: createWeldedCapGeometries_def Let_def)
  have r: "h' = h @ [?b, ?t]" "bottomCap = length h" "topCap = length h + 1"
    using assms(2) caps_heap[OF assms(1), of params] caps by simp_all
  have hb: "h' ! bottomCap = ?b" and ht: "h' ! topCap = ?t" and hc: "h' ! cylinder = ?body"
    using assms(1) by (simp_all add: r nth_append)
  have addr: "bottomCap \<noteq> cylinder \<and> topCap \<noteq> cylinder \<and> bottomCap \<noteq> topCap"
    using assms(1) r by simp
  have bb: "\<forall>seg\<le>?segs. positionAttr (h' ! bottomCap) ! (seg + 1) = getV (positionAttr ?body) seg"
    using cap_boundary[of _ ?segs ?body 0 False] by (simp add: hb getVi_int)
  have tb: "\<forall>seg\<le>?segs. positionAttr (h' ! topCap) ! (seg + 1)
      = getVi (positionAttr ?body) ((int (rings params) - 1) * (int ?segs + 1) + int seg)"
    using cap_boundary[of _ ?segs ?body "int (rings params) - 1" True] by (simp add: ht)
  have bc: "\<forall>X Y Z. 0 < ?segs
      \<and> (\<forall>i<?segs. getV (positionAttr ?body) i = Vec3 (Fin (X i)) (Fin (Y i)) (Fin (Z i))) \<longrightarrow>
      positionAttr (h' ! bottomCap) ! 0
        = Vec3 (Fin ((\<Sum>i<?segs. X i) / real ?segs)) (Fin ((\<Sum>i<?segs. Y i) / real ?segs))
               (Fin ((\<Sum>i<?segs. Z i) / real ?segs))"
  proof (intro allI impI)
    fix X Y Z
    assume a: "0 < ?segs
      \<and> (\<forall>i<?segs. getV (positionAttr ?body) i = Vec3 (Fin (X i)) (Fin (Y i)) (Fin (Z i)))"
    then have "\<forall>i<?segs. getVi (positionAttr ?body) (0 * (int ?segs + 1) + int i)
        = Vec3 (Fin (X i)) (Fin (Y i)) (Fin (Z i))"
      by (simp add: getVi_int)
    then show "positionAttr (h' ! bottomCap) ! 0
        = Vec3 (Fin ((\<Sum>i<?segs. X i) / real ?segs)) (Fin ((\<Sum>i<?segs. Y i) / real ?segs))
               (Fin ((\<Sum>i<?segs. Z i) / real ?segs))"
      unfolding hb using a by (intro cap_centroid) simp_all
  qed
  have tc: "\<forall>X Y Z. 0 < ?segs
      \<and> (\<forall>i<?segs. getVi (positionAttr ?body) ((int (rings params) - 1) * (int ?segs + 1) + int i)
             = Vec3 (Fin (X i)) (Fin (Y i)) (Fin (Z i))) \<longrightarrow>
      positionAttr (h' ! topCap) ! 0
        = Vec3 (Fin ((\<Sum>i<?segs. X i) / real ?segs)) (Fin ((\<Sum>i<?segs. Y i) / real ?segs))
               (Fin ((\<Sum>i<?segs. Z i) / real ?segs))"
  proof (intro allI impI)
    fix X Y Z
    assume a: "0 < ?segs
      \<and> (\<forall>i<?segs. getVi (positionAttr ?body) ((int (rings params) - 1) * (int ?segs + 1) + int i)
             = Vec3 (Fin (X i)) (Fin (Y i)) (Fin (Z i)))"
    show "positionAttr (h' ! topCap) ! 0
        = Vec3 (Fin ((\<Sum>i<?segs. X i) / real ?segs)) (Fin ((\<Sum>i<?segs. Y i) / real ?segs))
               (Fin ((\<Sum>i<?segs. Z i) / real ?segs))"
      unfolding ht using a by (intro cap_centroid) simp_all
  qed
  show ?thesis
    using addr hc bb tb bc tc by (simp only: simp_thms)
qed

theorem cap_weld_witness:
  "(0 :: nat) < length [exampleGrid]
   \<and> createWeldedCapGeometries_heap [exampleGrid] 0 exampleParams
       = ([exampleGrid, fst (createWeldedCapGeometries exampleGrid exampleParams),
           snd (createWeldedCapGeometries exampleGrid exampleParams)], 1, 2)
   \<and> [exampleGrid, fst (createWeldedCapGeometries exampleGrid exampleParams),
        snd (createWeldedCapGeometries exampleGrid exampleParams)] ! 0 = exampleGrid
   \<and> positionAttr (fst (createWeldedCapGeometries exampleGrid exampleParams)) ! (2 + 1)
       = getV (positionAttr exampleGrid) 2
   \<and> positionAttr (fst (createWeldedCapGeometries exampleGrid exampleParams)) ! 0
       = Vec3 (Fin 2) (Fin 0) (Fin 0)"
proof -
  have l: "(0 :: nat) < length [exampleGrid]" by simp
  have e: "createWeldedCapGeometries_heap [exampleGrid] 0 exampleParams
       = ([exampleGrid, fst (createWeldedCapGeometries exampleGrid exampleParams),
           snd (createWeldedCapGeometries exampleGrid exampleParams)], 1, 2)"
    by (simp add: createWeldedCapGeometries_heap_def alloc_def Let_def)
  have s: "segments exampleParams = 3" and r: "rings exampleParams = 3"
    by (simp_all add: exampleParams_def)
  have len: "length (positionAttr exampleGrid) = 12"
    by (simp add: exampleGrid_def gridOf_length s r)
  have ring0: "\<forall>i<segments exampleParams. getV (positionAttr exampleGrid) i
      = Vec3 (Fin ((\<lambda>i. 2) i)) (Fin ((\<lambda>i. 0) i)) (Fin ((\<lambda>i. 0) i))"
  proof (intro allI impI)
    fix i assume "i < segments exampleParams"
    then have i: "i \<le> 3" by (simp add: s)
    have "gridOf exampleParams (\<lambda>ring seg. Vec3 (Fin 2) (jnat ring) (Fin 0)) ! (0 * (segments exampleParams + 1) + i)
        = Vec3 (Fin 2) (jnat 0) (Fin 0)"
      by (rule gridOf_nth) (simp_all add: r s i)
    then show "getV (positionAttr exampleGrid) i
        = Vec3 (Fin ((\<lambda>i. 2) i)) (Fin ((\<lambda>i. 0) i)) (Fin ((\<lambda>i. 0) i))"
      using i len by (simp add: getV_def exampleGrid_def)
  qed
  have pos: "0 < segments exampleParams" by (simp add: s)
  note t = cap_weld[OF l e]
  note t7 = t[THEN conjunct2, THEN conjunct2, THEN conjunct2, THEN conjunct2, THEN conjunct2,
      THEN conjunct2, THEN conjunct1, rule_format, of "\<lambda>i. 2" "\<lambda>i. 0" "\<lambda>i. 0"]
  have "positionAttr ([exampleGrid, fst (createWeldedCapGeometries exampleGrid exampleParams),
        snd (createWeldedCapGeometries exampleGrid exampleParams)] ! 1) ! 0
      = Vec3 (Fin ((\<Sum>i<segments exampleParams. 2) / real (segments exampleParams)))
             (Fin ((\<Sum>i<segments exampleParams. 0) / real (segments exampleParams)))
             (Fin ((\<Sum>i<segments exampleParams. 0) / real (segments exampleParams)))"
    by (rule t7) (use pos ring0 in simp)
  then have c: "positionAttr (fst (createWeldedCapGeometries exampleGrid exampleParams)) ! 0
       = Vec3 (Fin 2) (Fin 0) (Fin 0)"
    by (simp add: s)
  note t5 = t[THEN conjunct2, THEN conjunct2, THEN conjunct2, THEN conjunct2, THEN conjunct1,
      rule_format, of 2]
  have "positionAttr ([exampleGrid, fst (createWeldedCapGeometries exampleGrid exampleParams),
        snd (createWeldedCapGeometries exampleGrid exampleParams)] ! 1) ! (2 + 1)
       = getV (positionAttr ([exampleGrid] ! 0)) 2"
    by (rule t5) (simp add: s)
  then have b: "positionAttr (fst (createWeldedCapGeometries exampleGrid exampleParams)) ! (2 + 1)
       = getV (positionAttr exampleGrid) 2"
    by simp
  show ?thesis using l e c b by simp
qed

section \<open>Export transform\<close>

lemma forUpto_map:
  "forUpto (length xs) (\<lambda>i xs. xs[i := F (getV xs i)]) xs = map F xs"
proof (rule nth_equalityI)
  show "length (forUpto (length xs) (\<lambda>i xs. xs[i := F (getV xs i)]) xs) = length (map F xs)"
    by (simp add: forUpto_update_length)
next
  fix j assume "j < length (forUpto (length xs) (\<lambda>i xs. xs[i := F (getV xs i)]) xs)"
  then have j: "j < length xs" by (simp add: forUpto_update_length)
  show "forUpto (length xs) (\<lambda>i xs. xs[i := F (getV xs i)]) xs ! j = map F xs ! j"
    using forUpto_pointwise_nth[OF j, of "length xs" "\<lambda>i. F"] j by simp
qed

lemma prepare_position: "bgPosition (fst (prepareGeometryForSTL cvn g)) = bgPosition g"
  by (simp add: prepareGeometryForSTL_def Let_def split: option.splits)

lemma prepare_normal:
  "bgNormal g = Some ns \<Longrightarrow> bgNormal (fst (prepareGeometryForSTL cvn g)) = Some ns"
  by (simp add: prepareGeometryForSTL_def Let_def split: option.splits)

lemma prepare_error:
  "snd (prepareGeometryForSTL cvn g) = (if bgPosition g = [] then Some NoVertices else None)"
  by (simp add: prepareGeometryForSTL_def Let_def split: option.splits)

lemma process_positions_loop:
  "forUpto (length ps) (\<lambda>i ps.
      (let x = jmul (vx (getV ps i)) scale;
           y = jmul (vy (getV ps i)) scale;
           z = jmul (vz (getV ps i)) scale
       in if swapYZ then ps[i := Vec3 x z y] else ps[i := Vec3 x y z])) ps
   = map (exportPosition scale swapYZ) ps"
proof -
  have "(\<lambda>i ps.
      (let x = jmul (vx (getV ps i)) scale;
           y = jmul (vy (getV ps i)) scale;
           z = jmul (vz (getV ps i)) scale
       in if swapYZ then ps[i := Vec3 x z y] else ps[i := Vec3 x y z]))
    = (\<lambda>i ps. ps[i := exportPosition scale swapYZ (getV ps i)])"
    by (intro ext) (simp add: exportPosition_def Let_def)
  then show ?thesis by (simp only: forUpto_map)
qed

lemma process_normals_loop:
  "forUpto (length ns) (\<lambda>i ns.
      ns[i := Vec3 (vx (getV ns i)) (vz (getV ns i)) (vy (getV ns i))]) ns
   = map (exportNormal True) ns"
proof -
  have "(\<lambda>i ns. ns[i := Vec3 (vx (getV ns i)) (vz (getV ns i)) (vy (getV ns i))])
      = (\<lambda>i ns. ns[i := exportNormal True (getV ns i)])"
    by (intro ext) (simp add: exportNormal_def)
  then show ?thesis by (simp only: forUpto_map)
qed

lemma exportNormal_False: "map (exportNormal False) ns = ns"
  by (induction ns) (simp_all add: exportNormal_def)

lemma process_alt:
  "processGeometryForExport cvn g scale swapYZ =
     prepareGeometryForSTL cvn
       (g\<lparr> bgPosition := map (exportPosition scale swapYZ) (bgPosition g),
           bgNormal := map_option (map (exportNormal swapYZ)) (bgNormal g) \<rparr>)"
  unfolding processGeometryForExport_def process_positions_loop process_normals_loop
  by (cases "bgNormal g"; cases swapYZ) (simp_all add: Let_def exportNormal_False)

lemma process_exported:
  "exported scale swapYZ g (fst (processGeometryForExport cvn g scale swapYZ))"
  by (cases "bgNormal g")
     (simp_all add: exported_def process_alt prepare_position prepare_normal)

lemma process_error:
  "snd (processGeometryForExport cvn g scale swapYZ)
     = (if bgPosition g = [] then Some NoVertices else None)"
  by (simp add: process_alt prepare_error)

lemma heapKept_refl: "heapKept h h"
  by (simp add: heapKept_def)

lemma heapKept_trans: "heapKept h h1 \<Longrightarrow> heapKept h1 h2 \<Longrightarrow> heapKept h h2"
  by (auto simp add: heapKept_def)

lemma exportClone_Mesh:
  "exportCloneObject cvn scale swapYZ h (Mesh a) =
     (h @ [fst (processGeometryForExport cvn (h ! a) scale swapYZ)],
      (case snd (processGeometryForExport cvn (h ! a) scale swapYZ) of
         Some e \<Rightarrow> Inl e
       | None \<Rightarrow> Inr (Mesh (length h))))"
  by (simp add: alloc_def Let_def split_beta split: option.splits)

lemma clonesExported_later:
  assumes "clonesExported scale swapYZ h h1 as as'" "heapKept h1 h2"
  shows "clonesExported scale swapYZ h h2 as as'"
  using assms unfolding clonesExported_def heapKept_def
  by (auto elim!: list_all2_mono)

lemma clonesExported_from:
  assumes "clonesExported scale swapYZ h1 h2 as as'" "heapKept h h1" "\<forall>a\<in>set as. a < length h"
  shows "clonesExported scale swapYZ h h2 as as'"
proof -
  have same: "\<And>i. i < length as \<Longrightarrow> h1 ! (as ! i) = h ! (as ! i)"
    using assms(2,3) by (simp add: heapKept_def)
  have le: "length h \<le> length h1" using assms(2) by (simp add: heapKept_def)
  show ?thesis
    using assms(1) same le unfolding clonesExported_def list_all2_conv_all_nth
    by auto
qed

lemma clonesExported_append:
  "clonesExported scale swapYZ h h' as as' \<Longrightarrow> clonesExported scale swapYZ h h' bs bs' \<Longrightarrow>
   clonesExported scale swapYZ h h' (as @ bs) (as' @ bs')"
  by (simp add: clonesExported_def list_all2_appendI)

lemma exportClone_correct:
  "(\<forall>a\<in>set (meshesOf obj). a < length h) \<longrightarrow>
     heapKept h (fst (exportCloneObject cvn scale swapYZ h obj))
     \<and> (\<forall>obj'. snd (exportCloneObject cvn scale swapYZ h obj) = Inr obj' \<longrightarrow>
           clonesExported scale swapYZ h (fst (exportCloneObject cvn scale swapYZ h obj))
             (meshesOf obj) (meshesOf obj'))"
  and exportCloneChildren_correct:
  "(\<forall>a\<in>set (concat (map meshesOf cs)). a < length h) \<longrightarrow>
     heapKept h (fst (exportCloneChildren cvn scale swapYZ h cs))
     \<and> (\<forall>cs'. snd (exportCloneChildren cvn scale swapYZ h cs) = Inr cs' \<longrightarrow>
           clonesExported scale swapYZ h (fst (exportCloneChildren cvn scale swapYZ h cs))
             (concat (map meshesOf cs)) (concat (map meshesOf cs')))"
proof (induction cvn scale swapYZ h obj and cvn scale swapYZ h cs
    rule: exportCloneObject_exportCloneChildren.induct)
  case (1 cvn scale swapYZ h a)
  show ?case
    by (auto simp add: exportClone_Mesh heapKept_def clonesExported_def nth_append
        process_exported simp del: exportCloneObject.simps split: option.splits)
next
  case (2 cvn scale swapYZ h children)
  then show ?case
    by (auto split: prod.splits sum.splits)
next
  case (3 cvn scale swapYZ h)
  show ?case by (simp add: heapKept_refl clonesExported_def)
next
  case (4 cvn scale swapYZ h c cs)
  show ?case
  proof (intro impI)
    assume valid: "\<forall>a\<in>set (concat (map meshesOf (c # cs))). a < length h"
    obtain h1 r1 where e1: "exportCloneObject cvn scale swapYZ h c = (h1, r1)"
      by (cases "exportCloneObject cvn scale swapYZ h c") auto
    have vc: "\<forall>a\<in>set (meshesOf c). a < length h" using valid by simp
    have k1: "heapKept h h1" using "4.IH"(1) vc e1 by simp
    show "heapKept h (fst (exportCloneChildren cvn scale swapYZ h (c # cs)))
      \<and> (\<forall>cs'. snd (exportCloneChildren cvn scale swapYZ h (c # cs)) = Inr cs' \<longrightarrow>
           clonesExported scale swapYZ h (fst (exportCloneChildren cvn scale swapYZ h (c # cs)))
             (concat (map meshesOf (c # cs))) (concat (map meshesOf cs')))"
    proof (cases r1)
      case (Inl e)
      then show ?thesis using e1 k1 by simp
    next
      case (Inr c')
      obtain h2 r2 where e2: "exportCloneChildren cvn scale swapYZ h1 cs = (h2, r2)"
        by (cases "exportCloneChildren cvn scale swapYZ h1 cs") auto
      have vcs0: "\<forall>a\<in>set (concat (map meshesOf cs)). a < length h"
        using valid by simp
      have "length h \<le> length h1" using k1 by (simp add: heapKept_def)
      then have vcs: "\<forall>a\<in>set (concat (map meshesOf cs)). a < length h1"
        using vcs0 by (meson le_trans less_le_trans order.strict_trans2)
      note IH2 = "4.IH"(2)[OF e1[symmetric] Inr]
      have k2: "heapKept h1 h2" using IH2 vcs e2 by simp
      have k: "heapKept h h2" by (rule heapKept_trans[OF k1 k2])
      have c1: "clonesExported scale swapYZ h h1 (meshesOf c) (meshesOf c')"
        using "4.IH"(1) vc e1 Inr by simp
      show ?thesis
      proof (cases r2)
        case (Inl e)
        then show ?thesis using e1 e2 Inr k by simp
      next
        case r2: (Inr cs')
        have c2: "clonesExported scale swapYZ h1 h2 (concat (map meshesOf cs)) (concat (map meshesOf cs'))"
          using IH2 vcs e2 r2 by simp
        have "clonesExported scale swapYZ h h2 (meshesOf c @ concat (map meshesOf cs))
            (meshesOf c' @ concat (map meshesOf cs'))"
          by (rule clonesExported_append[OF clonesExported_later[OF c1 k2]
                clonesExported_from[OF c2 k1 vcs0]])
        then show ?thesis using e1 e2 Inr r2 k by simp
      qed
    qed
  qed
qed

lemma one_vertex_export:
  "createExportClone cvn [oneVertex] (Mesh 0) (Fin 10) True =
     ([oneVertex,
       \<lparr> bgPosition = [Vec3 (Fin 10) (Fin 30) (Fin 20)],
         bgNormal = Some [Vec3 (Fin 0) (Fin 0) (Fin 1)],
         bgIndex = Some [0] \<rparr>],
      Inr (Mesh 1))"
  by (simp add: createExportClone_def exportClone_Mesh process_alt prepareGeometryForSTL_def
      oneVertex_def exportPosition_def exportNormal_def del: exportCloneObject.simps)

text \<open>
  Claim C9. The export works on copies: every geometry that was in the heap before the
  call is there unchanged after it, and every mesh of the clone refers to a new geometry.
  The positions of that geometry are the positions of the original, each coordinate
  times the scale, with y and z swapped when \<open>swapYZ\<close> is set; its normals are those of the
  original, with y and z swapped when \<open>swapYZ\<close> is set. A vertex at (1, 2, 3), exported with
  scale 10 and the swap, is at (10, 30, 20), and the original still holds (1, 2, 3).
\<close>

theorem export_transform:
  assumes "\<forall>a\<in>set (meshesOf mesh). a < length h"
  shows "heapKept h (fst (createExportClone cvn h mesh scale swapYZ))
       \<and> (\<forall>clone. snd (createExportClone cvn h mesh scale swapYZ) = Inr clone \<longrightarrow>
             clonesExported scale swapYZ h (fst (createExportClone cvn h mesh scale swapYZ))
               (meshesOf mesh) (meshesOf clone))
       \<and> snd (createExportClone cvn [oneVertex] (Mesh 0) (Fin 10) True) = Inr (Mesh 1)
       \<and> bgPosition (fst (createExportClone cvn [oneVertex] (Mesh 0) (Fin 10) True) ! 1)
            = [Vec3 (Fin 10) (Fin 30) (Fin 20)]
       \<and> bgPosition (fst (createExportClone cvn [oneVertex] (Mesh 0) (Fin 10) True) ! 0)
            = [Vec3 (Fin 1) (Fin 2) (Fin 3)]"
proof -
  have a: "heapKept h (fst (createExportClone cvn h mesh scale swapYZ))
       \<and> (\<forall>clone. snd (createExportClone cvn h mesh scale swapYZ) = Inr clone \<longrightarrow>
             clonesExported scale swapYZ h (fst (createExportClone cvn h mesh scale swapYZ))
               (meshesOf mesh) (meshesOf clone))"
    unfolding createExportClone_def using exportClone_correct[of mesh h cvn scale swapYZ] assms
    by blast
  have b: "snd (createExportClone cvn [oneVertex] (Mesh 0) (Fin 10) True) = Inr (Mesh 1)
       \<and> bgPosition (fst (createExportClone cvn [oneVertex] (Mesh 0) (Fin 10) True) ! 1)
            = [Vec3 (Fin 10) (Fin 30) (Fin 20)]
       \<and> bgPosition (fst (createExportClone cvn [oneVertex] (Mesh 0) (Fin 10) True) ! 0)
            = [Vec3 (Fin 1) (Fin 2) (Fin 3)]"
    by (simp add: one_vertex_export) (simp add: oneVertex_def)
  show ?thesis
    by (rule conjI[OF a[THEN conjunct1] conjI[OF a[THEN conjunct2] b]])
qed

theorem export_transform_witness:
  "heapKept [oneVertex]
        (fst (createExportClone (\<lambda>g. []) [oneVertex] (Group [Mesh 0, Mesh 0]) (Fin 10) True))
   \<and> snd (createExportClone (\<lambda>g. []) [oneVertex] (Group [Mesh 0, Mesh 0]) (Fin 10) True)
        = Inr (Group [Mesh 1, Mesh 2])
   \<and> clonesExported (Fin 10) True [oneVertex]
        (fst (createExportClone (\<lambda>g. []) [oneVertex] (Group [Mesh 0, Mesh 0]) (Fin 10) True))
        [0, 0] [1, 2]"
proof -
  have v: "\<forall>a\<in>set (meshesOf (Group [Mesh 0, Mesh 0])). a < length [oneVertex]" by simp
  have r: "snd (createExportClone (\<lambda>g. []) [oneVertex] (Group [Mesh 0, Mesh 0]) (Fin 10) True)
        = Inr (Group [Mesh 1, Mesh 2])"
    by (simp add: createExportClone_def alloc_def process_error oneVertex_def split_beta Let_def
        split: option.splits)
  note t = export_transform[OF v, of "\<lambda>g. []" "Fin 10" True]
  have c: "clonesExported (Fin 10) True [oneVertex]
        (fst (createExportClone (\<lambda>g. []) [oneVertex] (Group [Mesh 0, Mesh 0]) (Fin 10) True))
        (meshesOf (Group [Mesh 0, Mesh 0])) (meshesOf (Group [Mesh 1, Mesh 2]))"
    using t r by blast
  show ?thesis using t v r c by simp
qed

section \<open>Displacement sampling\<close>

lemma jmod_one_nonneg: "0 \<le> a \<Longrightarrow> jmod (Fin a) (Fin 1) = Fin (frac a)"
  by (simp add: rtrunc_def frac_def)

lemma floor_scaled_bounds:
  fixes f :: real and n :: nat
  assumes "0 \<le> f" "f \<le> 1" "0 < n"
  shows "0 \<le> \<lfloor>f * (real n - 1)\<rfloor>" "\<lfloor>f * (real n - 1)\<rfloor> \<le> int n - 1"
proof -
  have n1: "0 \<le> real n - 1" using assms(3) by simp
  then have "0 \<le> f * (real n - 1)" using assms(1) by simp
  then show "0 \<le> \<lfloor>f * (real n - 1)\<rfloor>" by simp
  have "f * (real n - 1) \<le> 1 * (real n - 1)" using assms(2) n1 by (intro mult_right_mono) simp_all
  then have "f * (real n - 1) \<le> real_of_int (int n - 1)" by simp
  then show "\<lfloor>f * (real n - 1)\<rfloor> \<le> int n - 1" using floor_mono by fastforce
qed

lemma dataAt_pixel:
  assumes "x < imageWidth img" "y < imageHeight img"
  shows "dataAt img (Fin (real (4 * (y * imageWidth img + x)))) = jnat (redChannel img x y)"
proof -
  have "Suc y * imageWidth img \<le> imageHeight img * imageWidth img"
    using assms(2) by (intro mult_le_mono1) simp
  then have "y * imageWidth img + x < imageHeight img * imageWidth img" using assms(1) by simp
  then have "4 * (y * imageWidth img + x) < 4 * imageWidth img * imageHeight img"
    by (simp add: mult.commute)
  then show ?thesis
    by (simp add: dataAt_def redChannel_def is_int_def del: of_nat_mult of_nat_add)
qed

lemma sampleRed_pixel:
  assumes "textureRepeatU params = Fin ru" "textureRepeatV params = Fin rv"
    "0 \<le> u * ru" "0 \<le> v * rv" "0 < imageWidth img" "0 < imageHeight img"
  shows "sampleRed img params (Fin u) (Fin v) =
     Fin (real (redChannel img (nat \<lfloor>frac (u * ru) * (real (imageWidth img) - 1)\<rfloor>)
                              (nat \<lfloor>(1 - frac (v * rv)) * (real (imageHeight img) - 1)\<rfloor>)) / 255)"
proof -
  let ?w = "imageWidth img" and ?h = "imageHeight img"
  let ?X = "\<lfloor>frac (u * ru) * (real ?w - 1)\<rfloor>"
  let ?Y = "\<lfloor>(1 - frac (v * rv)) * (real ?h - 1)\<rfloor>"
  have fu: "0 \<le> frac (u * ru)" "frac (u * ru) \<le> 1"
    using frac_lt_1[of "u * ru"] by (simp_all add: less_imp_le)
  have fv: "0 \<le> 1 - frac (v * rv)" "1 - frac (v * rv) \<le> 1"
    using frac_lt_1[of "v * rv"] by (simp_all add: less_imp_le)
  have X: "0 \<le> ?X" "?X \<le> int ?w - 1" using floor_scaled_bounds[OF fu assms(5)] by simp_all
  have Y: "0 \<le> ?Y" "?Y \<le> int ?h - 1" using floor_scaled_bounds[OF fv assms(6)] by simp_all
  have xin: "nat ?X < ?w" using X assms(5) by linarith
  have yin: "nat ?Y < ?h" using Y assms(6) by linarith
  have rx: "real_of_int ?X = real (nat ?X)" using X(1) by simp
  have ry: "real_of_int ?Y = real (nat ?Y)" using Y(1) by simp
  have idx: "(real_of_int ?Y * real ?w + real_of_int ?X) * 4
      = real (4 * (nat ?Y * ?w + nat ?X))"
    by (simp only: rx ry) simp
  have "sampleRed img params (Fin u) (Fin v)
      = jdiv (dataAt img (Fin ((real_of_int ?Y * real ?w + real_of_int ?X) * 4))) (Fin 255)"
    using assms(1,2,3,4)
    by (simp add: sampleRed_def Let_def jmod_one_nonneg jsub_def del: jmod.simps)
  also have "\<dots> = jdiv (jnat (redChannel img (nat ?X) (nat ?Y))) (Fin 255)"
    by (simp only: idx dataAt_pixel[OF xin yin])
  finally show ?thesis by simp
qed

lemma raw_interior:
  assumes "i mod (segments params + 1) \<noteq> 0" "i mod (segments params + 1) \<noteq> segments params"
  shows "rawDisplacement img params uvs scale bias seam i =
     jadd (jmul (sampleRed img params (fst (getUV uvs i)) (snd (getUV uvs i))) scale) bias"
  using assms by (simp add: rawDisplacement_def Let_def)

lemma raw_seam_vertex:
  assumes "i mod (segments params + 1) = 0 \<or> i mod (segments params + 1) = segments params"
  shows "rawDisplacement img params uvs scale bias seam i = getN seam (i div (segments params + 1))"
  using assms by (auto simp add: rawDisplacement_def Let_def)

lemma rotated_fields:
  "segments rotatedParams = 3" "rings rotatedParams = 3"
  "textureRepeatU rotatedParams = Fin 1" "textureRepeatV rotatedParams = Fin 1"
  "textureRotation rotatedParams = Fin 90" "\<not> falloffEnabled rotatedParams"
  by (simp_all add: rotatedParams_def exampleParams_def)

lemma quarter_turn: "(90 * pi / 180) / (pi * 2) = (1 / 4 :: real)"
  by simp

lemma rotated_uv: "loftUV rotatedParams 2 0 = (Fin (1 / 4), Fin 1)"
proof -
  have m: "jmod (Fin (1 / 4)) (Fin 1) = Fin (1 / 4)"
    by (simp add: rtrunc_def)
  show ?thesis
    unfolding loftUV_def Let_def rotated_fields
    by (simp add: quarter_turn m del: jmod.simps)
qed

lemma rotated_uv_at: "getUV (gridOf rotatedParams (loftUV rotatedParams)) 8 = (Fin (1 / 4), Fin 1)"
proof -
  have "gridOf rotatedParams (loftUV rotatedParams) ! (2 * (segments rotatedParams + 1) + 0)
      = loftUV rotatedParams 2 0"
    by (rule gridOf_nth) (simp_all add: rotated_fields)
  then show ?thesis
    by (simp add: getUV_def gridOf_length rotated_fields rotated_uv)
qed

lemma stripe_fields: "imageWidth stripeImage = 5" "imageHeight stripeImage = 1"
  by (simp_all add: stripeImage_def)

lemma stripe_own: "sampleRed stripeImage rotatedParams (Fin (1 / 4)) (Fin 1) = Fin 1"
  using sampleRed_pixel[of rotatedParams 1 1 "1 / 4" 1 stripeImage]
  by (simp add: rotated_fields stripe_fields frac_def redChannel_def)
     (simp add: stripeImage_def)

lemma stripe_seam: "sampleRed stripeImage rotatedParams (Fin 0) (Fin 1) = Fin 0"
  using sampleRed_pixel[of rotatedParams 1 1 0 1 stripeImage]
  by (simp add: rotated_fields stripe_fields frac_def redChannel_def)
     (simp add: stripeImage_def)

text \<open>
  Away from the seam the displacement is sampled per vertex: a vertex that is neither
  the first nor the last of its ring gets, before the falloff, the red channel sampled at its own UV coordinate, times the scale,
  plus the bias. The sample at \<open>(u, v)\<close> is the red byte, divided by 255, of the pixel in
  column \<open>floor ((u * repeatU mod 1) * (width - 1))\<close> and row
  \<open>floor ((1 - (v * repeatV mod 1)) * (height - 1))\<close>; it lies in \<open>[0, 1]\<close>. The first and
  the last vertex of a ring both take the entry of their ring in the table of the first
  pass, which is computed at \<open>u = 0\<close>.
\<close>

theorem displacement_sampling:
  "(i mod (segments params + 1) \<noteq> 0 \<and> i mod (segments params + 1) \<noteq> segments params \<longrightarrow>
      rawDisplacement img params uvs scale bias seam i =
        jadd (jmul (sampleRed img params (fst (getUV uvs i)) (snd (getUV uvs i))) scale) bias)
   \<and> (i mod (segments params + 1) = 0 \<or> i mod (segments params + 1) = segments params \<longrightarrow>
        rawDisplacement img params uvs scale bias seam i
          = getN seam (i div (segments params + 1)))
   \<and> (\<forall>u v ru rv. textureRepeatU params = Fin ru \<and> textureRepeatV params = Fin rv
          \<and> 0 \<le> u * ru \<and> 0 \<le> v * rv \<and> 0 < imageWidth img \<and> 0 < imageHeight img \<longrightarrow>
        sampleRed img params (Fin u) (Fin v) =
          Fin (real (redChannel img (nat \<lfloor>frac (u * ru) * (real (imageWidth img) - 1)\<rfloor>)
                       (nat \<lfloor>(1 - frac (v * rv)) * (real (imageHeight img) - 1)\<rfloor>)) / 255))
   \<and> (\<forall>x y. (\<forall>k. imageData img k \<le> 255) \<longrightarrow>
          0 \<le> real (redChannel img x y) / 255 \<and> real (redChannel img x y) / 255 \<le> 1)"
proof -
  have a: "i mod (segments params + 1) \<noteq> 0 \<and> i mod (segments params + 1) \<noteq> segments params \<longrightarrow>
      rawDisplacement img params uvs scale bias seam i =
        jadd (jmul (sampleRed img params (fst (getUV uvs i)) (snd (getUV uvs i))) scale) bias"
    using raw_interior by blast
  have b: "i mod (segments params + 1) = 0 \<or> i mod (segments params + 1) = segments params \<longrightarrow>
        rawDisplacement img params uvs scale bias seam i
          = getN seam (i div (segments params + 1))"
    by (intro impI) (rule raw_seam_vertex)
  have c: "\<forall>u v ru rv. textureRepeatU params = Fin ru \<and> textureRepeatV params = Fin rv
          \<and> 0 \<le> u * ru \<and> 0 \<le> v * rv \<and> 0 < imageWidth img \<and> 0 < imageHeight img \<longrightarrow>
        sampleRed img params (Fin u) (Fin v) =
          Fin (real (redChannel img (nat \<lfloor>frac (u * ru) * (real (imageWidth img) - 1)\<rfloor>)
                       (nat \<lfloor>(1 - frac (v * rv)) * (real (imageHeight img) - 1)\<rfloor>)) / 255)"
    using sampleRed_pixel by blast
  have d: "\<forall>x y. (\<forall>k. imageData img k \<le> 255) \<longrightarrow>
          0 \<le> real (redChannel img x y) / 255 \<and> real (redChannel img x y) / 255 \<le> 1"
  proof (intro allI impI)
    fix x y assume "\<forall>k. imageData img k \<le> 255"
    then have "redChannel img x y \<le> 255" by (simp add: redChannel_def)
    then have "real (redChannel img x y) \<le> 255" by linarith
    then show "0 \<le> real (redChannel img x y) / 255 \<and> real (redChannel img x y) / 255 \<le> 1"
      by simp
  qed
  show ?thesis by (rule conjI[OF a conjI[OF b conjI[OF c d]]])
qed

theorem displacement_sampling_witness:
  "(5 :: nat) mod (segments exampleParams + 1) \<noteq> 0
   \<and> (5 :: nat) mod (segments exampleParams + 1) \<noteq> segments exampleParams
   \<and> rawDisplacement whiteImage exampleParams (uvAttr exampleGrid) (Fin 1) (Fin 0) [] 5 =
        jadd (jmul (sampleRed whiteImage exampleParams (fst (getUV (uvAttr exampleGrid) 5))
                      (snd (getUV (uvAttr exampleGrid) 5))) (Fin 1)) (Fin 0)
   \<and> sampleRed whiteImage exampleParams (Fin (1 / 3)) (Fin (1 / 2)) = Fin 1"
proof -
  have s: "segments exampleParams = 3" by (simp add: exampleParams_def)
  have m: "(5 :: nat) mod (segments exampleParams + 1) \<noteq> 0
      \<and> (5 :: nat) mod (segments exampleParams + 1) \<noteq> segments exampleParams"
    by (simp add: s)
  note t = displacement_sampling[of 5 exampleParams whiteImage "uvAttr exampleGrid" "Fin 1" "Fin 0" "[]"]
  have r: "rawDisplacement whiteImage exampleParams (uvAttr exampleGrid) (Fin 1) (Fin 0) [] 5 =
        jadd (jmul (sampleRed whiteImage exampleParams (fst (getUV (uvAttr exampleGrid) 5))
                      (snd (getUV (uvAttr exampleGrid) 5))) (Fin 1)) (Fin 0)"
    using t m by blast
  have h: "textureRepeatU exampleParams = Fin 1 \<and> textureRepeatV exampleParams = Fin 1
      \<and> (0 :: real) \<le> 1 / 3 * 1 \<and> (0 :: real) \<le> 1 / 2 * 1
      \<and> 0 < imageWidth whiteImage \<and> 0 < imageHeight whiteImage"
    by (simp add: exampleParams_def whiteImage_def)
  have "sampleRed whiteImage exampleParams (Fin (1 / 3)) (Fin (1 / 2)) =
      Fin (real (redChannel whiteImage
             (nat \<lfloor>frac (1 / 3 * 1) * (real (imageWidth whiteImage) - 1)\<rfloor>)
             (nat \<lfloor>(1 - frac (1 / 2 * 1)) * (real (imageHeight whiteImage) - 1)\<rfloor>)) / 255)"
    using t[THEN conjunct2, THEN conjunct2, THEN conjunct1, rule_format, OF h] .
  then have w: "sampleRed whiteImage exampleParams (Fin (1 / 3)) (Fin (1 / 2)) = Fin 1"
    by (simp add: redChannel_def whiteImage_def)
  show ?thesis using m r w by blast
qed

text \<open>
  The seam pass samples at \<open>u = 0\<close>, which is the coordinate of the first vertex of a ring
  only as long as the texture is not rotated. In the grid of the builder for 3 rings, 3 segments and a rotation of 90
  degrees, the vertex 8 (ring 2, segment 0) has the UV coordinate (1/4, 1); the code
  samples it at \<open>u = 0\<close>, where the image is black, and not at its own \<open>u\<close>, where the
  image is white.
\<close>

lemma seam_sampled_at_zero_under_rotation:
  "rawDisplacement stripeImage rotatedParams (gridOf rotatedParams (loftUV rotatedParams))
      (Fin 1) (Fin 0)
      (seamDisplacements stripeImage rotatedParams (gridOf rotatedParams (loftUV rotatedParams))
         (Fin 1) (Fin 0) 3) 8
   \<noteq> jadd (jmul (sampleRed stripeImage rotatedParams
                    (fst (getUV (gridOf rotatedParams (loftUV rotatedParams)) 8))
                    (snd (getUV (gridOf rotatedParams (loftUV rotatedParams)) 8)))
              (Fin 1)) (Fin 0)"
proof -
  let ?uvs = "gridOf rotatedParams (loftUV rotatedParams)"
  have f: "calculateDisplacementFalloff v rotatedParams = Fin 1" for v
    by (simp add: calculateDisplacementFalloff_def rotated_fields)
  have sd: "seamDisplacement stripeImage rotatedParams ?uvs (Fin 1) (Fin 0) 2 = Fin 0"
    using rotated_uv_at
    by (simp add: seamDisplacement_def Let_def rotated_fields stripe_seam f)
  have "rawDisplacement stripeImage rotatedParams ?uvs (Fin 1) (Fin 0)
      (seamDisplacements stripeImage rotatedParams ?uvs (Fin 1) (Fin 0) 3) 8
      = getN (seamDisplacements stripeImage rotatedParams ?uvs (Fin 1) (Fin 0) 3) 2"
    using raw_seam_vertex[of 8 rotatedParams] by (simp add: rotated_fields)
  also have "\<dots> = seamDisplacement stripeImage rotatedParams ?uvs (Fin 1) (Fin 0) 2"
    unfolding seamDisplacements_def by (rule getN_map_upt) simp
  also have "\<dots> = Fin 0" by (rule sd)
  finally have code: "rawDisplacement stripeImage rotatedParams ?uvs (Fin 1) (Fin 0)
      (seamDisplacements stripeImage rotatedParams ?uvs (Fin 1) (Fin 0) 3) 8 = Fin 0" .
  have own: "jadd (jmul (sampleRed stripeImage rotatedParams (fst (getUV ?uvs 8)) (snd (getUV ?uvs 8)))
              (Fin 1)) (Fin 0) = Fin 1"
    by (simp add: rotated_uv_at stripe_own)
  show ?thesis by (simp only: code own) simp
qed

text \<open>
  The entry of the seam table already holds the falloff multiplier, and the main loop
  multiplies by it again, so that a seam vertex is attenuated twice.
\<close>

lemma seam_falloff_twice:
  assumes "ring < numRings"
  shows "vertexDisplacement img params uvs scale bias
           (seamDisplacements img params uvs scale bias numRings) (ring * (segments params + 1))
       = jmul (jmul (jadd (jmul (sampleRed img params (Fin 0)
                                   (snd (getUV uvs (ring * (segments params + 1))))) scale) bias)
                    (calculateDisplacementFalloff (snd (getUV uvs (ring * (segments params + 1)))) params))
              (calculateDisplacementFalloff (snd (getUV uvs (ring * (segments params + 1)))) params)"
proof -
  have d0: "(ring * (segments params + 1)) div (segments params + 1) = ring"
    by (rule div_mult_self_is_m) simp
  have "rawDisplacement img params uvs scale bias
      (seamDisplacements img params uvs scale bias numRings) (ring * (segments params + 1))
      = getN (seamDisplacements img params uvs scale bias numRings) ring"
    using raw_seam_vertex[of "ring * (segments params + 1)" params] first_mod[of ring "segments params"] d0
    by simp
  also have "\<dots> = seamDisplacement img params uvs scale bias ring"
    unfolding seamDisplacements_def by (rule getN_map_upt[OF assms])
  finally show ?thesis
    by (simp add: vertexDisplacement_def seamDisplacement_def Let_def)
qed

lemma eleven_fields:
  "segments elevenParams = 3" "rings elevenParams = 11"
  "textureRepeatU elevenParams = Fin 1" "textureRepeatV elevenParams = Fin 1"
  "textureRotation elevenParams = Fin 0" "falloffEnabled elevenParams"
  "falloffBottom elevenParams = Fin (1 / 5)" "falloffTop elevenParams = Fin (1 / 5)"
  "falloffPower elevenParams = Fin 2"
  by (simp_all add: elevenParams_def exampleParams_def)

lemma eleven_uv:
  "getUV (gridOf elevenParams (loftUV elevenParams)) 4 = (Fin 0, Fin (1 / 10))"
  "getUV (gridOf elevenParams (loftUV elevenParams)) 5 = (Fin (1 / 3), Fin (1 / 10))"
proof -
  have m0: "jmod (Fin 0) (Fin 1) = Fin 0" by (simp add: rtrunc_def)
  have m1: "jmod (Fin (1 / 3)) (Fin 1) = Fin (1 / 3)" by (simp add: rtrunc_def)
  have u0: "loftUV elevenParams 1 0 = (Fin 0, Fin (1 / 10))"
    unfolding loftUV_def Let_def eleven_fields by (simp add: m0 del: jmod.simps)
  have u1: "loftUV elevenParams 1 1 = (Fin (1 / 3), Fin (1 / 10))"
    unfolding loftUV_def Let_def eleven_fields by (simp add: m1 del: jmod.simps)
  have g0: "gridOf elevenParams (loftUV elevenParams) ! (1 * (segments elevenParams + 1) + 0)
      = loftUV elevenParams 1 0"
    by (rule gridOf_nth) (simp_all add: eleven_fields)
  have g1: "gridOf elevenParams (loftUV elevenParams) ! (1 * (segments elevenParams + 1) + 1)
      = loftUV elevenParams 1 1"
    by (rule gridOf_nth) (simp_all add: eleven_fields)
  show "getUV (gridOf elevenParams (loftUV elevenParams)) 4 = (Fin 0, Fin (1 / 10))"
    using g0 u0 by (simp add: getUV_def gridOf_length eleven_fields)
  show "getUV (gridOf elevenParams (loftUV elevenParams)) 5 = (Fin (1 / 3), Fin (1 / 10))"
    using g1 u1 by (simp add: getUV_def gridOf_length eleven_fields)
qed

lemma white_everywhere:
  assumes "0 \<le> u" "0 \<le> v"
  shows "sampleRed whiteImage elevenParams (Fin u) (Fin v) = Fin 1"
  using sampleRed_pixel[of elevenParams 1 1 u v whiteImage] assms
  by (simp add: eleven_fields redChannel_def whiteImage_def)

lemma eleven_falloff: "calculateDisplacementFalloff (Fin (1 / 10)) elevenParams = Fin (1 / 4)"
  using falloff_bottom[of elevenParams "1 / 5" 2 "1 / 10"]
  by (simp add: eleven_fields power2_eq_square)

text \<open>
  Claim C7, at an input where the code breaks it. The grid is the one of the builder for
  11 rings and 3 segments, the image is white everywhere, the scale is 1, the bias 0 and
  the falloff has its default zones of 0.2 and power 2. The vertex 4 is the first of
  ring 1, at the UV coordinate (0, 0.1). The sample at its own UV coordinate, times the
  scale, plus the bias, is 1, and so is the raw displacement of its neighbour, the
  vertex 5. But the raw displacement that the main loop takes for the vertex 4 is the
  entry of the seam table, 0.25, which already holds the falloff multiplier; the loop
  multiplies by 0.25 again, and the seam vertex is displaced by 0.0625 where its
  neighbour is displaced by 0.25.
\<close>

theorem seam_displacement_attenuated_twice:
  "jadd (jmul (sampleRed whiteImage elevenParams
                 (fst (getUV (gridOf elevenParams (loftUV elevenParams)) 4))
                 (snd (getUV (gridOf elevenParams (loftUV elevenParams)) 4))) (Fin 1)) (Fin 0)
     = Fin 1
   \<and> rawDisplacement whiteImage elevenParams (gridOf elevenParams (loftUV elevenParams))
        (Fin 1) (Fin 0)
        (seamDisplacements whiteImage elevenParams (gridOf elevenParams (loftUV elevenParams))
           (Fin 1) (Fin 0) 11) 4
     = Fin (1 / 4)
   \<and> vertexDisplacement whiteImage elevenParams (gridOf elevenParams (loftUV elevenParams))
        (Fin 1) (Fin 0)
        (seamDisplacements whiteImage elevenParams (gridOf elevenParams (loftUV elevenParams))
           (Fin 1) (Fin 0) 11) 4
     = Fin (1 / 16)
   \<and> rawDisplacement whiteImage elevenParams (gridOf elevenParams (loftUV elevenParams))
        (Fin 1) (Fin 0)
        (seamDisplacements whiteImage elevenParams (gridOf elevenParams (loftUV elevenParams))
           (Fin 1) (Fin 0) 11) 5
     = Fin 1
   \<and> vertexDisplacement whiteImage elevenParams (gridOf elevenParams (loftUV elevenParams))
        (Fin 1) (Fin 0)
        (seamDisplacements whiteImage elevenParams (gridOf elevenParams (loftUV elevenParams))
           (Fin 1) (Fin 0) 11) 5
     = Fin (1 / 4)"
proof -
  let ?uvs = "gridOf elevenParams (loftUV elevenParams)"
  let ?seam = "seamDisplacements whiteImage elevenParams ?uvs (Fin 1) (Fin 0) 11"
  have own: "jadd (jmul (sampleRed whiteImage elevenParams (fst (getUV ?uvs 4)) (snd (getUV ?uvs 4)))
      (Fin 1)) (Fin 0) = Fin 1"
    by (simp add: eleven_uv white_everywhere)
  have sd: "seamDisplacement whiteImage elevenParams ?uvs (Fin 1) (Fin 0) 1 = Fin (1 / 4)"
    using eleven_uv(1)
    by (simp add: seamDisplacement_def Let_def eleven_fields white_everywhere eleven_falloff)
  have "rawDisplacement whiteImage elevenParams ?uvs (Fin 1) (Fin 0) ?seam 4 = getN ?seam 1"
    using raw_seam_vertex[of 4 elevenParams] by (simp add: eleven_fields)
  also have "\<dots> = seamDisplacement whiteImage elevenParams ?uvs (Fin 1) (Fin 0) 1"
    unfolding seamDisplacements_def by (rule getN_map_upt) simp
  also have "\<dots> = Fin (1 / 4)" by (rule sd)
  finally have raw4: "rawDisplacement whiteImage elevenParams ?uvs (Fin 1) (Fin 0) ?seam 4 = Fin (1 / 4)" .
  have v4: "vertexDisplacement whiteImage elevenParams ?uvs (Fin 1) (Fin 0) ?seam 4 = Fin (1 / 16)"
    unfolding vertexDisplacement_def raw4 by (simp add: eleven_uv eleven_falloff)
  have "rawDisplacement whiteImage elevenParams ?uvs (Fin 1) (Fin 0) ?seam 5
      = jadd (jmul (sampleRed whiteImage elevenParams (fst (getUV ?uvs 5)) (snd (getUV ?uvs 5)))
          (Fin 1)) (Fin 0)"
    by (rule raw_interior) (simp_all add: eleven_fields)
  also have "\<dots> = Fin 1" by (simp add: eleven_uv white_everywhere)
  finally have raw5: "rawDisplacement whiteImage elevenParams ?uvs (Fin 1) (Fin 0) ?seam 5 = Fin 1" .
  have v5: "vertexDisplacement whiteImage elevenParams ?uvs (Fin 1) (Fin 0) ?seam 5 = Fin (1 / 4)"
    unfolding vertexDisplacement_def raw5 by (simp add: eleven_uv eleven_falloff)
  show ?thesis by (rule conjI[OF own conjI[OF raw4 conjI[OF v4 conjI[OF raw5 v5]]]])
qed

end
